(* ===== verification/Prelude.thy ===== *)
theory Prelude
  imports Complex_Main "HOL-Library.Word"
begin

text \<open>
  Shared vocabulary of the development: the machine types of the audio path (bytes and
  16-bit PCM samples), the rule collections the component theories fill, and generic
  lemmas on truncation, signed 16-bit words and lists that several components use.
  Audio sample values and clock times are exact rationals (\<open>rat\<close>), which keeps
  every definition executable; the header of \<open>Spec2Isabelle\<close> explains why this is
  exact for the codec and what it abstracts for the clock arithmetic.
\<close>

unbundle bit_operations_syntax

type_synonym byte = "8 word"
type_synonym int16 = "16 word"

text \<open>
  \<open>model_defs\<close>: definitions unfolded when a model is evaluated on a concrete input
  (witnesses). \<open>inv_rules\<close>: the one-step preservation lemmas of the invariants, used by
  the run-level proofs.
\<close>

named_theorems model_defs "definitions unfolded to evaluate the model on concrete inputs"
named_theorems inv_rules "one-step invariant preservation rules"

subsection \<open>Truncation towards zero\<close>

text \<open>
  ECMAScript's \<open>ToInt16\<close> and \<open>Math.trunc\<close> round towards zero; HOL's \<open>floor\<close> rounds
  towards minus infinity. \<open>js_trunc\<close> is the former, on rationals.
\<close>

definition js_trunc :: "rat \<Rightarrow> int" where
  "js_trunc x = (if x < 0 then - \<lfloor>- x\<rfloor> else \<lfloor>x\<rfloor>)"

declare js_trunc_def [model_defs]

subsection \<open>Little-endian byte pairs\<close>

text \<open>
  The two bytes of a 16-bit word in little-endian order, and the word read back from
  two such bytes (the memory layout of an \<open>Int16Array\<close> on a little-endian host, and
  \<open>DataView.getInt16(off, true)\<close>).
\<close>

definition le_bytes :: "int16 \<Rightarrow> byte list" where
  "le_bytes w = [ucast w, ucast (drop_bit 8 w)]"

definition le_word :: "byte \<Rightarrow> byte \<Rightarrow> int16" where
  "le_word lo hi = ucast lo OR push_bit 8 (ucast hi)"

declare le_bytes_def [model_defs] le_word_def [model_defs]

subsection \<open>White space\<close>

text \<open>
  The characters that \<open>String.prototype.trim\<close> removes and that \<open>\s\<close> matches in a
  regular expression (ECMAScript WhiteSpace and LineTerminator), among the 256 characters
  of \<open>char\<close>: tab, line feed, vertical tab, form feed, carriage return, space and the
  no-break space U+00A0.
\<close>

definition js_space :: "char \<Rightarrow> bool" where
  "js_space c \<longleftrightarrow> c \<in> {CHR 0x09, CHR 0x0A, CHR 0x0B, CHR 0x0C, CHR 0x0D, CHR '' '', CHR 0xA0}"

declare js_space_def [model_defs]

subsection \<open>Lemmas on truncation\<close>

lemma js_trunc_nonneg [simp]: "0 \<le> x \<Longrightarrow> js_trunc x = \<lfloor>x\<rfloor>"
  by (simp add: js_trunc_def)

lemma js_trunc_neg: "x < 0 \<Longrightarrow> js_trunc x = - \<lfloor>- x\<rfloor>"
  by (simp add: js_trunc_def)

lemma floor_numeral_divide [simp]:
  "\<lfloor>(numeral a / numeral b :: rat)\<rfloor> = numeral a div numeral b"
  using floor_divide_of_int_eq [of "numeral a" "numeral b", where 'a = rat] by simp

lemma js_trunc_uminus: "js_trunc (- x) = - js_trunc x"
  by (cases "x < 0"; cases "x = 0") (auto simp: js_trunc_def)

lemma js_trunc_of_int [simp]: "js_trunc (of_int k) = k"
  by (simp add: js_trunc_def)

lemma js_trunc_abs_le: "\<bar>of_int (js_trunc x)\<bar> \<le> \<bar>x\<bar>"
proof (cases "x < 0")
  case True
  then show ?thesis by (simp add: js_trunc_neg)
next
  case False
  then show ?thesis by simp
qed

lemma floor_gt_minus_one: "y - 1 < of_int \<lfloor>y\<rfloor>"
  using floor_le_iff [of y "\<lfloor>y\<rfloor>"] by simp

lemma js_trunc_abs_gt: "\<bar>x\<bar> - 1 < \<bar>of_int (js_trunc x)\<bar>"
proof (cases "x < 0")
  case True
  then have "0 \<le> \<lfloor>- x\<rfloor>" by simp
  with True floor_gt_minus_one [of "- x"] show ?thesis by (simp add: js_trunc_neg)
next
  case False
  then have "0 \<le> \<lfloor>x\<rfloor>" by simp
  with False floor_gt_minus_one [of x] show ?thesis by simp
qed

lemma js_trunc_sgn: "0 \<le> x \<Longrightarrow> 0 \<le> js_trunc x" "x \<le> 0 \<Longrightarrow> js_trunc x \<le> 0"
  by (auto simp: js_trunc_def)

lemma js_trunc_bound:
  assumes "\<bar>x\<bar> \<le> of_int c"
  shows "\<bar>js_trunc x\<bar> \<le> c"
proof -
  have "\<bar>of_int (js_trunc x) :: rat\<bar> \<le> of_int c"
    using js_trunc_abs_le [of x] assms by linarith
  then show ?thesis by linarith
qed

subsection \<open>Signed 16-bit words\<close>

lemma sint16_of_int:
  "- 32768 \<le> k \<Longrightarrow> k < 32768 \<Longrightarrow> sint (word_of_int k :: int16) = k"
  by (simp add: sint_sbintrunc' signed_take_bit_int_eq_self)

lemma sint16_range: "- 32768 \<le> sint (w :: int16)" "sint (w :: int16) < 32768"
  using sint_ge [of w] sint_lt [of w] by simp_all

lemma int16_eq_iff_sint: "(v :: int16) = w \<longleftrightarrow> sint v = sint w"
  by (rule word_eq_iff_signed)

subsection \<open>Lemmas on byte pairs and lists\<close>

lemma le_word_le_bytes: "le_word (ucast w) (ucast (drop_bit 8 w)) = w"
  unfolding le_word_def
  by (rule bit_word_eqI) (auto simp: bit_simps)

lemma length_le_bytes [simp]: "length (le_bytes w) = 2"
  by (simp add: le_bytes_def)

lemma length_concat_le_bytes [simp]: "length (concat (map le_bytes ws)) = 2 * length ws"
  by (induction ws) auto

subsection \<open>Lists\<close>

lemma those_map_Some [simp]: "those (map (\<lambda>x. Some (f x)) xs) = Some (map f xs)"
  by (induction xs) auto

lemma those_map_cong:
  "(\<And>x. x \<in> set xs \<Longrightarrow> f x = Some (g x)) \<Longrightarrow> those (map f xs) = Some (map g xs)"
  by (induction xs) auto

lemma nth_concat_le_bytes:
  "i < length ws \<Longrightarrow>
     concat (map le_bytes ws) ! (2 * i) = ucast (ws ! i) \<and>
     concat (map le_bytes ws) ! Suc (2 * i) = ucast (drop_bit 8 (ws ! i))"
proof (induction ws arbitrary: i)
  case Nil
  then show ?case by simp
next
  case (Cons w ws)
  then show ?case
    by (cases i) (simp_all add: le_bytes_def)
qed

lemma ball_update_nth:
  "\<forall>y \<in> set xs. P y \<Longrightarrow> (i < length xs \<Longrightarrow> P (f (xs ! i))) \<Longrightarrow> \<forall>y \<in> set (xs[i := f (xs ! i)]). P y"
proof (cases "i < length xs")
  case True
  assume "\<forall>y \<in> set xs. P y" "i < length xs \<Longrightarrow> P (f (xs ! i))"
  with True show ?thesis by (auto dest: subsetD [OF set_update_subset_insert])
next
  case False
  assume "\<forall>y \<in> set xs. P y"
  with False show ?thesis by (simp add: list_update_beyond not_less)
qed

end
