(* ===== verification/JsNumber.thy ===== *)
theory JsNumber
  imports Prelude
begin

text \<open>
  The part of ECMAScript's Number semantics that the capture processor relies on:
  a value of a \<open>Float32Array\<close> element is a finite number, an infinity or NaN;
  \<open>Math.min\<close> and \<open>Math.max\<close> propagate NaN; multiplication follows IEEE-754 on the
  special values; storing into an \<open>Int16Array\<close> applies \<open>ToInt16\<close> (NaN and the
  infinities become 0, finite values are truncated towards zero and reduced modulo
  \<open>2^16\<close>). Finite values are exact rationals; the header of \<open>Spec2Isabelle\<close>
  explains why the codec's arithmetic is exact in double precision.
  Signed zero is not distinguished: no operation of the program observes it.
\<close>

datatype jsnum = Num rat | PosInf | NegInf | NaN

fun js_le :: "jsnum \<Rightarrow> jsnum \<Rightarrow> bool" where
  "js_le NaN _ = False"
| "js_le _ NaN = False"
| "js_le NegInf _ = True"
| "js_le _ PosInf = True"
| "js_le PosInf _ = False"
| "js_le _ NegInf = False"
| "js_le (Num a) (Num b) = (a \<le> b)"

text \<open>\<open>Math.min(a, b)\<close> and \<open>Math.max(a, b)\<close>: NaN if either argument is NaN.\<close>

definition js_min :: "jsnum \<Rightarrow> jsnum \<Rightarrow> jsnum" where
  "js_min a b = (if a = NaN \<or> b = NaN then NaN else if js_le a b then a else b)"

definition js_max :: "jsnum \<Rightarrow> jsnum \<Rightarrow> jsnum" where
  "js_max a b = (if a = NaN \<or> b = NaN then NaN else if js_le a b then b else a)"

text \<open>Multiplication: \<open>\<infinity> \<times> 0\<close> is NaN, otherwise infinities keep the product's sign.\<close>

fun js_mul :: "jsnum \<Rightarrow> jsnum \<Rightarrow> jsnum" where
  "js_mul (Num a) (Num b) = Num (a * b)"
| "js_mul NaN _ = NaN"
| "js_mul _ NaN = NaN"
| "js_mul PosInf (Num b) = (if b = 0 then NaN else if 0 < b then PosInf else NegInf)"
| "js_mul NegInf (Num b) = (if b = 0 then NaN else if 0 < b then NegInf else PosInf)"
| "js_mul (Num a) PosInf = (if a = 0 then NaN else if 0 < a then PosInf else NegInf)"
| "js_mul (Num a) NegInf = (if a = 0 then NaN else if 0 < a then NegInf else PosInf)"
| "js_mul PosInf PosInf = PosInf"
| "js_mul NegInf NegInf = PosInf"
| "js_mul PosInf NegInf = NegInf"
| "js_mul NegInf PosInf = NegInf"

text \<open>\<open>ToInt16\<close>, the conversion applied by an assignment into an \<open>Int16Array\<close>.\<close>

fun js_to_int16 :: "jsnum \<Rightarrow> int16" where
  "js_to_int16 (Num r) = word_of_int (js_trunc r)"
| "js_to_int16 _ = 0"

declare js_min_def [model_defs] js_max_def [model_defs]

lemma js_min_one_Num: "js_min (Num 1) (Num r) = Num (min 1 r)"
  by (auto simp: js_min_def min_def)

lemma js_max_minus_one_Num: "js_max (Num (- 1)) (Num r) = Num (max (- 1) r)"
  by (auto simp: js_max_def max_def)

end
