(* ===== verification/Codec.thy ===== *)
theory Codec
  imports JsNumber "HOL-Library.While_Combinator"
begin

text \<open>
  FrameCodec. Encoding is the loop of the inline \<open>PCMProcessor.process\<close> worklet
  (src/src/App.jsx lines 48-59, identical in src/poc2.jsx lines 46-57): each float sample
  is clamped to [-1, 1], scaled by 32767 and stored into an \<open>Int16Array\<close>, whose
  buffer is posted to the main thread. Decoding is the loop at the top of
  \<open>playAudioChunk\<close> (App.jsx lines 193-198, poc2.jsx lines 174-179): every
  little-endian 16-bit value of the received buffer, read with
  \<open>DataView.getInt16(i * 2, true)\<close>, is divided by 32768. The decoding loop is
  given twice: \<open>decode_loop\<close> in its source shape (a \<open>while_option\<close>), and
  \<open>decode_pcm\<close> as the list of the values it stores; C40 proves them equal.
\<close>

subsection \<open>Encoding: the capture worklet\<close>

definition clamp_sample :: "jsnum \<Rightarrow> jsnum" where
  "clamp_sample x = js_max (Num (- 1)) (js_min (Num 1) x)"

definition pcm_sample :: "jsnum \<Rightarrow> int16" where
  "pcm_sample x = js_to_int16 (js_mul (clamp_sample x) (Num 32767))"

text \<open>
  The loop writes index \<open>i\<close> of a zero-filled \<open>Int16Array\<close> of the input's length,
  for \<open>i\<close> from 0 upwards.
\<close>

definition pcm_frame :: "jsnum list \<Rightarrow> int16 list" where
  "pcm_frame input =
     fold (\<lambda>i buf. buf[i := pcm_sample (input ! i)]) [0..<length input]
          (replicate (length input) 0)"

text \<open>
  \<open>int16Buffer.buffer\<close>: the bytes of the typed array in the host's byte order,
  little-endian on every platform a browser runs this on (see the findings).
\<close>

definition int16_buffer :: "int16 list \<Rightarrow> byte list" where
  "int16_buffer buf = concat (map le_bytes buf)"

text \<open>
  \<open>process(inputs)\<close> receives the channel arrays of its single input; \<open>inputs[0][0]\<close>
  is undefined when no channel is connected. The result is the message posted on the
  port, if any, and the return value (\<open>true\<close>: keep the processor alive).
\<close>

definition pcm_process :: "jsnum list list \<Rightarrow> byte list option \<times> bool" where
  "pcm_process channels =
     (case channels of
        [] \<Rightarrow> (None, True)
      | input # _ \<Rightarrow> (Some (int16_buffer (pcm_frame input)), True))"

subsection \<open>Decoding: the loop of playAudioChunk\<close>

text \<open>
  \<open>DataView.getInt16(off, true)\<close> raises a RangeError when fewer than two bytes remain.
\<close>

definition dv_get_int16_le :: "byte list \<Rightarrow> nat \<Rightarrow> int option" where
  "dv_get_int16_le bs off =
     (if off + 2 \<le> length bs then Some (sint (le_word (bs ! off) (bs ! (off + 1)))) else None)"

definition pcm_value :: "int \<Rightarrow> rat" where
  "pcm_value v = of_int v / 32768"

text \<open>
  \<open>new Float32Array(byteLength / 2)\<close> has \<open>byteLength div 2\<close> elements (the length
  is truncated); element \<open>i\<close> is read at offset \<open>i * 2\<close>. A RangeError of any read
  would abort the whole loop, hence \<open>those\<close>.
\<close>

definition decode_pcm :: "byte list \<Rightarrow> rat list option" where
  "decode_pcm bs =
     those (map (\<lambda>i. map_option pcm_value (dv_get_int16_le bs (i * 2))) [0..<length bs div 2])"

text \<open>
  The decoding loop in its source shape: a counter \<open>i\<close>, the \<open>Float32Array\<close> of
  \<open>byteLength / 2\<close> zeros (the constructor truncates the length), and a flag that a
  \<open>getInt16\<close> threw, which ends the loop and the handler. \<open>decode_pcm\<close> is its
  reference: the values the loop stores, as a list.
\<close>

definition decode_cond :: "byte list \<Rightarrow> nat \<times> rat list \<times> bool \<Rightarrow> bool" where
  "decode_cond bs = (\<lambda>(i, arr, ok). ok \<and> i < length bs div 2)"

definition decode_body :: "byte list \<Rightarrow> nat \<times> rat list \<times> bool \<Rightarrow> nat \<times> rat list \<times> bool" where
  "decode_body bs =
     (\<lambda>(i, arr, ok). case dv_get_int16_le bs (i * 2) of
                      None \<Rightarrow> (i, arr, False)
                    | Some v \<Rightarrow> (Suc i, arr[i := pcm_value v], True))"

definition decode_start :: "byte list \<Rightarrow> nat \<times> rat list \<times> bool" where
  "decode_start bs = (0, replicate (length bs div 2) 0, True)"

definition decode_loop :: "byte list \<Rightarrow> rat list option" where
  "decode_loop bs =
     (case while_option (decode_cond bs) (decode_body bs) (decode_start bs) of
        None \<Rightarrow> None
      | Some (i, arr, ok) \<Rightarrow> if ok then Some arr else None)"

text \<open>The loop invariant: the values stored so far are the decoded samples.\<close>

definition decode_inv :: "byte list \<Rightarrow> nat \<times> rat list \<times> bool \<Rightarrow> bool" where
  "decode_inv bs = (\<lambda>(i, arr, ok). ok \<and> i \<le> length bs div 2 \<and> length arr = length bs div 2 \<and>
     (\<forall>j < i. arr ! j = pcm_value (sint (le_word (bs ! (2 * j)) (bs ! Suc (2 * j))))))"

declare clamp_sample_def [model_defs] pcm_sample_def [model_defs] pcm_frame_def [model_defs]
  int16_buffer_def [model_defs] pcm_process_def [model_defs] dv_get_int16_le_def [model_defs]
  pcm_value_def [model_defs] decode_pcm_def [model_defs]

subsection \<open>Lemmas\<close>

lemma fold_update_map:
  "n \<le> length buf \<Longrightarrow>
   fold (\<lambda>i buf. buf[i := f i]) [0..<n] buf = map f [0..<n] @ drop n buf"
proof (induction n)
  case 0
  then show ?case by simp
next
  case (Suc n)
  then have "n < length buf" by simp
  with Suc show ?case
    by (simp add: list_update_append Cons_nth_drop_Suc [symmetric])
qed

lemma pcm_frame_map: "pcm_frame input = map pcm_sample input"
proof -
  have "pcm_frame input = map (\<lambda>i. pcm_sample (input ! i)) [0..<length input]"
    unfolding pcm_frame_def by (simp add: fold_update_map)
  also have "\<dots> = map pcm_sample input"
    by (rule nth_equalityI) simp_all
  finally show ?thesis .
qed

lemma clamp_sample_Num: "clamp_sample (Num r) = Num (max (- 1) (min 1 r))"
  by (simp add: clamp_sample_def js_min_one_Num js_max_minus_one_Num)

lemma pcm_sample_Num:
  "pcm_sample (Num r) = word_of_int (js_trunc (max (- 1) (min 1 r) * 32767))"
  by (simp add: pcm_sample_def clamp_sample_Num)

lemma scaled_range:
  "\<bar>js_trunc (max (- 1) (min 1 r) * 32767)\<bar> \<le> 32767"
  by (rule js_trunc_bound) (simp add: abs_le_iff)

lemma sint_pcm_sample_Num:
  "sint (pcm_sample (Num r)) = js_trunc (max (- 1) (min 1 r) * 32767)"
  using scaled_range [of r] by (simp add: pcm_sample_Num sint16_of_int abs_le_iff)

lemma dv_get_int16_le_in_range:
  "i < length bs div 2 \<Longrightarrow>
   dv_get_int16_le bs (i * 2) = Some (sint (le_word (bs ! (2 * i)) (bs ! Suc (2 * i))))"
  by (simp add: dv_get_int16_le_def mult.commute)

lemma decode_pcm_eq:
  "decode_pcm bs =
     Some (map (\<lambda>i. pcm_value (sint (le_word (bs ! (2 * i)) (bs ! Suc (2 * i)))))
               [0..<length bs div 2])"
  unfolding decode_pcm_def
  by (rule those_map_cong) (simp add: dv_get_int16_le_in_range)

lemma int16_buffer_nth:
  assumes "i < length ws"
  shows "le_word (int16_buffer ws ! (2 * i)) (int16_buffer ws ! Suc (2 * i)) = ws ! i"
  using nth_concat_le_bytes [OF assms] by (simp add: int16_buffer_def le_word_le_bytes)

lemma pcm_value_range:
  "- 32768 \<le> v \<Longrightarrow> v < 32768 \<Longrightarrow> - 1 \<le> pcm_value v \<and> pcm_value v \<le> 32767 / 32768"
  by (simp add: pcm_value_def field_simps)

lemma length_int16_buffer [simp]: "length (int16_buffer ws) = 2 * length ws"
  by (simp add: int16_buffer_def)

text \<open>Decoding a value of the encoder's range and encoding it again, on integers.\<close>

lemma trunc_rescale:
  assumes "- 32768 \<le> v" "v \<le> 32767"
  shows "js_trunc (max (- 1) (min 1 (of_int v / 32768)) * 32767) = v - sgn v"
proof -
  have clamp: "max (- 1) (min 1 (of_int v / 32768 :: rat)) = of_int v / 32768"
    using assms by (simp add: max_def min_def field_simps)
  consider "0 < v" | "v = 0" | "v < 0" by linarith
  then show ?thesis
  proof cases
    case 1
    have "\<lfloor>of_int v / 32768 * 32767 :: rat\<rfloor> = v - 1"
      by (rule floor_unique) (use assms 1 in \<open>simp_all add: field_simps\<close>)
    with 1 clamp show ?thesis by simp
  next
    case 2
    then show ?thesis by simp
  next
    case 3
    have "\<lfloor>- (of_int v / 32768 * 32767) :: rat\<rfloor> = - v - 1"
      by (rule floor_unique) (use assms 3 in \<open>simp_all add: field_simps\<close>)
    with 3 clamp show ?thesis by (simp add: js_trunc_neg)
  qed
qed

lemma decode_body_inv:
  "decode_inv bs st \<Longrightarrow> decode_cond bs st \<Longrightarrow>
   decode_inv bs (decode_body bs st) \<and>
   (length bs div 2 - fst (decode_body bs st)) < (length bs div 2 - fst st)"
  by (cases st)
     (auto simp: decode_inv_def decode_cond_def decode_body_def dv_get_int16_le_in_range
                 nth_list_update less_Suc_eq)

subsection \<open>Properties of the codec\<close>

text \<open>
  (C1) Round trip on the wire: the bytes the capture worklet posts, decoded by the
  playback loop, give back exactly the 16-bit samples that were encoded, each divided by
  32768.
\<close>

theorem decode_pcm_int16_buffer:
  "decode_pcm (int16_buffer ws) = Some (map (\<lambda>w. pcm_value (sint w)) ws)"
proof -
  have len: "length (int16_buffer ws) div 2 = length ws"
    by simp
  show ?thesis
    by (simp add: decode_pcm_eq len)
       (rule nth_equalityI, simp_all add: int16_buffer_nth)
qed

text \<open>
  (C2) Encoding a decoded sample does not give it back, contrary to the round trip the
  specification states: decoding divides by 32768 and encoding multiplies by 32767 and
  truncates, so every non-zero sample moves one step towards zero.
\<close>

theorem pcm_sample_pcm_value:
  "sint (pcm_sample (Num (pcm_value (sint (w :: int16))))) = sint w - sgn (sint w)"
  using sint16_range [of w] trunc_rescale [of "sint w"]
  by (simp add: sint_pcm_sample_Num pcm_value_def)

text \<open>
  (C3) Quantisation: for a sample in [-1, 1], the decoded value of its encoding is no
  larger in magnitude than the sample, and differs from it by less than
  \<open>(1 + |x|) / 32768\<close>, so by less than \<open>2 / 32768\<close> (not \<open>1 / 32768\<close>).
\<close>

theorem pcm_quantisation_error:
  assumes "\<bar>r\<bar> \<le> 1"
  shows "\<bar>pcm_value (sint (pcm_sample (Num r)))\<bar> \<le> \<bar>r\<bar> \<and>
         \<bar>r - pcm_value (sint (pcm_sample (Num r)))\<bar> < (1 + \<bar>r\<bar>) / 32768"
proof -
  let ?t = "js_trunc (r * 32767)"
  have clamp: "max (- 1) (min 1 r) = r" using assms by (simp add: abs_le_iff)
  have val: "pcm_value (sint (pcm_sample (Num r))) = of_int ?t / 32768"
    by (simp add: sint_pcm_sample_Num clamp pcm_value_def)
  have le: "\<bar>of_int ?t\<bar> \<le> \<bar>r * 32767\<bar>" by (rule js_trunc_abs_le)
  have gt: "\<bar>r * 32767\<bar> - 1 < \<bar>of_int ?t\<bar>" by (rule js_trunc_abs_gt)
  define q where "q = (of_int ?t :: rat)"
  have sgn: "0 \<le> r \<Longrightarrow> 0 \<le> q" "r \<le> 0 \<Longrightarrow> q \<le> 0"
    using js_trunc_sgn [of "r * 32767"] unfolding q_def by simp_all
  have lo: "\<bar>r\<bar> * 32767 - 1 < \<bar>q\<bar>" and hi: "\<bar>q\<bar> \<le> \<bar>r\<bar> * 32767"
    using le gt unfolding q_def by (simp_all add: abs_mult)
  have "\<bar>q / 32768\<bar> \<le> \<bar>r\<bar>"
    using hi by (simp add: abs_le_iff field_simps)
  moreover have "\<bar>r - q / 32768\<bar> < (1 + \<bar>r\<bar>) / 32768"
  proof (cases "0 \<le> r")
    case True
    with lo hi sgn(1) show ?thesis by (simp add: abs_if field_simps)
  next
    case False
    then have r: "\<bar>r\<bar> = - r" and q: "\<bar>q\<bar> = - q"
      using sgn(2) by simp_all
    have "r - q / 32768 \<le> 0" and "q - r * 32768 < 1 - r"
      using lo hi False unfolding r q by (simp_all add: field_simps)
    then show ?thesis unfolding r by (simp add: field_simps)
  qed
  ultimately show ?thesis
    by (simp add: val q_def)
qed

theorem pcm_quantisation_error_witness:
  "\<bar>(1 / 2 :: rat)\<bar> \<le> 1 \<and>
   \<bar>pcm_value (sint (pcm_sample (Num (1 / 2))))\<bar> \<le> \<bar>1 / 2\<bar> \<and>
   \<bar>1 / 2 - pcm_value (sint (pcm_sample (Num (1 / 2))))\<bar> < (1 + \<bar>1 / 2\<bar>) / 32768"
  using pcm_quantisation_error [of "1 / 2"] by simp

text \<open>
  (C4) Range: whatever the input (finite, infinite or NaN), the encoded sample lies in
  [-32767, 32767]; the clamp runs before the conversion, so \<open>ToInt16\<close> never wraps
  and -32768 is never produced. NaN is encoded as silence, the infinities as full scale.
\<close>

theorem pcm_sample_range:
  "- 32767 \<le> sint (pcm_sample x) \<and> sint (pcm_sample x) \<le> 32767 \<and>
   pcm_sample NaN = 0 \<and> pcm_sample PosInf = 32767 \<and> pcm_sample NegInf = - 32767"
proof -
  have "- 32767 \<le> sint (pcm_sample x) \<and> sint (pcm_sample x) \<le> 32767"
  proof (cases x)
    case (Num r)
    then show ?thesis using scaled_range [of r] by (simp add: sint_pcm_sample_Num abs_le_iff)
  qed (simp_all add: model_defs)
  then show ?thesis by (simp add: model_defs)
qed

text \<open>
  (C5) Decoding never raises: every \<open>getInt16\<close> of the loop is in bounds, and a
  buffer of \<open>n\<close> bytes yields \<open>n div 2\<close> samples (an odd trailing byte is ignored),
  each in [-1, 32767/32768].
\<close>

theorem decode_pcm_total:
  "\<exists>ys. decode_pcm bs = Some ys \<and> length ys = length bs div 2 \<and>
        (\<forall>y \<in> set ys. - 1 \<le> y \<and> y \<le> 32767 / 32768)"
proof -
  have "- 1 \<le> pcm_value (sint w) \<and> pcm_value (sint w) \<le> 32767 / 32768" for w :: int16
    using sint16_range [of w] by (intro pcm_value_range) simp_all
  then show ?thesis
    by (auto simp: decode_pcm_eq)
qed

theorem decode_pcm_total_witness:
  "\<exists>ys. decode_pcm [1, 2, 3] = Some ys \<and> length ys = length [1, 2, 3 :: byte] div 2 \<and>
        (\<forall>y \<in> set ys. - 1 \<le> y \<and> y \<le> 32767 / 32768)"
  using decode_pcm_total [of "[1, 2, 3]"] by simp

text \<open>
  (C7) The capture loop is the map of \<open>pcm_sample\<close> over the input, and the posted message
  has two bytes per sample.
\<close>

theorem pcm_process_posts:
  "pcm_process (input # more) = (Some (int16_buffer (map pcm_sample input)), True) \<and>
   length (int16_buffer (pcm_frame input)) = 2 * length input \<and>
   pcm_process [] = (None, True)"
  by (simp add: pcm_process_def pcm_frame_map)

text \<open>
  The specification's bound of \<open>1 / 32768\<close> per sample fails for the encode-decode
  direction: at 0.9999 the error is above it.
\<close>

lemma quantisation_error_exceeds_spec:
  "\<bar>9999 / 10000 - pcm_value (sint (pcm_sample (Num (9999 / 10000))))\<bar> > 1 / 32768"
  by (simp add: sint_pcm_sample_Num pcm_value_def)

text \<open>(C38) The decoding loop of \<open>playAudioChunk\<close>, in its source shape, terminates on
  every buffer and stores exactly the values of the reference decoder \<open>decode_pcm\<close>:
  no \<open>getInt16\<close> of the loop throws.\<close>

theorem decode_loop_total:
  "(\<exists>st. while_option (decode_cond bs) (decode_body bs) (decode_start bs) = Some st) \<and>
   decode_loop bs = decode_pcm bs"
proof -
  have start: "decode_inv bs (decode_start bs)" by (simp add: decode_inv_def decode_start_def)
  obtain st where st: "while_option (decode_cond bs) (decode_body bs) (decode_start bs) = Some st"
    using measure_while_option_Some [where P = "decode_inv bs" and f = "\<lambda>st. length bs div 2 - fst st"]
          decode_body_inv start by blast
  have inv: "decode_inv bs st"
    using while_option_rule [where P = "decode_inv bs", OF _ st] decode_body_inv start by blast
  have stop: "\<not> decode_cond bs st" using while_option_stop [OF st] .
  obtain i arr ok where p: "st = (i, arr, ok)" by (cases st) blast
  from inv stop p have "ok" "i = length bs div 2" "length arr = length bs div 2"
    by (auto simp: decode_inv_def decode_cond_def)
  with inv p have "arr = map (\<lambda>i. pcm_value (sint (le_word (bs ! (2 * i)) (bs ! Suc (2 * i)))))
                              [0..<length bs div 2]"
    by (intro nth_equalityI) (auto simp: decode_inv_def)
  with st p \<open>ok\<close> have "decode_loop bs = decode_pcm bs" by (simp add: decode_loop_def decode_pcm_eq)
  with st show ?thesis by blast
qed


end
