(* ===== verification/Transcript.thy ===== *)
theory Transcript
  imports Prelude
begin

text \<open>
  TranscriptCorrelator: the text branch of \<open>ws.onmessage\<close> (src/src/App.jsx lines
  116-142, src/poc2.jsx lines 114-134), the pending-prompt ref \<open>lastPromptRef\<close>, the
  \<open>promptPairs\<close> and \<open>messages\<close> state, and the first-occurrence view \<open>result\<close>
  (App.jsx lines 220-228).

  React state is not updated in place: \<open>setX(f)\<close> queues \<open>f\<close> on the component, and
  the queue is applied in order at the next render. React evaluates an updater at once
  (its eager-state path) only when neither copy of the component's fiber has pending
  work (\<open>fiber.lanes\<close> and \<open>alternate.lanes\<close> in \<open>dispatchSetState\<close>). Scheduling an
  update marks the lanes of both copies, and a render clears them only on the copy it
  renders, so once an update has been rendered the other copy keeps them: the eager
  path is taken for the component's first update at most, and every later updater runs
  at the next render. The model records this as \<open>scheduled\<close>. A first update that
  sets a hook to the value it already holds, which React drops without scheduling, is
  counted as scheduling.
  The updater of \<open>setPromptPairs\<close> reads \<open>lastPromptRef.current\<close> when it runs,
  and the handler sets the ref to \<open>null\<close> right after queueing it, so the pair gets the
  prompt only if the updater ran eagerly. The model keeps the queue (\<open>pending\<close>) and
  the two kinds of pair updates apart.
\<close>

subsection \<open>Data\<close>

record prompt_pair =
  prompt :: "string option"
  response :: string

text \<open>
  A decoded inbound text message: \<open>JSON.parse\<close> failed, returned \<open>null\<close> (then
  \<open>obj.message\<close> raises a TypeError inside the \<open>try\<close>), or returned a value whose
  string-valued fields \<open>message\<close>, \<open>prompt.prompt\<close> and \<open>content\<close> are recorded.
  The model covers messages whose fields are strings or absent: a field of another JSON
  type is recorded as absent, which agrees with the code for \<open>message\<close> (compared with
  \<open>===\<close> to strings) but not for a truthy non-string prompt or content, which the code
  would store and pair.
\<close>

record json_msg =
  msg_tag :: "string option"
  prompt_field :: "string option"
  content_field :: "string option"

datatype parsed = ParseError | JsonNull | JsonValue json_msg

datatype log_entry = LogText string | LogBinary "byte list"

text \<open>
  The updates the component queues on its hooks. \<open>PushPairFromRef r\<close> is the
  \<open>setPromptPairs\<close> updater before it has run: it reads the ref when applied.
  \<open>OtherHook\<close> is an update of a hook outside the transcript (the token, the playback
  speed, the recording feature): it only makes the component busy.
\<close>

datatype hook_update =
    PushMessage log_entry
  | ClearMessages
  | PushPair prompt_pair
  | PushPairFromRef string
  | SetSpeed rat
  | SetToken string
  | OtherHook

record transcript =
  last_prompt :: "string option"
  prompt_pairs :: "prompt_pair list"
  messages :: "log_entry list"
  pending :: "hook_update list"
  scheduled :: bool

definition transcript_init :: transcript where
  "transcript_init =
     \<lparr>last_prompt = None, prompt_pairs = [], messages = [], pending = [], scheduled = False\<rparr>"

subsection \<open>React's update queue\<close>

text \<open>Evaluating an updater now: only the pair updater reads anything.\<close>

fun eager_update :: "'a transcript_scheme \<Rightarrow> hook_update \<Rightarrow> hook_update" where
  "eager_update t (PushPairFromRef r) = PushPair \<lparr>prompt = last_prompt t, response = r\<rparr>"
| "eager_update t u = u"

definition set_state :: "hook_update \<Rightarrow> 'a transcript_scheme \<Rightarrow> 'a transcript_scheme" where
  "set_state u t =
     (if pending t = [] \<and> \<not> scheduled t then t\<lparr>pending := [eager_update t u], scheduled := True\<rparr>
      else t\<lparr>pending := pending t @ [u], scheduled := True\<rparr>)"

fun apply_update :: "hook_update \<Rightarrow> 'a transcript_scheme \<Rightarrow> 'a transcript_scheme" where
  "apply_update (PushMessage e) t = t\<lparr>messages := messages t @ [e]\<rparr>"
| "apply_update ClearMessages t = t\<lparr>messages := []\<rparr>"
| "apply_update (PushPair p) t = t\<lparr>prompt_pairs := prompt_pairs t @ [p]\<rparr>"
| "apply_update (PushPairFromRef r) t =
     t\<lparr>prompt_pairs := prompt_pairs t @ [\<lparr>prompt = last_prompt t, response = r\<rparr>]\<rparr>"
| "apply_update _ t = t"

definition render_transcript :: "'a transcript_scheme \<Rightarrow> 'a transcript_scheme" where
  "render_transcript t = (fold apply_update (pending t) t)\<lparr>pending := []\<rparr>"

subsection \<open>The text branch of onmessage\<close>

text \<open>\<open>v || ""\<close> on a string-valued field, and the truthiness test of the ref.\<close>

definition js_str :: "string option \<Rightarrow> string" where
  "js_str v = (case v of Some s \<Rightarrow> s | None \<Rightarrow> [])"

definition truthy :: "string option \<Rightarrow> bool" where
  "truthy v \<longleftrightarrow> v \<noteq> None \<and> v \<noteq> Some []"

text \<open>App.jsx lines 116-142: two separate tests, then the log entry.\<close>

definition on_text_app :: "string \<Rightarrow> parsed \<Rightarrow> 'a transcript_scheme \<Rightarrow> 'a transcript_scheme" where
  "on_text_app raw p t =
     (case p of
        JsonValue obj \<Rightarrow>
          (let t1 = (if msg_tag obj = Some ''prompt''
                     then t\<lparr>last_prompt := Some (js_str (prompt_field obj))\<rparr> else t);
               t2 = (if msg_tag obj = Some ''ResponseCompleted''
                     then (if truthy (last_prompt t1)
                           then (set_state (PushPairFromRef (js_str (content_field obj))) t1)
                                  \<lparr>last_prompt := None\<rparr>
                           else t1)
                     else t1)
           in set_state (PushMessage (LogText raw)) t2)
      | _ \<Rightarrow> t)"

text \<open>poc2.jsx lines 114-134: the response test and the ref test in one condition.\<close>

definition on_text_poc2 :: "string \<Rightarrow> parsed \<Rightarrow> 'a transcript_scheme \<Rightarrow> 'a transcript_scheme" where
  "on_text_poc2 raw p t =
     (case p of
        JsonValue obj \<Rightarrow>
          (let t1 = (if msg_tag obj = Some ''prompt''
                     then t\<lparr>last_prompt := Some (js_str (prompt_field obj))\<rparr> else t);
               t2 = (if msg_tag obj = Some ''ResponseCompleted'' \<and> truthy (last_prompt t1)
                     then (set_state (PushPairFromRef (js_str (content_field obj))) t1)
                            \<lparr>last_prompt := None\<rparr>
                     else t1)
           in set_state (PushMessage (LogText raw)) t2)
      | _ \<Rightarrow> t)"

subsection \<open>The first-occurrence view\<close>

text \<open>
  App.jsx lines 220-228: a \<open>Set\<close> of the prompts seen so far (\<open>null\<close> is a member
  like any other value); a repeated prompt is shown as the empty string.
\<close>

fun dedup_pairs :: "string option list \<Rightarrow> prompt_pair list \<Rightarrow> prompt_pair list" where
  "dedup_pairs seen [] = []"
| "dedup_pairs seen (p # ps) =
     (if prompt p \<in> set seen
      then \<lparr>prompt = Some [], response = response p\<rparr> # dedup_pairs seen ps
      else p # dedup_pairs (prompt p # seen) ps)"

definition display_pairs :: "prompt_pair list \<Rightarrow> prompt_pair list" where
  "display_pairs ps = dedup_pairs [] ps"

declare transcript_init_def [model_defs] set_state_def [model_defs]
  render_transcript_def [model_defs] js_str_def [model_defs] truthy_def [model_defs]
  on_text_app_def [model_defs] on_text_poc2_def [model_defs] display_pairs_def [model_defs]

subsection \<open>The correlator's contract\<close>

text \<open>
  The specification's single-slot correlator (section 4.5), over the events the text
  messages carry: a prompt announcement overwrites the slot, a completed response with a
  prompt in the slot emits the pair and empties the slot, and without one it is dropped.
\<close>

datatype tevent = EvPrompt string | EvResponse string | EvOther

definition tevent_of :: "json_msg \<Rightarrow> tevent" where
  "tevent_of obj =
     (if msg_tag obj = Some ''prompt'' then EvPrompt (js_str (prompt_field obj))
      else if msg_tag obj = Some ''ResponseCompleted'' then EvResponse (js_str (content_field obj))
      else EvOther)"

fun events_of :: "(string \<times> parsed) list \<Rightarrow> tevent list" where
  "events_of [] = []"
| "events_of ((raw, JsonValue obj) # ms) = tevent_of obj # events_of ms"
| "events_of (_ # ms) = events_of ms"

fun correlate :: "string option \<Rightarrow> tevent list \<Rightarrow> (string \<times> string) list" where
  "correlate slot [] = []"
| "correlate slot (EvPrompt p # es) = correlate (Some p) es"
| "correlate slot (EvResponse r # es) =
     (case slot of Some p \<Rightarrow> (p, r) # correlate None es | None \<Rightarrow> correlate None es)"
| "correlate slot (EvOther # es) = correlate slot es"

text \<open>
  A run in which the component re-renders after every message (the messages arrive
  further apart than a render).
\<close>

definition run_rendered :: "(string \<times> parsed) list \<Rightarrow> 'a transcript_scheme \<Rightarrow> 'a transcript_scheme" where
  "run_rendered ms t = fold (\<lambda>(raw, p) t. render_transcript (on_text_app raw p t)) ms t"

text \<open>What a queued update does to the log and to the pairs, given the ref's value.\<close>

fun msg_effect :: "hook_update \<Rightarrow> log_entry list \<Rightarrow> log_entry list" where
  "msg_effect (PushMessage e) ms = ms @ [e]"
| "msg_effect ClearMessages ms = []"
| "msg_effect _ ms = ms"

fun pair_effect :: "string option \<Rightarrow> hook_update \<Rightarrow> prompt_pair list \<Rightarrow> prompt_pair list" where
  "pair_effect ref (PushPair p) ps = ps @ [p]"
| "pair_effect ref (PushPairFromRef r) ps = ps @ [\<lparr>prompt = ref, response = r\<rparr>]"
| "pair_effect ref _ ps = ps"

abbreviation prompt_msg :: "string \<Rightarrow> parsed" where
  "prompt_msg s \<equiv> JsonValue \<lparr>msg_tag = Some ''prompt'', prompt_field = Some s, content_field = None\<rparr>"

abbreviation response_msg :: "string \<Rightarrow> parsed" where
  "response_msg s \<equiv>
     JsonValue \<lparr>msg_tag = Some ''ResponseCompleted'', prompt_field = None, content_field = Some s\<rparr>"

declare tevent_of_def [model_defs] run_rendered_def [model_defs]

subsection \<open>Lemmas\<close>

lemma apply_update_frame [simp]:
  "last_prompt (apply_update u t) = last_prompt t"
  "pending (apply_update u t) = pending t"
  "scheduled (apply_update u t) = scheduled t"
  by (cases u; simp)+

lemma fold_apply_update_frame [simp]:
  "last_prompt (fold apply_update us t) = last_prompt t"
  "pending (fold apply_update us t) = pending t"
  "scheduled (fold apply_update us t) = scheduled t"
  by (induction us arbitrary: t) simp_all

lemma fold_apply_update_fields [simp]:
  "messages (fold apply_update us t) = fold msg_effect us (messages t)"
  "prompt_pairs (fold apply_update us t) = fold (pair_effect (last_prompt t)) us (prompt_pairs t)"
proof (induction us arbitrary: t)
  case Nil
  { case 1 show ?case by simp }
  { case 2 show ?case by simp }
next
  case (Cons u us)
  { case 1 show ?case by (cases u) (simp_all add: Cons.IH(1)) }
  { case 2 show ?case by (cases u) (simp_all add: Cons.IH(2)) }
qed

lemma render_idle [simp]: "pending t = [] \<Longrightarrow> render_transcript t = t"
  by (simp add: render_transcript_def)

lemma pending_set_state [simp]: "pending (set_state u t) \<noteq> []"
  by (simp add: set_state_def)

lemma scheduled_set_state [simp]: "scheduled (set_state u t) = True"
  by (simp add: set_state_def)

text \<open>
  One message, handled when the component has no queued update, then a render. The
  pair keeps its prompt only when its updater is the component's first update.
\<close>

lemma on_text_idle:
  assumes "pending t = []"
  shows "render_transcript (on_text_app raw (JsonValue obj) t) =
    (case tevent_of obj of
       EvPrompt p \<Rightarrow> t\<lparr>last_prompt := Some p, messages := messages t @ [LogText raw], scheduled := True\<rparr>
     | EvResponse r \<Rightarrow>
         (if truthy (last_prompt t)
          then t\<lparr>last_prompt := None,
                 prompt_pairs := prompt_pairs t @
                   [\<lparr>prompt = (if scheduled t then None else last_prompt t), response = r\<rparr>],
                 messages := messages t @ [LogText raw], scheduled := True\<rparr>
          else t\<lparr>messages := messages t @ [LogText raw], scheduled := True\<rparr>)
     | EvOther \<Rightarrow> t\<lparr>messages := messages t @ [LogText raw], scheduled := True\<rparr>)"
  using assms
  by (simp add: on_text_app_def tevent_of_def set_state_def render_transcript_def Let_def)

text \<open>The handler of App.jsx and that of poc2.jsx, which tests the response tag and the
  ref in one condition, compute the same update.\<close>

lemma on_text_versions_agree: "on_text_app raw p t = on_text_poc2 raw p t"
  by (simp add: on_text_app_def on_text_poc2_def Let_def split: parsed.split)

lemma dedup_pairs_nth:
  "dedup_pairs seen ps =
     map (\<lambda>i. if prompt (ps ! i) \<in> set seen \<union> prompt ` set (take i ps)
               then \<lparr>prompt = Some [], response = response (ps ! i)\<rparr> else ps ! i)
         [0..<length ps]"
proof (induction ps arbitrary: seen)
  case Nil
  then show ?case by simp
next
  case (Cons p ps)
  show ?case
    by (simp add: Cons.IH map_upt_Suc del: upt_Suc)
qed

lemma display_pairs_spec_example:
  "display_pairs [\<lparr>prompt = Some ''A'', response = ''R1''\<rparr>, \<lparr>prompt = Some ''B'', response = ''R2''\<rparr>,
                  \<lparr>prompt = Some ''A'', response = ''R3''\<rparr>] =
   [\<lparr>prompt = Some ''A'', response = ''R1''\<rparr>, \<lparr>prompt = Some ''B'', response = ''R2''\<rparr>,
    \<lparr>prompt = Some [], response = ''R3''\<rparr>]"
  by (simp add: display_pairs_def)

subsection \<open>Properties of the correlator\<close>

text \<open>
  (C8) Refinement up to the prompt: once the component has scheduled an update (as
  it has after the token is typed), every updater runs at the next render. When the
  component re-renders after every message, the pairs the code appends are those of
  the specification's single-slot correlator, started from the ref's value, in number,
  order and response, provided no prompt announcement has empty text; but every one
  of them has lost its prompt, because the \<open>setPromptPairs\<close> updater reads
  \<open>lastPromptRef\<close> after the handler has set it to \<open>null\<close>.
\<close>

theorem run_rendered_loses_prompts:
  assumes "pending t = []" and "scheduled t" and "last_prompt t \<noteq> Some []"
    and "EvPrompt [] \<notin> set (events_of ms)"
  shows "prompt_pairs (run_rendered ms t) =
           prompt_pairs t @ map (\<lambda>(p, r). \<lparr>prompt = None, response = r\<rparr>)
                                (correlate (last_prompt t) (events_of ms))"
  using assms
proof (induction ms arbitrary: t)
  case Nil
  then show ?case by (simp add: run_rendered_def)
next
  case (Cons m ms)
  obtain raw p where m: "m = (raw, p)" by fastforce
  show ?case
  proof (cases p)
    case (JsonValue obj)
    let ?t' = "render_transcript (on_text_app raw (JsonValue obj) t)"
    have idle: "pending ?t' = []" "scheduled ?t'"
      using Cons.prems(1) by (simp_all add: on_text_idle split: tevent.split)
    have step: "run_rendered ((raw, JsonValue obj) # ms) t = run_rendered ms ?t'"
      by (simp add: run_rendered_def)
    show ?thesis
    proof (cases "tevent_of obj")
      case (EvPrompt q)
      with Cons.prems JsonValue m have "q \<noteq> []" by auto
      with EvPrompt Cons.prems Cons.IH [of ?t'] idle JsonValue m show ?thesis
        by (simp add: step on_text_idle)
    next
      case (EvResponse r)
      with Cons.prems Cons.IH [of ?t'] idle JsonValue m show ?thesis
        by (cases "last_prompt t") (auto simp: step on_text_idle truthy_def)
    next
      case EvOther
      with Cons.prems Cons.IH [of ?t'] idle JsonValue m show ?thesis
        by (simp add: step on_text_idle)
    qed
  qed (use Cons in \<open>simp_all add: m run_rendered_def on_text_app_def\<close>)
qed

text \<open>The specification's example: prompts A and B, then response R, give one pair (B, R); the
  code, once it has scheduled an update, shows R with no prompt.\<close>

theorem run_rendered_loses_prompts_witness:
  "prompt_pairs (run_rendered [(''a'', prompt_msg ''A''), (''b'', prompt_msg ''B''),
                               (''r'', response_msg ''R'')] (transcript_init\<lparr>scheduled := True\<rparr>))
   = [\<lparr>prompt = None, response = ''R''\<rparr>]"
  using run_rendered_loses_prompts [of "transcript_init\<lparr>scheduled := True\<rparr>"
          "[(''a'', prompt_msg ''A''), (''b'', prompt_msg ''B''), (''r'', response_msg ''R'')]"]
  by (simp add: transcript_init_def tevent_of_def js_str_def)

text \<open>
  (C9) Race between the handler and React's queue: if the component has not re-rendered
  since an earlier update, a completed response with a prompt in the ref queues a
  deferred updater, the handler empties the ref, and at the next render the new pair is
  appended with no prompt at all. This holds whether or not the component has scheduled
  an update before; C8 shows that after the first update the prompt is lost even when
  the component renders between messages.
\<close>

theorem deferred_pair_loses_prompt:
  assumes "pending t \<noteq> []" and "msg_tag obj = Some ''ResponseCompleted''"
    and "truthy (last_prompt t)"
  shows "\<exists>ps. prompt_pairs (render_transcript (on_text_app raw (JsonValue obj) t)) =
               ps @ [\<lparr>prompt = None, response = js_str (content_field obj)\<rparr>]"
  using assms
  by (simp add: on_text_app_def set_state_def render_transcript_def Let_def)

theorem deferred_pair_loses_prompt_witness:
  "pending (transcript_init\<lparr>last_prompt := Some ''A'', pending := [PushMessage (LogText ''a'')]\<rparr>)
     \<noteq> [] \<and>
   msg_tag \<lparr>msg_tag = Some ''ResponseCompleted'', prompt_field = None, content_field = Some ''R''\<rparr>
     = Some ''ResponseCompleted'' \<and>
   truthy (last_prompt
     (transcript_init\<lparr>last_prompt := Some ''A'', pending := [PushMessage (LogText ''a'')]\<rparr>)) \<and>
   prompt_pairs (render_transcript (on_text_app ''r'' (response_msg ''R'')
     (transcript_init\<lparr>last_prompt := Some ''A'', pending := [PushMessage (LogText ''a'')]\<rparr>)))
   = [\<lparr>prompt = None, response = ''R''\<rparr>]"
proof -
  let ?t = "transcript_init\<lparr>last_prompt := Some ''A'', pending := [PushMessage (LogText ''a'')]\<rparr>"
  let ?obj = "\<lparr>msg_tag = Some ''ResponseCompleted'', prompt_field = None, content_field = Some ''R''\<rparr>"
  obtain ps where "prompt_pairs (render_transcript (on_text_app ''r'' (JsonValue ?obj) ?t)) =
                     ps @ [\<lparr>prompt = None, response = js_str (content_field ?obj)\<rparr>]"
    using deferred_pair_loses_prompt [of ?t ?obj "''r''"] by (auto simp: truthy_def)
  moreover have "length (prompt_pairs (render_transcript (on_text_app ''r'' (JsonValue ?obj) ?t))) = 1"
    by (simp add: model_defs)
  ultimately show ?thesis by (simp add: js_str_def truthy_def)
qed

text \<open>
  (C10) A completed response while the ref holds no truthy prompt (none, or the empty
  text of a prompt announcement without one) is dropped: after the render only the log
  has grown, and the ref is left as it was.
\<close>

theorem dangling_response_dropped:
  assumes "pending t = []" and "tevent_of obj = EvResponse r" and "\<not> truthy (last_prompt t)"
  shows "render_transcript (on_text_app raw (JsonValue obj) t) =
           t\<lparr>messages := messages t @ [LogText raw], scheduled := True\<rparr>"
  using assms by (simp add: on_text_idle)

theorem dangling_response_dropped_witness:
  "pending transcript_init = [] \<and>
   tevent_of \<lparr>msg_tag = Some ''ResponseCompleted'', prompt_field = None, content_field = Some ''R''\<rparr>
     = EvResponse ''R'' \<and>
   \<not> truthy (last_prompt transcript_init) \<and>
   render_transcript (on_text_app ''r'' (response_msg ''R'') transcript_init) =
     transcript_init\<lparr>messages := [LogText ''r''], scheduled := True\<rparr>"
  using dangling_response_dropped [of transcript_init
          "\<lparr>msg_tag = Some ''ResponseCompleted'', prompt_field = None, content_field = Some ''R''\<rparr>"
          "''R''" "''r''"]
  by (simp add: transcript_init_def tevent_of_def js_str_def truthy_def)

text \<open>
  (C11) The displayed pairs: the \<open>i\<close>-th displayed pair is the \<open>i\<close>-th pair of the
  log, except that its prompt is shown as the empty string when the same prompt occurs
  in an earlier pair. The log itself is not changed.
\<close>

theorem display_pairs_first_occurrence:
  "display_pairs ps =
     map (\<lambda>i. if prompt (ps ! i) \<in> prompt ` set (take i ps)
               then \<lparr>prompt = Some [], response = response (ps ! i)\<rparr> else ps ! i)
         [0..<length ps]"
  by (simp add: display_pairs_def dedup_pairs_nth)

text \<open>
  (C13) Logging: after the next render, a text message that parses to a JSON value has
  been appended to the message log, whatever else it did, and one that does not parse,
  or parses to \<open>null\<close>, has left the log unchanged.
\<close>

theorem on_text_logs:
  "messages (render_transcript (on_text_app raw p t)) =
     messages (render_transcript t) @ (case p of JsonValue obj \<Rightarrow> [LogText raw] | _ \<Rightarrow> [])"
proof (cases p)
  case (JsonValue obj)
  then show ?thesis
    by (cases "pending t = []"; cases "scheduled t")
       (simp_all add: on_text_app_def set_state_def render_transcript_def Let_def)
qed (simp_all add: on_text_app_def)

end
