(* ===== verification/Rendering.thy ===== *)
theory Rendering
  imports Transcript "HOL-Library.Sublist"
begin

text \<open>
  What the component displays (src/src/App.jsx lines 383-443, poc2.jsx lines 283-311): for each entry of the
  first-occurrence view \<open>result\<close>, the prompt, if it is a non-empty string, with its
  \<open><s1>\<close> tags removed (\<open>replace(/<\/?s1>/gi, '')\<close>), and the response with every
  speaker tag removed (\<open>replace(/<\s*\/?\s*s\d+\s*>/gi, '')\<close>); and the message log,
  one line per entry, a binary entry shown as its first bytes in decimal (lines
  148-151, shown at 441-443); poc2.jsx's table of raw pairs. Each regular expression is a matcher giving the length of the match at the
  head of a string; both are deterministic (the classes of consecutive parts are
  disjoint, so greedy matching finds the only match), and a global \<open>replace\<close> scans
  left to right, deleting each match and keeping every other character.
\<close>

subsection \<open>Matchers\<close>

text \<open>\<open>/<\/?s1>/i\<close>: \<open><s1>\<close> or \<open></s1>\<close>, the letter in either case.\<close>

definition s1_tag :: "string \<Rightarrow> nat option" where
  "s1_tag s =
     (if take 4 s \<in> {''<s1>'', ''<S1>''} then Some 4
      else if take 5 s \<in> {''</s1>'', ''</S1>''} then Some 5 else None)"

definition js_digit :: "char \<Rightarrow> bool" where
  "js_digit c \<longleftrightarrow> c \<in> set ''0123456789''"

text \<open>\<open>/<\s*\/?\s*s\d+\s*>/i\<close>.\<close>

definition speaker_tag :: "string \<Rightarrow> nat option" where
  "speaker_tag s =
     (case s of
        c # r \<Rightarrow>
          if c \<noteq> CHR ''<'' then None
          else
            (let r1 = dropWhile js_space r;
                 r2 = (case r1 of d # r' \<Rightarrow> if d = CHR ''/'' then r' else r1 | [] \<Rightarrow> r1);
                 r3 = dropWhile js_space r2
             in case r3 of
                  e # r4 \<Rightarrow>
                    if e \<in> {CHR ''s'', CHR ''S''} \<and> r4 \<noteq> [] \<and> js_digit (hd r4)
                    then (case dropWhile js_space (dropWhile js_digit r4) of
                            g # r5 \<Rightarrow> if g = CHR ''>'' then Some (length s - length r5) else None
                          | [] \<Rightarrow> None)
                    else None
                | [] \<Rightarrow> None)
      | [] \<Rightarrow> None)"

text \<open>
  The languages of the two regular expressions, written from their syntax: the flag
  \<open>i\<close> admits either case of the letter, \<open>\s*\<close> any run of white space,
  \<open>\/?\<close> an optional slash and \<open>\d+\<close> a non-empty run of digits.
\<close>

definition s1_tag_lang :: "string set" where
  "s1_tag_lang = {''<s1>'', ''<S1>'', ''</s1>'', ''</S1>''}"

definition speaker_tag_lang :: "string set" where
  "speaker_tag_lang =
     {CHR ''<'' # a @ sl @ b @ c # ds @ e @ ''>'' | a sl b c ds e.
        (\<forall>x \<in> set a. js_space x) \<and> sl \<in> {[], ''/''} \<and> (\<forall>x \<in> set b. js_space x) \<and>
        c \<in> {CHR ''s'', CHR ''S''} \<and> ds \<noteq> [] \<and> (\<forall>x \<in> set ds. js_digit x) \<and>
        (\<forall>x \<in> set e. js_space x)}"

subsection \<open>Global replacement by the empty string\<close>

function strip_tags :: "(string \<Rightarrow> nat option) \<Rightarrow> string \<Rightarrow> string" where
  "strip_tags m [] = []"
| "strip_tags m (c # cs) =
     (case m (c # cs) of
        Some n \<Rightarrow> if 0 < n then strip_tags m (drop n (c # cs)) else c # strip_tags m cs
      | None \<Rightarrow> c # strip_tags m cs)"
  by pat_completeness auto
termination
  by (relation "measure (\<lambda>(m, s). length s)") auto

subsection \<open>The views\<close>

definition shown_pair :: "prompt_pair \<Rightarrow> string option \<times> string" where
  "shown_pair p =
     ((case prompt p of Some q \<Rightarrow> if q = [] then None else Some (strip_tags s1_tag q) | None \<Rightarrow> None),
      strip_tags speaker_tag (response p))"

definition chat_view :: "prompt_pair list \<Rightarrow> (string option \<times> string) list" where
  "chat_view ps = map shown_pair (display_pairs ps)"

text \<open>
  poc2.jsx shows the pairs as the rows of a table (lines 283-288): every pair, in
  order, its prompt and response as they are, with no de-duplication and no tag
  removal; a \<open>null\<close> prompt renders as nothing.
\<close>

definition chat_row_poc2 :: "prompt_pair \<Rightarrow> string \<times> string" where
  "chat_row_poc2 p = ((case prompt p of None \<Rightarrow> [] | Some q \<Rightarrow> q), response p)"

definition chat_view_poc2 :: "prompt_pair list \<Rightarrow> (string \<times> string) list" where
  "chat_view_poc2 ps = map chat_row_poc2 ps"

text \<open>Decimal digits of a number, as \<open>Array.prototype.join\<close> prints a byte.\<close>

function dec_string :: "nat \<Rightarrow> string" where
  "dec_string n =
     (if n < 10 then [''0123456789'' ! n] else dec_string (n div 10) @ [''0123456789'' ! (n mod 10)])"
  by pat_completeness auto
termination
  by (relation "measure id") auto

fun js_join :: "string \<Rightarrow> string list \<Rightarrow> string" where
  "js_join sep [] = []"
| "js_join sep [x] = x"
| "js_join sep (x # xs) = x @ sep @ js_join sep xs"

definition log_line :: "log_entry \<Rightarrow> string" where
  "log_line e =
     (case e of
        LogText raw \<Rightarrow> raw
      | LogBinary bs \<Rightarrow>
          ''[Binary message received] First bytes: '' @ js_join '', '' (map (\<lambda>b. dec_string (unat b)) bs))"

definition log_view :: "log_entry list \<Rightarrow> string list" where
  "log_view msgs = map log_line msgs"

declare dec_string.simps [simp del]

lemma strip_tags_id:
  "(\<forall>t. suffix t s \<longrightarrow> t \<noteq> [] \<longrightarrow> m t = None) \<Longrightarrow> strip_tags m s = s"
proof (induction s)
  case Nil
  then show ?case by simp
next
  case (Cons c cs)
  then have "m (c # cs) = None" by simp
  moreover have "\<forall>t. suffix t cs \<longrightarrow> t \<noteq> [] \<longrightarrow> m t = None"
    using Cons.prems by (auto intro: suffix_ConsI)
  ultimately show ?case using Cons.IH by simp
qed

lemma s1_tag_head: "s1_tag t = Some n \<Longrightarrow> t \<noteq> [] \<and> hd t = CHR ''<''"
  by (cases t) (auto simp: s1_tag_def split: if_splits)

lemma speaker_tag_head: "speaker_tag t = Some n \<Longrightarrow> t \<noteq> [] \<and> hd t = CHR ''<''"
  by (cases t) (auto simp: speaker_tag_def split: if_splits)

lemma no_open_no_match:
  assumes "CHR ''<'' \<notin> set s" and "\<And>t n. m t = Some n \<Longrightarrow> t \<noteq> [] \<and> hd t = CHR ''<''"
  shows "strip_tags m s = s"
proof (rule strip_tags_id, intro allI impI)
  fix t assume "suffix t s" "t \<noteq> []"
  then have "hd t \<in> set s" by (auto simp: suffix_def)
  with assms(1) have "hd t \<noteq> CHR ''<''" by auto
  with assms(2) show "m t = None" by (cases "m t") auto
qed

lemma drop_spaces:
  "(\<forall>x \<in> set a. js_space x) \<Longrightarrow> \<not> js_space y \<Longrightarrow> dropWhile js_space (a @ y # r) = y # r"
  by (simp add: dropWhile_append2)

lemma drop_digits:
  "(\<forall>x \<in> set ds. js_digit x) \<Longrightarrow> (\<forall>x \<in> set e. js_space x) \<Longrightarrow>
     dropWhile js_digit (ds @ e @ CHR ''>'' # u) = e @ CHR ''>'' # u"
  by (cases e) (auto simp: dropWhile_append2 js_space_def js_digit_def)

lemma speaker_tag_complete:
  assumes "t \<in> speaker_tag_lang"
  shows "speaker_tag (t @ u) = Some (length t)"
proof -
  from assms[unfolded speaker_tag_lang_def mem_Collect_eq]
  obtain a sl b c ds e where t: "t = CHR ''<'' # a @ sl @ b @ c # ds @ e @ ''>''"
    and a: "\<forall>x \<in> set a. js_space x" and sl: "sl \<in> {[], ''/''}" and b: "\<forall>x \<in> set b. js_space x"
    and c: "c \<in> {CHR ''s'', CHR ''S''}" and ds: "ds \<noteq> []" "\<forall>x \<in> set ds. js_digit x"
    and e: "\<forall>x \<in> set e. js_space x"
    by blast
  let ?r4 = "ds @ e @ CHR ''>'' # u"
  have nc: "\<not> js_space c" "c \<noteq> CHR ''/''" using c by (auto simp: js_space_def)
  have r1: "dropWhile js_space (a @ sl @ b @ c # ?r4) =
              (if sl = [] then c # ?r4 else CHR ''/'' # b @ c # ?r4)"
  proof (cases "sl = []")
    case True
    then show ?thesis using a b nc by (simp add: drop_spaces dropWhile_append2)
  next
    case False
    with sl have "sl = ''/''" by simp
    then show ?thesis using a by (simp add: drop_spaces js_space_def)
  qed
  have r3: "dropWhile js_space (if sl = [] then c # ?r4 else b @ c # ?r4) = c # ?r4"
    using b nc by (simp add: drop_spaces)
  have "hd ?r4 \<in> set ds" using ds(1) by (cases ds) simp_all
  with ds have hd: "?r4 \<noteq> [] \<and> js_digit (hd ?r4)" by auto
  have "dropWhile js_digit ?r4 = e @ CHR ''>'' # u"
    using ds(2) e by (rule drop_digits)
  moreover have "dropWhile js_space (e @ CHR ''>'' # u) = CHR ''>'' # u"
    using e by (rule drop_spaces) (simp add: js_space_def)
  ultimately have r5: "dropWhile js_space (dropWhile js_digit ?r4) = CHR ''>'' # u" by simp
  show ?thesis
    using r1 r3 hd c r5 nc by (auto simp: speaker_tag_def t Let_def split: if_splits)
qed


lemma speaker_tag_sound:
  assumes m: "speaker_tag s = Some n"
  shows "n \<le> length s \<and> take n s \<in> speaker_tag_lang"
proof -
  obtain r where s: "s = CHR ''<'' # r"
    using m by (cases s) (auto simp: speaker_tag_def split: if_splits)
  define r1 where "r1 = dropWhile js_space r"
  define sl where "sl = (if r1 \<noteq> [] \<and> hd r1 = CHR ''/'' then ''/'' else [])"
  define r2 where "r2 = drop (length sl) r1"
  define r3 where "r3 = dropWhile js_space r2"
  have r2': "(case r1 of d # r' \<Rightarrow> if d = CHR ''/'' then r' else r1 | [] \<Rightarrow> r1) = r2"
    by (cases r1) (simp_all add: r2_def sl_def)
  have r1_eq: "r1 = sl @ r2" by (cases r1) (auto simp: sl_def r2_def)
  have m3: "(case r3 of
               e # r4 \<Rightarrow>
                 if e \<in> {CHR ''s'', CHR ''S''} \<and> r4 \<noteq> [] \<and> js_digit (hd r4)
                 then (case dropWhile js_space (dropWhile js_digit r4) of
                         g # r5 \<Rightarrow> if g = CHR ''>'' then Some (length s - length r5) else None
                       | [] \<Rightarrow> None)
                 else None
             | [] \<Rightarrow> None) = Some n"
  proof -
    have "(if CHR ''<'' \<noteq> CHR ''<'' then None else
            (case r3 of
               e # r4 \<Rightarrow>
                 if e \<in> {CHR ''s'', CHR ''S''} \<and> r4 \<noteq> [] \<and> js_digit (hd r4)
                 then (case dropWhile js_space (dropWhile js_digit r4) of
                         g # r5 \<Rightarrow> if g = CHR ''>'' then Some (length s - length r5) else None
                       | [] \<Rightarrow> None)
                 else None
             | [] \<Rightarrow> None)) = Some n"
      using m unfolding speaker_tag_def s list.case Let_def r1_def[symmetric] r2' r3_def[symmetric] .
    then show ?thesis by simp
  qed
  then obtain c r4 r5 where r3: "r3 = c # r4" and c: "c \<in> {CHR ''s'', CHR ''S''}"
    and r4: "r4 \<noteq> []" "js_digit (hd r4)"
    and r5: "dropWhile js_space (dropWhile js_digit r4) = CHR ''>'' # r5"
    and n: "n = length s - length r5"
    by (auto split: list.splits if_splits)
  define ds where "ds = takeWhile js_digit r4"
  define e where "e = takeWhile js_space (dropWhile js_digit r4)"
  have ds_ne: "ds \<noteq> []" using r4 by (cases r4) (simp_all add: ds_def)
  have r4_eq: "r4 = ds @ e @ CHR ''>'' # r5"
    using r5 by (metis ds_def e_def takeWhile_dropWhile_id)
  have r2_eq: "r2 = takeWhile js_space r2 @ c # r4"
    using r3 by (metis r3_def takeWhile_dropWhile_id)
  have r_eq: "r = takeWhile js_space r @ r1"
    by (simp add: r1_def)
  have s_eq: "s = (CHR ''<'' # takeWhile js_space r @ sl @ takeWhile js_space r2 @ c # ds @ e @ ''>'') @ r5"
    using s r_eq r1_eq r2_eq r4_eq by simp
  have "CHR ''<'' # takeWhile js_space r @ sl @ takeWhile js_space r2 @ c # ds @ e @ ''>'' \<in> speaker_tag_lang"
    unfolding speaker_tag_lang_def mem_Collect_eq
    using c ds_ne by (intro exI conjI refl) (auto simp: sl_def ds_def e_def dest: set_takeWhileD)
  moreover have "n = length (CHR ''<'' # takeWhile js_space r @ sl @ takeWhile js_space r2 @ c # ds @ e @ ''>'')"
    using n s_eq by (metis add_diff_cancel_right' length_append)
  ultimately show ?thesis using s_eq by (metis append_eq_conv_conj le_add1 length_append)
qed


lemma s1_tag_complete: "t \<in> s1_tag_lang \<Longrightarrow> s1_tag (t @ u) = Some (length t)"
  by (auto simp: s1_tag_lang_def s1_tag_def)

lemma take_eq_length: "take k s = t \<Longrightarrow> length t = k \<Longrightarrow> k \<le> length s"
  by (metis length_take min.absorb_iff2 min.cobounded1)

lemma s1_tag_sound: "s1_tag s = Some n \<Longrightarrow> n \<le> length s \<and> take n s \<in> s1_tag_lang"
  by (auto simp: s1_tag_def s1_tag_lang_def split: if_splits dest: take_eq_length)

text \<open>(C18) The tag matchers implement the two regular expressions of the views exactly:
  every tag of the language of \<open>/<\s*\/?\s*s\d+\s*>/i\<close> (any spacing, either case,
  opening or closing, any number of digits) is matched entirely at the head of a string,
  whatever follows it, and every match is such a tag; likewise for \<open>/<\/?s1>/i\<close>. So a
  response that opens with a speaker tag followed by text without \<open><\<close> is displayed
  as that text.\<close>

theorem tag_matchers_regex:
  "(t \<in> speaker_tag_lang \<longrightarrow> speaker_tag (t @ u) = Some (length t)) \<and>
   (speaker_tag s = Some n \<longrightarrow> n \<le> length s \<and> take n s \<in> speaker_tag_lang) \<and>
   (t' \<in> s1_tag_lang \<longrightarrow> s1_tag (t' @ u) = Some (length t')) \<and>
   (s1_tag s = Some n \<longrightarrow> n \<le> length s \<and> take n s \<in> s1_tag_lang) \<and>
   (t \<in> speaker_tag_lang \<and> CHR ''<'' \<notin> set u \<longrightarrow> strip_tags speaker_tag (t @ u) = u)"
proof -
  have "t \<in> speaker_tag_lang \<longrightarrow> speaker_tag (t @ u) = Some (length t)"
    by (simp add: speaker_tag_complete)
  moreover have "speaker_tag s = Some n \<longrightarrow> n \<le> length s \<and> take n s \<in> speaker_tag_lang"
    by (simp add: speaker_tag_sound)
  moreover have "t' \<in> s1_tag_lang \<longrightarrow> s1_tag (t' @ u) = Some (length t')"
    by (simp add: s1_tag_complete)
  moreover have "s1_tag s = Some n \<longrightarrow> n \<le> length s \<and> take n s \<in> s1_tag_lang"
    by (simp add: s1_tag_sound)
  moreover have "strip_tags speaker_tag (t @ u) = u"
    if "t \<in> speaker_tag_lang" and "CHR ''<'' \<notin> set u"
  proof -
    from that(1) obtain c cs where t: "t = c # cs"
      by (cases t) (auto simp: speaker_tag_lang_def)
    have "speaker_tag (t @ u) = Some (length t)" using that(1) by (rule speaker_tag_complete)
    moreover have "strip_tags speaker_tag u = u"
      using that(2) by (rule no_open_no_match) (rule speaker_tag_head)
    ultimately show ?thesis by (simp add: t)
  qed
  ultimately show ?thesis by blast
qed

theorem tag_matchers_regex_witness:
  "''</S12 >'' \<in> speaker_tag_lang \<and> CHR ''<'' \<notin> set ''Hi'' \<and>
   speaker_tag (''</S12 >'' @ ''Hi'') = Some (length ''</S12 >'') \<and>
   strip_tags speaker_tag (''</S12 >'' @ ''Hi'') = ''Hi'' \<and>
   ''</s1>'' \<in> s1_tag_lang \<and> s1_tag (''</s1>'' @ ''Hi'') = Some (length ''</s1>'')"
proof -
  have l: "''</S12 >'' \<in> speaker_tag_lang"
    unfolding speaker_tag_lang_def mem_Collect_eq
    by (rule exI [of _ "[]"], rule exI [of _ "''/''"], rule exI [of _ "[]"], rule exI [of _ "CHR ''S''"],
        rule exI [of _ "''12''"], rule exI [of _ "'' ''"]) (simp add: js_space_def js_digit_def)
  have s: "''</s1>'' \<in> s1_tag_lang" by (simp add: s1_tag_lang_def)
  have h: "CHR ''<'' \<notin> set ''Hi''" by simp
  from tag_matchers_regex [of "''</S12 >''" "''Hi''" _ _ "''</s1>''"] l s h show ?thesis by blast
qed

text \<open>The replacement runs once over the string: removing a tag can join the text around it
  into a new tag, which is displayed; the prompt matcher leaves speaker tags other than
  \<open><s1>\<close> in place.\<close>

lemma strip_tags_single_pass:
  "strip_tags speaker_tag ''<s<s1>1>Hi'' = ''<s1>Hi'' \<and> strip_tags s1_tag ''<s2>Hi'' = ''<s2>Hi''"
  by (simp add: speaker_tag_def s1_tag_def js_space_def js_digit_def Let_def)

end
