(* ===== verification/Playback.thy ===== *)
theory Playback
  imports Codec
begin

text \<open>
  PlaybackScheduler: \<open>playAudioChunk\<close> (src/src/App.jsx lines 186-218, identical in
  src/poc2.jsx lines 167-199) with the refs it shares, \<open>audioCtxRef\<close> and
  \<open>nextPlayTimeRef\<close>. The audio context is a record with an identity, its clock
  \<open>currentTime\<close> and its state; each scheduled \<open>AudioBufferSourceNode\<close> is
  recorded with its context, start time, playback rate and samples. Exceptions that
  escape the handler (the Web Audio API's \<open>NotSupportedError\<close> for a zero-length
  buffer, \<open>RangeError\<close> for a negative start time, \<open>InvalidStateError\<close> for closing
  a closed context) are collected in \<open>uncaught\<close>, the page's error console.
  The abstract queue \<open>queue_starts\<close> is the contract of the scheduler, and runs of
  \<open>pb_step\<close> over \<open>arrivals\<close> refine it.
\<close>

subsection \<open>Data\<close>

datatype js_error = NotSupportedError | RangeError | InvalidStateError

datatype ctx_state = Running | Closed

record audio_ctx =
  actx_id :: nat
  actx_time :: rat
  actx_state :: ctx_state

record source =
  src_ctx :: nat
  src_start :: rat
  src_rate :: rat
  src_samples :: "rat list"
  src_connected :: bool

record playback =
  audio_ctx :: "audio_ctx option"
  next_play_time :: rat
  sources :: "source list"
  next_id :: nat
  uncaught :: "js_error list"

definition playback_init :: playback where
  "playback_init =
     \<lparr>audio_ctx = None, next_play_time = 0, sources = [], next_id = 0, uncaught = []\<rparr>"

subsection \<open>Operations\<close>

text \<open>
  \<open>new AudioContext({sampleRate: 16000})\<close>: a fresh context whose clock starts at 0,
  stored in \<open>audioCtxRef\<close>.
\<close>

definition open_ctx :: "'a playback_scheme \<Rightarrow> 'a playback_scheme" where
  "open_ctx p =
     p\<lparr>audio_ctx := Some \<lparr>actx_id = next_id p, actx_time = 0, actx_state = Running\<rparr>,
       next_id := Suc (next_id p)\<rparr>"

text \<open>\<open>audioBuffer.duration\<close> of a buffer of \<open>n\<close> frames at 16000 Hz.\<close>

definition chunk_duration :: "nat \<Rightarrow> rat" where
  "chunk_duration n = of_nat n / 16000"

definition src_end :: "source \<Rightarrow> rat" where
  "src_end s = src_start s + chunk_duration (length (src_samples s)) / src_rate s"

text \<open>
  \<open>playAudioChunk(arrayBuffer)\<close> with the playback speed its closure holds: create the
  context lazily (and reset the cursor), decode, create the buffer (a zero-length buffer
  raises), move the cursor up to the clock if it fell behind, start the source at the
  cursor (a negative time raises), advance the cursor by the buffer's duration divided
  by the speed.
\<close>

definition play_audio_chunk :: "rat \<Rightarrow> byte list \<Rightarrow> 'a playback_scheme \<Rightarrow> 'a playback_scheme" where
  "play_audio_chunk speed bs p =
     (let p1 = (case audio_ctx p of None \<Rightarrow> (open_ctx p)\<lparr>next_play_time := 0\<rparr> | Some _ \<Rightarrow> p)
      in case audio_ctx p1 of
           None \<Rightarrow> p1
         | Some ctx \<Rightarrow>
             (case decode_pcm bs of
                None \<Rightarrow> p1\<lparr>uncaught := uncaught p1 @ [RangeError]\<rparr>
              | Some samples \<Rightarrow>
                  (if samples = [] then p1\<lparr>uncaught := uncaught p1 @ [NotSupportedError]\<rparr>
                   else
                     (let start = (if next_play_time p1 < actx_time ctx then actx_time ctx
                                   else next_play_time p1);
                          p2 = p1\<lparr>next_play_time := start\<rparr>
                      in if start < 0 then p2\<lparr>uncaught := uncaught p2 @ [RangeError]\<rparr>
                         else p2\<lparr>sources := sources p2 @
                                   [\<lparr>src_ctx = actx_id ctx, src_start = start, src_rate = speed,
                                     src_samples = samples, src_connected = True\<rparr>],
                                 next_play_time :=
                                   start + chunk_duration (length samples) / speed\<rparr>))))"

text \<open>\<open>source.onended = () => source.disconnect()\<close>, for the \<open>i\<close>-th scheduled source.\<close>

definition source_ended :: "nat \<Rightarrow> 'a playback_scheme \<Rightarrow> 'a playback_scheme" where
  "source_ended i p =
     (if i < length (sources p)
      then p\<lparr>sources := (sources p)[i := (sources p ! i)\<lparr>src_connected := False\<rparr>]\<rparr>
      else p)"

text \<open>The output clock of the current context advances while it runs.\<close>

definition advance_clock :: "rat \<Rightarrow> 'a playback_scheme \<Rightarrow> 'a playback_scheme" where
  "advance_clock dt p =
     (case audio_ctx p of
        Some c \<Rightarrow> (if actx_state c = Running
                   then p\<lparr>audio_ctx := Some (c\<lparr>actx_time := actx_time c + dt\<rparr>)\<rparr> else p)
      | None \<Rightarrow> p)"

text \<open>
  \<open>audioCtxRef.current.close()\<close>: closing a closed context rejects with an
  \<open>InvalidStateError\<close> that nothing catches. The ref keeps the closed context.
\<close>

definition close_ctx :: "'a playback_scheme \<Rightarrow> 'a playback_scheme" where
  "close_ctx p =
     (case audio_ctx p of
        None \<Rightarrow> p
      | Some c \<Rightarrow> (if actx_state c = Closed then p\<lparr>uncaught := uncaught p @ [InvalidStateError]\<rparr>
                   else p\<lparr>audio_ctx := Some (c\<lparr>actx_state := Closed\<rparr>)\<rparr>))"

subsection \<open>Invariant\<close>

text \<open>The sources scheduled on context \<open>c\<close>, in scheduling order.\<close>

definition on_ctx :: "nat \<Rightarrow> source list \<Rightarrow> source list" where
  "on_ctx i ss = filter (\<lambda>s. src_ctx s = i) ss"

definition back_to_back :: "source list \<Rightarrow> bool" where
  "back_to_back ss \<longleftrightarrow> sorted_wrt (\<lambda>a b. src_end a \<le> src_start b) ss"

text \<open>
  What every scheduling step keeps, whatever the state of the context: non-negative
  cursor, clock and start times, positive speeds, fresh context identities.
\<close>

definition pb_base :: "'a playback_scheme \<Rightarrow> bool" where
  "pb_base p \<longleftrightarrow>
     0 \<le> next_play_time p \<and>
     (\<forall>s \<in> set (sources p). 0 < src_rate s \<and> 0 \<le> src_start s \<and> src_ctx s < next_id p) \<and>
     (case audio_ctx p of None \<Rightarrow> True | Some c \<Rightarrow> 0 \<le> actx_time c \<and> actx_id c < next_id p)"

text \<open>
  The timeline of the current context: its sources are back to back in scheduling order
  and all end by the cursor.
\<close>

definition timeline_ok :: "'a playback_scheme \<Rightarrow> bool" where
  "timeline_ok p \<longleftrightarrow>
     (case audio_ctx p of
        None \<Rightarrow> True
      | Some c \<Rightarrow> back_to_back (on_ctx (actx_id c) (sources p)) \<and>
                  (\<forall>s \<in> set (on_ctx (actx_id c) (sources p)). src_end s \<le> next_play_time p))"

definition pb_inv :: "'a playback_scheme \<Rightarrow> bool" where
  "pb_inv p \<longleftrightarrow> pb_base p \<and> timeline_ok p"

text \<open>A sequence of playback events, with the speed each chunk is played at.\<close>

datatype pb_event = PlayChunk rat "byte list" | Advance rat | Ended nat

fun pb_step :: "'a playback_scheme \<Rightarrow> pb_event \<Rightarrow> 'a playback_scheme" where
  "pb_step p (PlayChunk speed bs) = play_audio_chunk speed bs p"
| "pb_step p (Advance dt) = advance_clock dt p"
| "pb_step p (Ended i) = source_ended i p"

fun pb_event_ok :: "pb_event \<Rightarrow> bool" where
  "pb_event_ok (PlayChunk speed bs) \<longleftrightarrow> 0 < speed"
| "pb_event_ok (Advance dt) \<longleftrightarrow> 0 \<le> dt"
| "pb_event_ok (Ended i) \<longleftrightarrow> True"

text \<open>The timing view of a source: the invariant does not look at whether it is connected.\<close>

definition tview :: "source \<Rightarrow> source" where
  "tview s = s\<lparr>src_connected := True\<rparr>"

text \<open>
  The contract of the scheduler, as an abstract queue: chunks of \<open>n\<close> frames arrive
  \<open>dt\<close> after one another and play at speed \<open>v\<close>; each starts when it arrives or when
  the previous one ends, whichever is later. \<open>arrivals\<close> is the matching sequence of
  events: the clock advances, then the chunk is played.
\<close>

fun queue_starts :: "rat \<Rightarrow> rat \<Rightarrow> rat \<Rightarrow> (rat \<times> nat) list \<Rightarrow> rat list" where
  "queue_starts v t c [] = []"
| "queue_starts v t c ((dt, n) # xs) =
     (let t' = t + dt; st = max c t' in st # queue_starts v t' (st + chunk_duration n / v) xs)"

fun arrivals :: "rat \<Rightarrow> (rat \<times> byte list) list \<Rightarrow> pb_event list" where
  "arrivals v [] = []"
| "arrivals v ((dt, bs) # xs) = Advance dt # PlayChunk v bs # arrivals v xs"

declare playback_init_def [model_defs] open_ctx_def [model_defs] chunk_duration_def [model_defs]
  src_end_def [model_defs] play_audio_chunk_def [model_defs] source_ended_def [model_defs]
  advance_clock_def [model_defs] close_ctx_def [model_defs]

subsection \<open>Lemmas\<close>

lemma on_ctx_snoc [simp]:
  "on_ctx i (ss @ [s]) = on_ctx i ss @ (if src_ctx s = i then [s] else [])"
  by (simp add: on_ctx_def)

lemma on_ctx_fresh: "\<forall>s \<in> set ss. src_ctx s < n \<Longrightarrow> on_ctx n ss = []"
  by (auto simp: on_ctx_def filter_empty_conv)

lemma set_on_ctx: "set (on_ctx i ss) \<subseteq> set ss"
  by (auto simp: on_ctx_def)

lemma back_to_back_snoc:
  "back_to_back (ss @ [s]) \<longleftrightarrow> back_to_back ss \<and> (\<forall>x \<in> set ss. src_end x \<le> src_start s)"
  by (auto simp: back_to_back_def sorted_wrt_append)

lemma src_start_le_end: "0 < src_rate s \<Longrightarrow> src_start s \<le> src_end s"
  by (simp add: src_end_def chunk_duration_def)

lemma decode_pcm_nonempty:
  "decode_pcm bs = Some xs \<Longrightarrow> xs = [] \<longleftrightarrow> length bs < 2"
  by (auto simp: decode_pcm_eq)

lemma pb_inv_uncaught [simp]: "pb_inv (p\<lparr>uncaught := e\<rparr>) = pb_inv p"
  by (simp add: pb_inv_def pb_base_def timeline_ok_def split: option.split)

lemma pb_inv_cursor_up:
  "pb_inv p \<Longrightarrow> next_play_time p \<le> t \<Longrightarrow> pb_inv (p\<lparr>next_play_time := t\<rparr>)"
  by (fastforce simp: pb_inv_def pb_base_def timeline_ok_def split: option.splits)

lemma pb_inv_lazy_ctx:
  "pb_inv p \<Longrightarrow> audio_ctx p = None \<Longrightarrow> pb_inv ((open_ctx p)\<lparr>next_play_time := 0\<rparr>)"
  by (auto simp: pb_inv_def pb_base_def timeline_ok_def open_ctx_def on_ctx_fresh back_to_back_def)

lemma pb_inv_schedule:
  assumes inv: "pb_inv p" and ctx: "audio_ctx p = Some c" and sp: "0 < speed"
    and start: "next_play_time p \<le> start" "actx_time c \<le> start"
  shows "pb_inv (p\<lparr>sources := sources p @ [\<lparr>src_ctx = actx_id c, src_start = start, src_rate = speed,
                                             src_samples = xs, src_connected = True\<rparr>],
                   next_play_time := start + chunk_duration (length xs) / speed\<rparr>)"
proof -
  let ?s = "\<lparr>src_ctx = actx_id c, src_start = start, src_rate = speed,
             src_samples = xs, src_connected = True\<rparr>"
  have ends: "\<forall>x \<in> set (on_ctx (actx_id c) (sources p)). src_end x \<le> start"
    using inv ctx start by (fastforce simp: pb_inv_def pb_base_def timeline_ok_def)
  have new_end: "src_end ?s = start + chunk_duration (length xs) / speed"
    by (simp add: src_end_def)
  have "start \<le> start + chunk_duration (length xs) / speed"
    using sp by (simp add: chunk_duration_def)
  with inv ctx sp start ends new_end show ?thesis
    by (auto simp: pb_inv_def pb_base_def timeline_ok_def back_to_back_snoc)
qed

lemma pb_inv_play:
  assumes inv: "pb_inv p" and sp: "0 < speed"
  shows "pb_inv (play_audio_chunk speed bs p)"
proof -
  define p1 where "p1 = (case audio_ctx p of None \<Rightarrow> (open_ctx p)\<lparr>next_play_time := 0\<rparr> | Some _ \<Rightarrow> p)"
  have inv1: "pb_inv p1"
    using inv by (cases "audio_ctx p") (simp_all add: p1_def pb_inv_lazy_ctx)
  obtain c where c: "audio_ctx p1 = Some c"
    by (cases "audio_ctx p") (auto simp: p1_def open_ctx_def)
  have unfold: "play_audio_chunk speed bs p =
     (case decode_pcm bs of
        None \<Rightarrow> p1\<lparr>uncaught := uncaught p1 @ [RangeError]\<rparr>
      | Some samples \<Rightarrow>
          (if samples = [] then p1\<lparr>uncaught := uncaught p1 @ [NotSupportedError]\<rparr>
           else
             (let start = (if next_play_time p1 < actx_time c then actx_time c else next_play_time p1);
                  p2 = p1\<lparr>next_play_time := start\<rparr>
              in if start < 0 then p2\<lparr>uncaught := uncaught p2 @ [RangeError]\<rparr>
                 else p2\<lparr>sources := sources p2 @
                           [\<lparr>src_ctx = actx_id c, src_start = start, src_rate = speed,
                             src_samples = samples, src_connected = True\<rparr>],
                         next_play_time := start + chunk_duration (length samples) / speed\<rparr>)))"
    by (simp add: play_audio_chunk_def p1_def [symmetric] c)
  show ?thesis
  proof (cases "decode_pcm bs")
    case None
    with inv1 show ?thesis by (simp add: unfold)
  next
    case (Some xs)
    let ?start = "if next_play_time p1 < actx_time c then actx_time c else next_play_time p1"
    have "next_play_time p1 \<le> ?start" "actx_time c \<le> ?start" by simp_all
    with pb_inv_schedule [OF inv1 c sp, of ?start xs] pb_inv_cursor_up [OF inv1, of ?start]
    show ?thesis using inv1 by (simp add: unfold Some Let_def)
  qed
qed

lemma pb_inv_advance: "pb_inv p \<Longrightarrow> 0 \<le> dt \<Longrightarrow> pb_inv (advance_clock dt p)"
  by (auto simp: pb_inv_def pb_base_def timeline_ok_def advance_clock_def split: option.splits)

lemma tview_fields [simp]:
  "src_ctx (tview s) = src_ctx s" "src_start (tview s) = src_start s"
  "src_rate (tview s) = src_rate s" "src_end (tview s) = src_end s"
  by (simp_all add: tview_def src_end_def)

lemma pb_inv_tview:
  "pb_inv (p\<lparr>sources := map tview ss\<rparr>) \<longleftrightarrow> pb_inv (p\<lparr>sources := ss\<rparr>)"
proof -
  have on: "on_ctx i (map tview ss) = map tview (on_ctx i ss)" for i
    by (simp add: on_ctx_def filter_map comp_def)
  have b2b: "back_to_back (map tview xs) \<longleftrightarrow> back_to_back xs" for xs
    by (simp add: back_to_back_def sorted_wrt_map)
  show ?thesis
    by (simp add: pb_inv_def pb_base_def timeline_ok_def on b2b split: option.split)
qed

lemma map_tview_ended:
  "i < length ss \<Longrightarrow> map tview (ss[i := (ss ! i)\<lparr>src_connected := False\<rparr>]) = map tview ss"
proof -
  assume i: "i < length ss"
  then have "tview ((ss ! i)\<lparr>src_connected := False\<rparr>) = map tview ss ! i"
    by (simp add: tview_def)
  then have "map tview (ss[i := (ss ! i)\<lparr>src_connected := False\<rparr>]) =
             (map tview ss)[i := map tview ss ! i]"
    by (simp only: map_update)
  also have "\<dots> = map tview ss"
    by (rule list_update_id)
  finally show ?thesis .
qed

lemma pb_inv_ended: "pb_inv p \<Longrightarrow> pb_inv (source_ended i p)"
proof (cases "i < length (sources p)")
  case True
  assume inv: "pb_inv p"
  have "pb_inv (p\<lparr>sources := (sources p)[i := (sources p ! i)\<lparr>src_connected := False\<rparr>]\<rparr>)"
    using pb_inv_tview [where p = p and ss = "(sources p)[i := (sources p ! i)\<lparr>src_connected := False\<rparr>]"]
          pb_inv_tview [where p = p and ss = "sources p"] inv True
    by (simp add: map_tview_ended)
  with True show ?thesis by (simp add: source_ended_def)
qed (simp add: source_ended_def)

lemma pb_inv_fold:
  "\<forall>e \<in> set es. pb_event_ok e \<Longrightarrow> pb_inv q \<Longrightarrow> pb_inv (fold (\<lambda>e p. pb_step p e) es q)"
proof (induction es arbitrary: q)
  case Nil
  then show ?case by simp
next
  case (Cons e es)
  then have "pb_inv (pb_step q e)"
    by (cases e) (simp_all add: pb_inv_play pb_inv_advance pb_inv_ended)
  with Cons show ?case by simp
qed

lemma pb_inv_init: "pb_inv playback_init"
  by (simp add: pb_inv_def pb_base_def timeline_ok_def playback_init_def)

lemma chunk_duration_div_nonneg [simp]: "0 < sp \<Longrightarrow> 0 \<le> chunk_duration n / sp"
  by (simp add: chunk_duration_def)

lemma pb_base_play: "pb_base p \<Longrightarrow> 0 < sp \<Longrightarrow> pb_base (play_audio_chunk sp bs p)"
  by (auto simp: play_audio_chunk_def pb_base_def open_ctx_def Let_def add_nonneg_nonneg
           split: option.splits)

lemma pb_base_tview:
  "pb_base (p\<lparr>sources := map tview ss\<rparr>) \<longleftrightarrow> pb_base (p\<lparr>sources := ss\<rparr>)"
  by (simp add: pb_base_def split: option.split)

lemma pb_base_ended: "pb_base p \<Longrightarrow> pb_base (source_ended i p)"
  using pb_base_tview [where p = p and ss = "(sources p)[i := (sources p ! i)\<lparr>src_connected := False\<rparr>]"]
        pb_base_tview [where p = p and ss = "sources p"]
  by (auto simp: source_ended_def map_tview_ended)

lemma pb_base_advance: "pb_base p \<Longrightarrow> 0 \<le> dt \<Longrightarrow> pb_base (advance_clock dt p)"
  by (auto simp: pb_base_def advance_clock_def split: option.splits)

lemma pb_base_close: "pb_base (close_ctx p) = pb_base p"
  by (auto simp: pb_base_def close_ctx_def split: option.splits)

lemma pb_inv_no_ctx: "pb_base p \<Longrightarrow> audio_ctx p = None \<Longrightarrow> pb_inv p"
  by (simp add: pb_inv_def timeline_ok_def)

lemma pb_inv_open_ctx: "pb_base p \<Longrightarrow> pb_inv (open_ctx p)"
  by (auto simp: pb_inv_def pb_base_def timeline_ok_def open_ctx_def on_ctx_fresh back_to_back_def)
lemma chunk_duration_nonneg: "0 \<le> chunk_duration n"
  by (simp add: chunk_duration_def)

lemma play_sources_append: "\<exists>zs. sources (play_audio_chunk v bs q) = sources q @ zs"
  by (auto simp: play_audio_chunk_def Let_def open_ctx_def split: option.split)

lemma arrivals_sources_append:
  "\<exists>zs. sources (fold (\<lambda>e q. pb_step q e) (arrivals v xs) q) = sources q @ zs"
proof (induction xs arbitrary: q)
  case Nil
  then show ?case by simp
next
  case (Cons a xs)
  obtain dt bs where a: "a = (dt, bs)" by fastforce
  obtain ys where ys: "sources (play_audio_chunk v bs (advance_clock dt q)) = sources q @ ys"
    using play_sources_append [of v bs "advance_clock dt q"] by (auto simp: advance_clock_def split: option.splits)
  obtain zs where "sources (fold (\<lambda>e q. pb_step q e) (arrivals v xs) (play_audio_chunk v bs (advance_clock dt q))) =
                   sources (play_audio_chunk v bs (advance_clock dt q)) @ zs"
    using Cons.IH by blast
  with ys a show ?case by auto
qed

subsection \<open>Properties of the scheduler\<close>

lemma decode_pcm_short: "length bs < 2 \<Longrightarrow> decode_pcm bs = Some []"
  by (simp add: decode_pcm_eq)

text \<open>
  (C14) Scheduling one chunk: on an existing context, a decodable non-empty chunk is
  started at the later of the cursor and the clock (so a chunk that arrives while the
  previous one still plays starts exactly where it ends, and one that arrives after an
  underrun starts now), and the cursor moves to its end, its duration divided by the
  speed. Nothing else changes and nothing is raised. A chunk of fewer than two bytes
  decodes to an empty buffer, and \<open>createBuffer\<close> raises \<open>NotSupportedError\<close>: the
  handler aborts after creating the context if there was none, schedules nothing and
  leaves the cursor where it was.
\<close>

theorem play_audio_chunk_schedules:
  "(audio_ctx p = Some c \<and> decode_pcm bs = Some xs \<and> xs \<noteq> [] \<and> 0 \<le> next_play_time p \<longrightarrow>
    play_audio_chunk speed bs p =
    p\<lparr>sources := sources p @ [\<lparr>src_ctx = actx_id c, src_start = max (next_play_time p) (actx_time c),
                                src_rate = speed, src_samples = xs, src_connected = True\<rparr>],
      next_play_time := max (next_play_time p) (actx_time c) + chunk_duration (length xs) / speed\<rparr>) \<and>
   (length bs' < 2 \<longrightarrow>
    play_audio_chunk speed bs' p =
      (case audio_ctx p of None \<Rightarrow> (open_ctx p)\<lparr>next_play_time := 0\<rparr> | Some _ \<Rightarrow> p)
        \<lparr>uncaught := uncaught p @ [NotSupportedError]\<rparr>)"
  apply (intro conjI impI)
  subgoal by (simp add: play_audio_chunk_def Let_def max_def)
  subgoal
    using decode_pcm_short [of bs']
    by (cases "audio_ctx p") (simp_all add: play_audio_chunk_def open_ctx_def)
  done

theorem play_audio_chunk_schedules_witness:
  "audio_ctx (advance_clock 5 (open_ctx playback_init)) =
     Some \<lparr>actx_id = 0, actx_time = 5, actx_state = Running\<rparr> \<and>
   decode_pcm [1, 0, 2, 0] = Some [1 / 32768, 2 / 32768] \<and>
   [1 / 32768, 2 / 32768 :: rat] \<noteq> [] \<and>
   0 \<le> next_play_time (advance_clock 5 (open_ctx playback_init)) \<and>
   play_audio_chunk 2 [1, 0, 2, 0] (advance_clock 5 (open_ctx playback_init)) =
     (advance_clock 5 (open_ctx playback_init))
       \<lparr>sources := [\<lparr>src_ctx = 0, src_start = 5, src_rate = 2,
                      src_samples = [1 / 32768, 2 / 32768], src_connected = True\<rparr>],
        next_play_time := 5 + 1 / 16000\<rparr> \<and>
   length [7 :: byte] < 2 \<and>
   play_audio_chunk 1 [7] playback_init =
     playback_init\<lparr>audio_ctx := Some \<lparr>actx_id = 0, actx_time = 0, actx_state = Running\<rparr>,
                    next_id := 1, uncaught := [NotSupportedError]\<rparr>"
proof -
  have ctx: "audio_ctx (advance_clock 5 (open_ctx playback_init)) =
               Some \<lparr>actx_id = 0, actx_time = 5, actx_state = Running\<rparr>"
    by (simp add: model_defs)
  have dec: "decode_pcm [1, 0, 2, 0] = Some [1 / 32768, 2 / 32768]"
    by (simp add: decode_pcm_eq pcm_value_def le_word_def upt_rec)
  have "play_audio_chunk 1 [7] playback_init =
          playback_init\<lparr>audio_ctx := Some \<lparr>actx_id = 0, actx_time = 0, actx_state = Running\<rparr>,
                         next_id := 1, uncaught := [NotSupportedError]\<rparr>"
    using play_audio_chunk_schedules [of playback_init _ _ _ 1 "[7]"]
    by (simp add: playback_init_def open_ctx_def)
  then show ?thesis
    using play_audio_chunk_schedules [of "advance_clock 5 (open_ctx playback_init)" _ _ _ 2]
    by (simp add: ctx dec model_defs)
qed

text \<open>
  (C15) The scheduler's invariant: the cursor and every start time are non-negative,
  every speed is positive, the sources of the current context are back to back in
  scheduling order and all end by the cursor. Every playback event keeps it: a chunk
  played at a positive speed, the clock advancing, a source ending.
\<close>

theorem pb_inv_step: "pb_inv p \<Longrightarrow> pb_event_ok e \<Longrightarrow> pb_inv (pb_step p e)"
  by (cases e) (simp_all add: pb_inv_play pb_inv_advance pb_inv_ended)

theorem pb_inv_step_witness:
  "pb_inv playback_init \<and> pb_event_ok (PlayChunk 1 [1, 0]) \<and>
   pb_inv (pb_step playback_init (PlayChunk 1 [1, 0]))"
  using pb_inv_step [of playback_init "PlayChunk 1 [1, 0]"] pb_inv_init by simp

text \<open>
  (C16) No overlap, on any run from the initial state with positive speeds and a clock
  that does not go back: the sources scheduled on the current context play one after
  another, each for a non-negative time, and the \<open>i\<close>-th ends before the \<open>j\<close>-th
  starts for \<open>i < j\<close>.
\<close>

theorem pb_run_back_to_back:
  assumes "\<forall>e \<in> set es. pb_event_ok e"
    and "p = fold (\<lambda>e p. pb_step p e) es playback_init" and "audio_ctx p = Some c"
  shows "\<forall>i j. i < j \<and> j < length (on_ctx (actx_id c) (sources p)) \<longrightarrow>
            src_start (on_ctx (actx_id c) (sources p) ! i) \<le> src_end (on_ctx (actx_id c) (sources p) ! i) \<and>
            src_end (on_ctx (actx_id c) (sources p) ! i) \<le> src_start (on_ctx (actx_id c) (sources p) ! j)"
proof -
  have inv: "pb_inv p" using assms(1,2) pb_inv_fold pb_inv_init by simp
  then have b2b: "back_to_back (on_ctx (actx_id c) (sources p))"
    and rates: "\<forall>s \<in> set (sources p). 0 < src_rate s"
    using assms(3) by (simp_all add: pb_inv_def pb_base_def timeline_ok_def)
  show ?thesis
  proof (intro allI impI conjI)
    fix i j assume ij: "i < j \<and> j < length (on_ctx (actx_id c) (sources p))"
    then have "on_ctx (actx_id c) (sources p) ! i \<in> set (sources p)"
      using set_on_ctx by (metis nth_mem order.strict_trans subsetD)
    with rates show "src_start (on_ctx (actx_id c) (sources p) ! i) \<le> src_end (on_ctx (actx_id c) (sources p) ! i)"
      by (simp add: src_start_le_end)
    from b2b ij show "src_end (on_ctx (actx_id c) (sources p) ! i) \<le> src_start (on_ctx (actx_id c) (sources p) ! j)"
      by (simp add: back_to_back_def sorted_wrt_iff_nth_less)
  qed
qed
theorem pb_run_back_to_back_witness:
  "list_all pb_event_ok [PlayChunk 1 [1, 0, 2, 0], Advance 1, PlayChunk 2 [3, 0]] \<and>
   fold (\<lambda>e p. pb_step p e) [PlayChunk 1 [1, 0, 2, 0], Advance 1, PlayChunk 2 [3, 0]] playback_init =
     fold (\<lambda>e p. pb_step p e) [PlayChunk 1 [1, 0, 2, 0], Advance 1, PlayChunk 2 [3, 0]] playback_init \<and>
   audio_ctx (fold (\<lambda>e p. pb_step p e) [PlayChunk 1 [1, 0, 2, 0], Advance 1, PlayChunk 2 [3, 0]]
                playback_init) = Some \<lparr>actx_id = 0, actx_time = 1, actx_state = Running\<rparr> \<and>
   src_end (on_ctx 0 (sources (fold (\<lambda>e p. pb_step p e)
              [PlayChunk 1 [1, 0, 2, 0], Advance 1, PlayChunk 2 [3, 0]] playback_init)) ! 0)
   \<le> src_start (on_ctx 0 (sources (fold (\<lambda>e p. pb_step p e)
              [PlayChunk 1 [1, 0, 2, 0], Advance 1, PlayChunk 2 [3, 0]] playback_init)) ! 1)"
proof -
  let ?es = "[PlayChunk 1 [1, 0, 2, 0], Advance 1, PlayChunk 2 [3, 0]]"
  let ?p = "fold (\<lambda>e p. pb_step p e) ?es playback_init"
  have ok: "\<forall>e \<in> set ?es. pb_event_ok e" by simp
  have ctx: "audio_ctx ?p = Some \<lparr>actx_id = 0, actx_time = 1, actx_state = Running\<rparr>"
    by (simp add: model_defs decode_pcm_eq)
  have len: "length (on_ctx 0 (sources ?p)) = 2"
    by (simp add: model_defs decode_pcm_eq on_ctx_def)
  from pb_run_back_to_back [OF ok refl ctx] len
  have "src_end (on_ctx 0 (sources ?p) ! 0) \<le> src_start (on_ctx 0 (sources ?p) ! 1)"
    by simp
  with ok ctx show ?thesis by simp
qed

text \<open>
  Lazy creation: with no context, the first chunk creates a fresh one whose clock
  is at 0, resets the cursor, and is scheduled at time 0 with the cursor at its end.
\<close>

lemma play_audio_chunk_fresh:
  assumes "audio_ctx p = None" and "decode_pcm bs = Some xs" and "xs \<noteq> []"
  shows "audio_ctx (play_audio_chunk speed bs p) =
           Some \<lparr>actx_id = next_id p, actx_time = 0, actx_state = Running\<rparr> \<and>
         sources (play_audio_chunk speed bs p) =
           sources p @ [\<lparr>src_ctx = next_id p, src_start = 0, src_rate = speed,
                         src_samples = xs, src_connected = True\<rparr>] \<and>
         next_play_time (play_audio_chunk speed bs p) = chunk_duration (length xs) / speed"
  using assms by (simp add: play_audio_chunk_def open_ctx_def)

text \<open>(C6) Refinement: on a running context, a sequence of arrivals schedules its chunks
  exactly at the start times of the abstract queue: the first at the later of the
  cursor and its arrival time, each next one at the later of its arrival time and the
  end of the one before.\<close>

theorem pb_run_refines_queue:
  assumes "audio_ctx p = Some c" and "actx_state c = Running" and "0 \<le> actx_time c"
    and "0 \<le> next_play_time p" and "0 < v"
    and "\<forall>(dt, bs) \<in> set xs. 0 \<le> dt \<and> 2 \<le> length bs"
  shows "map src_start (drop (length (sources p)) (sources (fold (\<lambda>e q. pb_step q e) (arrivals v xs) p))) =
           queue_starts v (actx_time c) (next_play_time p) (map (\<lambda>(dt, bs). (dt, length bs div 2)) xs)"
  using assms
proof (induction xs arbitrary: p c)
  case Nil
  then show ?case by simp
next
  case (Cons a xs)
  obtain dt bs where a: "a = (dt, bs)" by fastforce
  let ?c' = "c\<lparr>actx_time := actx_time c + dt\<rparr>"
  let ?p1 = "advance_clock dt p"
  let ?ys = "map (\<lambda>i. pcm_value (sint (le_word (bs ! (2 * i)) (bs ! Suc (2 * i))))) [0..<length bs div 2]"
  have h: "0 \<le> dt" "2 \<le> length bs" using Cons.prems(6) a by auto
  have p1: "audio_ctx ?p1 = Some ?c'" "next_play_time ?p1 = next_play_time p" "sources ?p1 = sources p"
    using Cons.prems(1,2) by (simp_all add: advance_clock_def)
  have dec: "decode_pcm bs = Some ?ys" by (rule decode_pcm_eq)
  have ne: "?ys \<noteq> []" using h(2) by simp
  let ?st = "max (next_play_time p) (actx_time c + dt)"
  let ?p2 = "play_audio_chunk v bs ?p1"
  have p2: "?p2 = ?p1\<lparr>sources := sources p @ [\<lparr>src_ctx = actx_id c, src_start = ?st, src_rate = v,
                                               src_samples = ?ys, src_connected = True\<rparr>],
                     next_play_time := ?st + chunk_duration (length bs div 2) / v\<rparr>"
    using p1 dec ne Cons.prems(4) by (simp add: play_audio_chunk_def Let_def max_def)
  have nn: "0 \<le> ?st + chunk_duration (length bs div 2) / v"
    using Cons.prems(4,5) by (simp add: chunk_duration_nonneg add_nonneg_nonneg max_def)
  have IH: "map src_start (drop (length (sources ?p2)) (sources (fold (\<lambda>e q. pb_step q e) (arrivals v xs) ?p2))) =
           queue_starts v (actx_time c + dt) (?st + chunk_duration (length bs div 2) / v)
             (map (\<lambda>(dt, bs). (dt, length bs div 2)) xs)"
    using Cons.IH [of ?p2 ?c'] p2 p1 Cons.prems(2,3,5,6) h nn by (simp add: advance_clock_def)
  obtain zs where zs: "sources (fold (\<lambda>e q. pb_step q e) (arrivals v xs) ?p2) = sources ?p2 @ zs"
    using arrivals_sources_append by blast
  have "sources ?p2 = sources p @ [\<lparr>src_ctx = actx_id c, src_start = ?st, src_rate = v,
                                    src_samples = ?ys, src_connected = True\<rparr>]"
    using p2 p1 by simp
  with IH zs a show ?case by (simp add: Let_def)
qed


theorem pb_run_refines_queue_witness:
  "audio_ctx (open_ctx playback_init) = Some \<lparr>actx_id = 0, actx_time = 0, actx_state = Running\<rparr> \<and>
   0 \<le> next_play_time (open_ctx playback_init) \<and> (0 :: rat) < 1 \<and>
   map src_start (drop 0 (sources (fold (\<lambda>e q. pb_step q e)
      (arrivals 1 [(0, [1, 0, 2, 0]), (0, [3, 0]), (1, [4, 0])]) (open_ctx playback_init)))) =
     [0, 1 / 8000, 1]"
proof -
  have c: "audio_ctx (open_ctx playback_init) = Some \<lparr>actx_id = 0, actx_time = 0, actx_state = Running\<rparr>"
    "next_play_time (open_ctx playback_init) = 0" "sources (open_ctx playback_init) = []"
    by (simp_all add: open_ctx_def playback_init_def)
  show ?thesis
    using pb_run_refines_queue [OF c(1), of 1 "[(0, [1, 0, 2, 0]), (0, [3, 0]), (1, [4, 0])]"] c
    by (simp add: chunk_duration_def)
qed

end
