(* ===== verification/Recording.thy ===== *)
theory Recording
  imports Prelude
begin

text \<open>
  The recording feature of src/src/App.jsx (lines 14-17, 172-183, 240-293, 357-362):
  the Start/Stop Recording toggle, one \<open>MediaRecorder\<close> per grant of the microphone,
  the chunks it delivers into \<open>userChunksRef\<close>, the simulated bot reply that a timer
  appends one second after each user clip, and the download of the conversation. The
  state holds the hooks \<open>recording\<close> and \<open>conversationAudio\<close>, the refs
  \<open>mediaRecorderRef\<close> and \<open>userChunksRef\<close>, every recorder created (so that one the
  ref no longer reaches stays visible), the pending microphone requests and timers, the
  files downloaded and the rejections nothing handles. The updaters these handlers queue
  are pure functions of the previous value and the handlers read \<open>recording\<close> as
  rendered, so the model applies each update when it is made and assumes a render
  between events.
\<close>

subsection \<open>Data\<close>

datatype speaker = User | Bot

text \<open>A Blob: the recorder's data chunks (opaque, numbered), or literal bytes.\<close>

datatype blob = ChunkBlob "nat list" | WavBlob "byte list"

record clip =
  clip_speaker :: speaker
  clip_audio :: blob

text \<open>
  A \<open>MediaRecorder\<close>: recording; stopped, with its final \<open>dataavailable\<close> and
  \<open>stop\<close> events still queued; done. Its \<open>state\<close> attribute is \<open>"recording"\<close> in the
  first phase and \<open>"inactive"\<close> in the other two.
\<close>

datatype rphase = RecActive | RecStopping | RecDone

record rec_state =
  recording :: bool
  conv_audio :: "clip list"
  recorders :: "rphase list"
  media_ref :: "nat option"
  user_chunks :: "nat list"
  mic_requests :: nat
  bot_timers :: nat
  downloads :: "blob list list"
  rec_uncaught :: nat

definition rec_init :: rec_state where
  "rec_init =
     \<lparr>recording = False, conv_audio = [], recorders = [], media_ref = None, user_chunks = [],
      mic_requests = 0, bot_timers = 0, downloads = [], rec_uncaught = 0\<rparr>"

text \<open>The silent WAV file of \<open>simulateBotAudio\<close> (line 273-275), byte for byte.\<close>

definition bot_wav :: "byte list" where
  "bot_wav = [82, 73, 70, 70, 36, 0, 0, 0, 87, 65, 86, 69, 102, 109, 116, 32, 16, 0, 0, 0,
              1, 0, 1, 0, 0, 62, 0, 0, 0, 124, 0, 0, 2, 0, 16, 0, 100, 97, 116, 97, 0, 0, 0, 0]"

subsection \<open>Operations\<close>

text \<open>\<open>startRecording\<close> up to its \<open>await\<close> (lines 241-242): a microphone request.\<close>

definition start_recording :: "rec_state \<Rightarrow> rec_state" where
  "start_recording r = r\<lparr>mic_requests := Suc (mic_requests r)\<rparr>"

text \<open>
  The rest of \<open>startRecording\<close> (lines 243-259), once the microphone is granted: a new
  recorder, a fresh \<open>userChunksRef\<close>, the ref set, \<open>start()\<close>, \<open>setRecording(true)\<close>.
\<close>

definition rec_mic_granted :: "rec_state \<Rightarrow> rec_state" where
  "rec_mic_granted r =
     r\<lparr>mic_requests := mic_requests r - 1, recorders := recorders r @ [RecActive],
       user_chunks := [], media_ref := Some (length (recorders r)), recording := True\<rparr>"

text \<open>A denied request: \<open>startRecording\<close> has no \<open>catch\<close>, its promise rejects unhandled.\<close>

definition rec_mic_denied :: "rec_state \<Rightarrow> rec_state" where
  "rec_mic_denied r = r\<lparr>mic_requests := mic_requests r - 1, rec_uncaught := Suc (rec_uncaught r)\<rparr>"

text \<open>\<open>MediaRecorder.stop()\<close>: a recording recorder stops; an inactive one is left alone.\<close>

definition recorder_stop :: "nat \<Rightarrow> rec_state \<Rightarrow> rec_state" where
  "recorder_stop k r =
     (if k < length (recorders r) \<and> recorders r ! k = RecActive
      then r\<lparr>recorders := (recorders r)[k := RecStopping]\<rparr> else r)"

text \<open>\<open>stopRecording\<close> (lines 263-268).\<close>

definition stop_recording :: "rec_state \<Rightarrow> rec_state" where
  "stop_recording r =
     (case media_ref r of None \<Rightarrow> r | Some k \<Rightarrow> (recorder_stop k r)\<lparr>recording := False\<rparr>)"

text \<open>The toggle button (line 357): its handler is chosen by the rendered \<open>recording\<close>.\<close>

definition rec_toggle :: "rec_state \<Rightarrow> rec_state" where
  "rec_toggle r = (if recording r then stop_recording r else start_recording r)"

text \<open>
  The queued events of a stopped recorder \<open>k\<close>: \<open>ondataavailable\<close> pushes the final
  chunk \<open>c\<close> onto the array \<open>userChunksRef\<close> holds now (line 245), then \<open>onstop\<close>
  (lines 246-256) appends the user clip made of that array and starts the bot timer.
\<close>

definition rec_stop_event :: "nat \<Rightarrow> nat \<Rightarrow> rec_state \<Rightarrow> rec_state" where
  "rec_stop_event k c r =
     (let chunks = user_chunks r @ [c]
      in r\<lparr>user_chunks := chunks, recorders := (recorders r)[k := RecDone],
           conv_audio := conv_audio r @ [\<lparr>clip_speaker = User, clip_audio = ChunkBlob chunks\<rparr>],
           bot_timers := Suc (bot_timers r)\<rparr>)"

text \<open>\<open>simulateBotAudio\<close> (lines 271-281), run by the timer.\<close>

definition simulate_bot_audio :: "rec_state \<Rightarrow> rec_state" where
  "simulate_bot_audio r =
     r\<lparr>bot_timers := bot_timers r - 1,
       conv_audio := conv_audio r @ [\<lparr>clip_speaker = Bot, clip_audio = WavBlob bot_wav\<rparr>]\<rparr>"

text \<open>\<open>downloadConversation\<close> (lines 284-293): one file, the clips' blobs in order.\<close>

definition download_conversation :: "rec_state \<Rightarrow> rec_state" where
  "download_conversation r = r\<lparr>downloads := downloads r @ [map clip_audio (conv_audio r)]\<rparr>"

text \<open>The recording part of \<open>clearAll\<close> (lines 172-183).\<close>

definition clear_all_rec :: "rec_state \<Rightarrow> rec_state" where
  "clear_all_rec r =
     (let r1 = (case media_ref r of Some k \<Rightarrow> if recording r then recorder_stop k r else r | None \<Rightarrow> r)
      in r1\<lparr>recording := False, conv_audio := [], user_chunks := [], media_ref := None\<rparr>)"

subsection \<open>Events\<close>

datatype rec_event =
    RecToggle | RecMicGranted | RecMicDenied | RecStopEvent nat nat | BotTimer | Download
  | RecClear

fun rec_step :: "rec_state \<Rightarrow> rec_event \<Rightarrow> rec_state" where
  "rec_step r RecToggle = rec_toggle r"
| "rec_step r RecMicGranted = rec_mic_granted r"
| "rec_step r RecMicDenied = rec_mic_denied r"
| "rec_step r (RecStopEvent k c) = rec_stop_event k c r"
| "rec_step r BotTimer = simulate_bot_audio r"
| "rec_step r Download = download_conversation r"
| "rec_step r RecClear = clear_all_rec r"

text \<open>
  What the browser delivers: a grant or denial only for a pending request, the queued
  events of a stopped recorder, a timer that was started; the download button is
  disabled while the conversation is empty (line 360).
\<close>

fun rec_enabled :: "rec_state \<Rightarrow> rec_event \<Rightarrow> bool" where
  "rec_enabled r RecMicGranted \<longleftrightarrow> 0 < mic_requests r"
| "rec_enabled r RecMicDenied \<longleftrightarrow> 0 < mic_requests r"
| "rec_enabled r (RecStopEvent k c) \<longleftrightarrow> k < length (recorders r) \<and> recorders r ! k = RecStopping"
| "rec_enabled r BotTimer \<longleftrightarrow> 0 < bot_timers r"
| "rec_enabled r Download \<longleftrightarrow> conv_audio r \<noteq> []"
| "rec_enabled r _ \<longleftrightarrow> True"

inductive rec_reachable :: "rec_state \<Rightarrow> bool" where
  init: "rec_reachable rec_init"
| step: "rec_reachable r \<Longrightarrow> rec_enabled r e \<Longrightarrow> rec_reachable (rec_step r e)"

definition rec_run :: "rec_state \<Rightarrow> rec_event list \<Rightarrow> rec_state" where
  "rec_run r es = fold (\<lambda>e r. rec_step r e) es r"

fun rec_run_enabled :: "rec_state \<Rightarrow> rec_event list \<Rightarrow> bool" where
  "rec_run_enabled r [] = True"
| "rec_run_enabled r (e # es) = (rec_enabled r e \<and> rec_run_enabled (rec_step r e) es)"

text \<open>
  The invariant: \<open>mediaRecorderRef\<close> is unset or holds the newest recorder, and while
  \<open>recording\<close> is set that recorder records.
\<close>

definition rec_inv :: "rec_state \<Rightarrow> bool" where
  "rec_inv r \<longleftrightarrow>
     (media_ref r = None \<or> media_ref r = Some (length (recorders r) - 1) \<and> recorders r \<noteq> []) \<and>
     (recording r \<longrightarrow> media_ref r \<noteq> None \<and> last (recorders r) = RecActive)"

text \<open>Little-endian fields of a byte list, to read the WAV header.\<close>

definition le_u16 :: "byte list \<Rightarrow> nat \<Rightarrow> nat" where
  "le_u16 bs i = unat (bs ! i) + 256 * unat (bs ! Suc i)"

definition le_u32 :: "byte list \<Rightarrow> nat \<Rightarrow> nat" where
  "le_u32 bs i = le_u16 bs i + 65536 * le_u16 bs (i + 2)"

abbreviation double_start :: "rec_event list" where
  "double_start \<equiv> [RecToggle, RecToggle, RecMicGranted, RecMicGranted, RecToggle]"

declare rec_init_def [model_defs] bot_wav_def [model_defs] start_recording_def [model_defs]
  rec_mic_granted_def [model_defs] rec_mic_denied_def [model_defs] recorder_stop_def [model_defs]
  stop_recording_def [model_defs] rec_toggle_def [model_defs] rec_stop_event_def [model_defs]
  simulate_bot_audio_def [model_defs] download_conversation_def [model_defs]
  clear_all_rec_def [model_defs]

subsection \<open>Lemmas and properties\<close>

lemma rec_inv_init: "rec_inv rec_init"
  by (simp add: rec_inv_def rec_init_def)

lemma length_recorder_stop [simp]: "length (recorders (recorder_stop k r)) = length (recorders r)"
  by (simp add: recorder_stop_def)

lemma recorders_recorder_stop_Nil [simp]: "recorders (recorder_stop k r) = [] \<longleftrightarrow> recorders r = []"
  by (simp add: recorder_stop_def)

lemma recorder_stop_fields [simp]:
  "media_ref (recorder_stop k r) = media_ref r" "recording (recorder_stop k r) = recording r"
  "conv_audio (recorder_stop k r) = conv_audio r" "bot_timers (recorder_stop k r) = bot_timers r"
  "mic_requests (recorder_stop k r) = mic_requests r"
  by (simp_all add: recorder_stop_def)

lemma rec_inv_stop_recording: "rec_inv r \<Longrightarrow> rec_inv (stop_recording r)"
  by (auto simp: rec_inv_def stop_recording_def split: option.split)

lemma rec_inv_toggle: "rec_inv r \<Longrightarrow> rec_inv (rec_toggle r)"
  by (simp add: rec_toggle_def rec_inv_stop_recording)
     (simp add: rec_inv_def start_recording_def)

lemma rec_inv_stop_event:
  assumes "rec_inv r" and "rec_enabled r (RecStopEvent k c)"
  shows "rec_inv (rec_stop_event k c r)"
proof -
  have "recording r \<Longrightarrow> k \<noteq> length (recorders r) - 1"
    using assms by (auto simp: rec_inv_def last_conv_nth)
  with assms show ?thesis
    by (auto simp: rec_inv_def rec_stop_event_def Let_def last_list_update)
qed

lemma rec_inv_step: "rec_inv r \<Longrightarrow> rec_enabled r e \<Longrightarrow> rec_inv (rec_step r e)"
proof (cases e)
  case (RecStopEvent k c)
  assume "rec_inv r" "rec_enabled r e"
  with RecStopEvent show ?thesis by (simp add: rec_inv_stop_event)
next
  case RecToggle
  assume "rec_inv r"
  with RecToggle show ?thesis by (simp add: rec_inv_toggle)
qed (auto simp: rec_inv_def rec_mic_granted_def rec_mic_denied_def simulate_bot_audio_def
       download_conversation_def clear_all_rec_def)

lemma rec_reachable_inv: "rec_reachable r \<Longrightarrow> rec_inv r"
  by (induction rule: rec_reachable.induct) (simp_all add: rec_inv_init rec_inv_step)

lemma rec_reachable_run: "rec_reachable r \<Longrightarrow> rec_run_enabled r es \<Longrightarrow> rec_reachable (rec_run r es)"
proof (induction es arbitrary: r)
  case Nil then show ?case by (simp add: rec_run_def)
next
  case (Cons e es)
  then have "rec_reachable (rec_step r e)" by (auto intro: rec_reachable.step)
  with Cons show ?case by (simp add: rec_run_def)
qed

lemma orphan_step:
  assumes "rec_inv r" and "rec_enabled r e" and "Suc k < length (recorders r)"
    and "recorders r ! k = RecActive"
  shows "recorders (rec_step r e) ! k = RecActive \<and> length (recorders r) \<le> length (recorders (rec_step r e))"
proof (cases e)
  case RecToggle
  with assms show ?thesis
    by (auto simp: rec_inv_def rec_toggle_def stop_recording_def start_recording_def
                   recorder_stop_def split: option.split)
next
  case (RecStopEvent j c)
  with assms show ?thesis by (cases "j = k") (auto simp: rec_stop_event_def Let_def)
next
  case RecClear
  with assms show ?thesis
    by (auto simp: rec_inv_def clear_all_rec_def recorder_stop_def Let_def split: option.split)
qed (use assms in \<open>auto simp: rec_mic_granted_def nth_append rec_mic_denied_def
       simulate_bot_audio_def download_conversation_def\<close>)

text \<open>(C35) Type invariant of the recording refs: in every reachable state
  \<open>mediaRecorderRef\<close> is unset or names a recorder that exists, and while
  \<open>recording\<close> is set the recorder it names is in state \<open>"recording"\<close>.\<close>

theorem recording_ref_valid:
  "rec_reachable r \<Longrightarrow>
     (\<forall>k. media_ref r = Some k \<longrightarrow> k < length (recorders r)) \<and>
     (recording r \<longrightarrow> (\<exists>k. media_ref r = Some k \<and> recorders r ! k = RecActive))"
  by (drule rec_reachable_inv) (auto simp: rec_inv_def last_conv_nth)

theorem recording_ref_valid_witness:
  "rec_reachable (rec_run rec_init [RecToggle, RecMicGranted]) \<and>
   recording (rec_run rec_init [RecToggle, RecMicGranted]) \<and>
   media_ref (rec_run rec_init [RecToggle, RecMicGranted]) = Some 0 \<and>
   0 < length (recorders (rec_run rec_init [RecToggle, RecMicGranted])) \<and>
   recorders (rec_run rec_init [RecToggle, RecMicGranted]) ! 0 = RecActive"
proof -
  have r: "rec_reachable (rec_run rec_init [RecToggle, RecMicGranted])"
    by (rule rec_reachable_run [OF rec_reachable.init]) (simp add: model_defs)
  have m: "media_ref (rec_run rec_init [RecToggle, RecMicGranted]) = Some 0"
    and g: "recording (rec_run rec_init [RecToggle, RecMicGranted])"
    by (simp_all add: rec_run_def model_defs)
  show ?thesis using recording_ref_valid [OF r] r m g by auto
qed

text \<open>(C36) A second click on Start Recording before the microphone is granted
  creates two recorders; the ref keeps only the newer one, so the older one is never
  stopped: whatever events follow, a recording recorder that is not the newest stays
  recording.\<close>

theorem orphan_recorder_never_stops:
  assumes "rec_reachable r" and "rec_run_enabled r es" and "Suc k < length (recorders r)"
    and "recorders r ! k = RecActive"
  shows "recorders (rec_run r es) ! k = RecActive"
  using assms
proof (induction es arbitrary: r)
  case Nil then show ?case by (simp add: rec_run_def)
next
  case (Cons e es)
  have inv: "rec_inv r" using Cons.prems(1) by (rule rec_reachable_inv)
  have en: "rec_enabled r e" and en': "rec_run_enabled (rec_step r e) es" using Cons.prems(2) by simp_all
  have "recorders (rec_step r e) ! k = RecActive \<and> length (recorders r) \<le> length (recorders (rec_step r e))"
    using inv en Cons.prems(3,4) by (rule orphan_step)
  moreover have "rec_reachable (rec_step r e)" using Cons.prems(1) en by (rule rec_reachable.step)
  ultimately have "recorders (rec_run (rec_step r e) es) ! k = RecActive"
    using Cons.IH en' Cons.prems(3) by simp
  then show ?case by (simp add: rec_run_def)
qed

theorem orphan_recorder_never_stops_witness:
  "rec_reachable (rec_run rec_init double_start) \<and> rec_run_enabled (rec_run rec_init double_start) [] \<and>
   Suc 0 < length (recorders (rec_run rec_init double_start)) \<and>
   recorders (rec_run rec_init double_start) ! 0 = RecActive \<and>
   recorders (rec_run (rec_run rec_init double_start) []) ! 0 = RecActive \<and>
   \<not> recording (rec_run rec_init double_start)"
proof -
  have r: "rec_reachable (rec_run rec_init double_start)"
    by (rule rec_reachable_run [OF rec_reachable.init]) (simp add: model_defs Let_def)
  have s: "recorders (rec_run rec_init double_start) = [RecActive, RecStopping]"
    "\<not> recording (rec_run rec_init double_start)"
    by (simp_all add: rec_run_def model_defs)
  show ?thesis using orphan_recorder_never_stops [OF r _ _, of "[]" 0] r s by simp
qed

lemma clear_during_recording_refills:
  assumes "rec_reachable r" and "recording r" and "media_ref r = Some k"
  shows "conv_audio (rec_step r RecClear) = [] \<and>
         rec_enabled (rec_step r RecClear) (RecStopEvent k c) \<and>
         conv_audio (rec_step (rec_step r RecClear) (RecStopEvent k c)) =
           [\<lparr>clip_speaker = User, clip_audio = ChunkBlob [c]\<rparr>] \<and>
         0 < bot_timers (rec_step (rec_step r RecClear) (RecStopEvent k c))"
proof -
  have "rec_inv r" using assms(1) by (rule rec_reachable_inv)
  with assms(2,3) have "k = length (recorders r) - 1" "recorders r \<noteq> []" "recorders r ! k = RecActive"
    by (auto simp: rec_inv_def last_conv_nth)
  with assms(2,3) show ?thesis
    by (simp add: clear_all_rec_def recorder_stop_def rec_stop_event_def Let_def)
qed

text \<open>(C37) Progress of a recording: from any reachable state while recording, Stop
  Recording, the stopped recorder's final \<open>dataavailable\<close> and \<open>stop\<close> events and
  the bot timer can each be delivered, and they append the user clip, made of the
  chunks \<open>userChunksRef\<close> holds and the final one, followed by the bot's WAV; a
  download then saves the whole conversation in that order.\<close>

theorem download_user_then_bot:
  assumes "rec_reachable r" and "recording r" and "media_ref r = Some k"
  shows "rec_run_enabled r [RecToggle, RecStopEvent k c, BotTimer, Download] \<and>
         conv_audio (rec_run r [RecToggle, RecStopEvent k c, BotTimer]) =
           conv_audio r @ [\<lparr>clip_speaker = User, clip_audio = ChunkBlob (user_chunks r @ [c])\<rparr>,
                           \<lparr>clip_speaker = Bot, clip_audio = WavBlob bot_wav\<rparr>] \<and>
         last (downloads (rec_run r [RecToggle, RecStopEvent k c, BotTimer, Download])) =
           map clip_audio (conv_audio r) @ [ChunkBlob (user_chunks r @ [c]), WavBlob bot_wav]"
proof -
  have "rec_inv r" using assms(1) by (rule rec_reachable_inv)
  with assms(2,3) have "k < length (recorders r)" "recorders r ! k = RecActive"
    by (auto simp: rec_inv_def last_conv_nth)
  with assms(2,3) show ?thesis
    by (simp add: rec_run_def rec_toggle_def stop_recording_def recorder_stop_def
                  rec_stop_event_def simulate_bot_audio_def download_conversation_def Let_def
             del: bot_wav_def)
qed

theorem download_user_then_bot_witness:
  "rec_reachable (rec_run rec_init [RecToggle, RecMicGranted]) \<and>
   recording (rec_run rec_init [RecToggle, RecMicGranted]) \<and>
   media_ref (rec_run rec_init [RecToggle, RecMicGranted]) = Some 0 \<and>
   last (downloads (rec_run (rec_run rec_init [RecToggle, RecMicGranted])
                           [RecToggle, RecStopEvent 0 7, BotTimer, Download])) =
     [ChunkBlob [7], WavBlob bot_wav]"
proof -
  have r: "rec_reachable (rec_run rec_init [RecToggle, RecMicGranted])"
    by (rule rec_reachable_run [OF rec_reachable.init]) (simp add: model_defs)
  have g: "recording (rec_run rec_init [RecToggle, RecMicGranted])"
    and m: "media_ref (rec_run rec_init [RecToggle, RecMicGranted]) = Some 0"
    and e: "conv_audio (rec_run rec_init [RecToggle, RecMicGranted]) = []"
    and u: "user_chunks (rec_run rec_init [RecToggle, RecMicGranted]) = []"
    by (simp_all add: rec_run_def model_defs)
  show ?thesis using download_user_then_bot [OF r g m, of 7] r g m e u by simp
qed

text \<open>
  The bot clip declares a sample rate of 15872 Hz (bytes 0, 62 at offset 24), mono and
  16-bit, where the rest of the program uses 16000 Hz.
\<close>

lemma bot_wav_sample_rate:
  "le_u32 bot_wav 24 = 15872 \<and> le_u16 bot_wav 22 = 1 \<and> le_u16 bot_wav 34 = 16"
  by (simp add: bot_wav_def le_u32_def le_u16_def)

end
