(* ===== verification/Session.thy ===== *)
theory Session
  imports Transcript Playback Recording
begin

text \<open>
  TransportSession, CaptureEngine and Teardown: the component \<open>App\<close> of src/src/App.jsx
  as an event-driven machine. \<open>startFlow\<close> (lines 68-158) checks the token, opens a
  WebSocket and installs its handlers; the \<open>onopen\<close> handler (lines 78-111) is
  asynchronous, so its continuations after \<open>getUserMedia\<close> and after
  \<open>audioWorklet.addModule\<close> are separate events; \<open>onmessage\<close> (lines 113-154)
  dispatches text to the correlator and binary data to \<open>playAudioChunk\<close>;
  \<open>onclose\<close> and \<open>onerror\<close> run \<open>stopFlow\<close> (lines 161-170), which the Stop button
  runs too. Every WebSocket, microphone stream, worklet node and media-stream source ever
  created is kept in a list, with the ref pointing at the latest, so that resources the
  refs no longer reach stay visible. Each socket records the playback speed that its
  \<open>onmessage\<close> closure holds: the handlers are those of the render in which Start was
  clicked. The recording feature (theory \<open>Recording\<close>) is the field \<open>rec\<close>, driven
  by the events \<open>RecEv\<close> and by Clear; the token controls are \<open>token_fetched\<close> and
  \<open>copy_token\<close>. The invariant \<open>app_inv\<close> and the lemmas the
  properties of \<open>SessionProps\<close> use are proved here.
\<close>

subsection \<open>Data\<close>

datatype ready_state = Connecting | Open | Closing | Closed_ws

text \<open>The numeric values of \<open>WebSocket.readyState\<close>, which order the states.\<close>

fun ready_code :: "ready_state \<Rightarrow> nat" where
  "ready_code Connecting = 0"
| "ready_code Open = 1"
| "ready_code Closing = 2"
| "ready_code Closed_ws = 3"

instantiation ready_state :: linorder
begin

definition less_eq_ready_state :: "ready_state \<Rightarrow> ready_state \<Rightarrow> bool" where
  "less_eq_ready_state a b \<longleftrightarrow> ready_code a \<le> ready_code b"

definition less_ready_state :: "ready_state \<Rightarrow> ready_state \<Rightarrow> bool" where
  "less_ready_state a b \<longleftrightarrow> ready_code a < ready_code b"

instance
proof
  fix a b :: ready_state
  show "a \<le> b \<Longrightarrow> b \<le> a \<Longrightarrow> a = b"
    by (cases a; cases b) (simp_all add: less_eq_ready_state_def)
qed (auto simp: less_eq_ready_state_def less_ready_state_def)

end

datatype out_msg = StartConversation | AudioOut "byte list"

datatype open_stage = Waiting_open | Awaiting_mic | Awaiting_module | Open_done

record conn =
  ws_ready :: ready_state
  ws_sent :: "out_msg list"
  ws_speed :: rat
  ws_stage :: open_stage

record worklet =
  wk_conn :: nat
  wk_connected :: bool

datatype alert = TokenAlert | MicAlert | FetchAlert | CopyAlert

datatype inbound = TextMsg string parsed | BinaryMsg "byte list"

record app = transcript +
  token :: string
  speed :: rat
  conns :: "conn list"
  ws_ref :: "nat option"
  mics :: "bool list"
  mic_ref :: "nat option"
  worklets :: "worklet list"
  worklet_ref :: "nat option"
  msources :: "bool list"
  msource_ref :: "nat option"
  pb :: playback
  alerts :: "alert list"
  rec :: rec_state
  clipboard :: "string option"

definition app_init :: app where
  "app_init =
     \<lparr>last_prompt = None, prompt_pairs = [], messages = [], pending = [], scheduled = False,
      token = [], speed = 1, conns = [], ws_ref = None, mics = [], mic_ref = None,
      worklets = [], worklet_ref = None, msources = [], msource_ref = None,
      pb = playback_init, alerts = [], rec = rec_init, clipboard = None\<rparr>"

subsection \<open>Handlers\<close>

text \<open>\<open>token.trim()\<close> is empty: every character is white space or a line terminator.\<close>

definition blank :: "string \<Rightarrow> bool" where
  "blank s \<longleftrightarrow> (\<forall>c \<in> set s. js_space c)"

definition update_conn :: "nat \<Rightarrow> (conn \<Rightarrow> conn) \<Rightarrow> app \<Rightarrow> app" where
  "update_conn i f s = s\<lparr>conns := (conns s)[i := f (conns s ! i)]\<rparr>"

text \<open>
  \<open>startFlow\<close>, lines 69-76 and 156-157: a blank token raises an alert and returns;
  otherwise a new socket in state CONNECTING becomes \<open>wsRef.current\<close>. The handlers it
  installs hold the current render's \<open>playbackSpeed\<close>.
\<close>

definition start_flow :: "app \<Rightarrow> app" where
  "start_flow s =
     (if blank (token s) then s\<lparr>alerts := alerts s @ [TokenAlert]\<rparr>
      else s\<lparr>conns := conns s @ [\<lparr>ws_ready = Connecting, ws_sent = [], ws_speed = speed s,
                                  ws_stage = Waiting_open\<rparr>],
             ws_ref := Some (length (conns s))\<rparr>)"

text \<open>\<open>ws.onopen\<close> up to its first \<open>await\<close> (lines 78-92): the control message.\<close>

definition ws_onopen :: "nat \<Rightarrow> app \<Rightarrow> app" where
  "ws_onopen i s =
     update_conn i (\<lambda>c. c\<lparr>ws_ready := Open, ws_sent := ws_sent c @ [StartConversation],
                          ws_stage := Awaiting_mic\<rparr>) s"

text \<open>
  \<open>getUserMedia\<close> resolved (lines 93-96 up to \<open>addModule\<close>): the stream goes to
  \<open>micStreamRef\<close>, a new AudioContext to \<open>audioCtxRef\<close>; the cursor is not reset.
\<close>

definition mic_granted :: "nat \<Rightarrow> app \<Rightarrow> app" where
  "mic_granted i s =
     (update_conn i (\<lambda>c. c\<lparr>ws_stage := Awaiting_module\<rparr>) s)
       \<lparr>mics := mics s @ [True], mic_ref := Some (length (mics s)), pb := open_ctx (pb s)\<rparr>"

text \<open>
  \<open>addModule\<close> resolved (lines 97-107): a worklet node whose port handler closes over
  this socket becomes \<open>workletNodeRef\<close>, and the microphone source, connected to it,
  becomes \<open>sourceRef\<close>.
\<close>

definition module_loaded :: "nat \<Rightarrow> app \<Rightarrow> app" where
  "module_loaded i s =
     (update_conn i (\<lambda>c. c\<lparr>ws_stage := Open_done\<rparr>) s)
       \<lparr>worklets := worklets s @ [\<lparr>wk_conn = i, wk_connected = True\<rparr>],
        worklet_ref := Some (length (worklets s)),
        msources := msources s @ [True], msource_ref := Some (length (msources s))\<rparr>"

text \<open>The \<open>catch\<close> of lines 108-110: either await rejected; an alert, the socket stays open.\<close>

definition mic_failed :: "nat \<Rightarrow> app \<Rightarrow> app" where
  "mic_failed i s =
     (update_conn i (\<lambda>c. c\<lparr>ws_stage := Open_done\<rparr>) s)\<lparr>alerts := alerts s @ [MicAlert]\<rparr>"

text \<open>
  \<open>workletNode.port.onmessage\<close> (lines 100-104) of worklet \<open>k\<close> on one render quantum:
  the frame \<open>process\<close> posts is sent on the worklet's own socket if it is OPEN, and
  dropped otherwise.
\<close>

definition worklet_frame :: "nat \<Rightarrow> jsnum list list \<Rightarrow> app \<Rightarrow> app" where
  "worklet_frame k chans s =
     (case fst (pcm_process chans) of
        None \<Rightarrow> s
      | Some bytes \<Rightarrow>
          (let i = wk_conn (worklets s ! k)
           in if ws_ready (conns s ! i) = Open
              then update_conn i (\<lambda>c. c\<lparr>ws_sent := ws_sent c @ [AudioOut bytes]\<rparr>) s
              else s))"

text \<open>
  \<open>ws.onmessage\<close> (lines 113-154): text goes to the correlator; binary data is logged
  as its first 16 bytes and played at the speed the socket's closure holds.
\<close>

definition ws_onmessage :: "nat \<Rightarrow> inbound \<Rightarrow> app \<Rightarrow> app" where
  "ws_onmessage i m s =
     (case m of
        TextMsg raw p \<Rightarrow> on_text_app raw p s
      | BinaryMsg bs \<Rightarrow>
          (let s1 = set_state (PushMessage (LogBinary (take 16 bs))) s
           in s1\<lparr>pb := play_audio_chunk (ws_speed (conns s ! i)) bs (pb s1)\<rparr>))"

text \<open>
  \<open>stopFlow\<close> (lines 161-170): each step guarded by its ref being set; the refs are not
  cleared. \<open>WebSocket.close()\<close> moves a CONNECTING or OPEN socket to CLOSING and does
  nothing otherwise.
\<close>

definition close_ws :: "conn \<Rightarrow> conn" where
  "close_ws c = (if ws_ready c = Connecting \<or> ws_ready c = Open then c\<lparr>ws_ready := Closing\<rparr> else c)"

definition stop_flow :: "app \<Rightarrow> app" where
  "stop_flow s =
     (let s1 = (case worklet_ref s of None \<Rightarrow> s
                | Some k \<Rightarrow> s\<lparr>worklets := (worklets s)[k := (worklets s ! k)\<lparr>wk_connected := False\<rparr>]\<rparr>);
          s2 = (case msource_ref s1 of None \<Rightarrow> s1
                | Some k \<Rightarrow> s1\<lparr>msources := (msources s1)[k := False]\<rparr>);
          s3 = (case mic_ref s2 of None \<Rightarrow> s2
                | Some k \<Rightarrow> s2\<lparr>mics := (mics s2)[k := False]\<rparr>);
          s4 = s3\<lparr>pb := close_ctx (pb s3)\<rparr>;
          s5 = (case ws_ref s4 of None \<Rightarrow> s4 | Some j \<Rightarrow> update_conn j close_ws s4)
      in s5\<lparr>pb := (pb s5)\<lparr>next_play_time := 0\<rparr>\<rparr>)"

text \<open>\<open>ws.onclose\<close>: the socket is CLOSED, then \<open>stopFlow\<close> runs.\<close>

definition ws_onclose :: "nat \<Rightarrow> app \<Rightarrow> app" where
  "ws_onclose i s = stop_flow (update_conn i (\<lambda>c. c\<lparr>ws_ready := Closed_ws\<rparr>) s)"

text \<open>
  \<open>ws.onerror\<close> (line 157): a failing socket takes no more data, then \<open>stopFlow\<close> runs.
  The browser has set it CLOSED already; here it is CLOSING until its \<open>close\<close> event,
  which always follows, and no handler tells the two apart: \<open>close()\<close> does nothing
  to either, and only OPEN sockets take messages or frames.
\<close>

definition ws_onerror :: "nat \<Rightarrow> app \<Rightarrow> app" where
  "ws_onerror i s = stop_flow (update_conn i (\<lambda>c. c\<lparr>ws_ready := Closing\<rparr>) s)"

text \<open>
  \<open>clearAll\<close> of App.jsx (lines 172-183) resets the recording state
  (\<open>clear_all_rec\<close>) and clears nothing else. Of its two setters,
  \<open>setRecording(false)\<close> queues an update only when the value changes (React drops an
  eagerly computed update equal to the current state), \<open>setConversationAudio([])\<close>
  always does. That of poc2.jsx (lines 163-165) clears the message log.
\<close>

definition clear_all_app :: "app \<Rightarrow> app" where
  "clear_all_app s =
     (let s1 = (if recording (rec s) then set_state OtherHook s else s)
      in (set_state OtherHook s1)\<lparr>rec := clear_all_rec (rec s)\<rparr>)"

definition clear_all_poc2 :: "app \<Rightarrow> app" where
  "clear_all_poc2 s = set_state ClearMessages s"

text \<open>
  Whether a recording event calls a state setter that queues an update: \<open>stopRecording\<close>
  sets \<open>recording\<close> from true to false, the grant sets it to true (an update only if it
  was false), \<open>onstop\<close> and the bot timer append to \<open>conversationAudio\<close>.
\<close>

fun rec_sets_state :: "rec_state \<Rightarrow> rec_event \<Rightarrow> bool" where
  "rec_sets_state r RecToggle \<longleftrightarrow> recording r \<and> media_ref r \<noteq> None"
| "rec_sets_state r RecMicGranted \<longleftrightarrow> \<not> recording r"
| "rec_sets_state r (RecStopEvent k c) \<longleftrightarrow> True"
| "rec_sets_state r BotTimer \<longleftrightarrow> True"
| "rec_sets_state r _ \<longleftrightarrow> False"

definition rec_event_app :: "rec_event \<Rightarrow> app \<Rightarrow> app" where
  "rec_event_app e s =
     (if rec_sets_state (rec s) e then set_state OtherHook s else s)\<lparr>rec := rec_step (rec s) e\<rparr>"

text \<open>
  \<open>fetchToken\<close> (lines 23-41) once its promises settle: \<open>None\<close> when \<open>fetch\<close> or
  \<open>res.json()\<close> rejected or the body is \<open>null\<close> (the \<open>catch\<close> raises the alert);
  otherwise the body's \<open>key_value\<close> string, if any, which becomes the token when it is
  truthy. A body without the field, such as an HTTP error's, is ignored silently.
\<close>

definition token_fetched :: "string option option \<Rightarrow> app \<Rightarrow> app" where
  "token_fetched res s =
     (case res of
        None \<Rightarrow> s\<lparr>alerts := alerts s @ [FetchAlert]\<rparr>
      | Some kv \<Rightarrow> (case kv of Some v \<Rightarrow> if v = [] then s else set_state (SetToken v) s | None \<Rightarrow> s))"

text \<open>
  The Copy Token button (lines 318-334): both branches copy the rendered token, by the
  Clipboard API or by selecting the input that displays it, and alert.
\<close>

definition copy_token :: "app \<Rightarrow> app" where
  "copy_token s = s\<lparr>clipboard := Some (token s), alerts := alerts s @ [CopyAlert]\<rparr>"

text \<open>
  A render commits the queued updates: those of the token and the speed hooks here, the
  transcript's through \<open>render_transcript\<close>.
\<close>

fun commit_hook :: "hook_update \<Rightarrow> app \<Rightarrow> app" where
  "commit_hook (SetSpeed v) s = s\<lparr>speed := v\<rparr>"
| "commit_hook (SetToken v) s = s\<lparr>token := v\<rparr>"
| "commit_hook _ s = s"

definition render_app :: "app \<Rightarrow> app" where
  "render_app s = render_transcript (fold commit_hook (pending s) s)"

subsection \<open>Events\<close>

datatype app_event =
    Start | Stop | Clear | Render
  | SpeedInput rat | TokenInput string
  | WsOpen nat | WsMessage nat inbound | WsError nat | WsClosed nat
  | MicGranted nat | MicDenied nat | ModuleLoaded nat | ModuleFailed nat
  | WorkletFrame nat "jsnum list list" | Tick rat | SourceEnded nat
  | RecEv rec_event | TokenFetched "string option option" | CopyToken

fun app_step :: "app \<Rightarrow> app_event \<Rightarrow> app" where
  "app_step s Start = start_flow s"
| "app_step s Stop = stop_flow s"
| "app_step s Clear = clear_all_app s"
| "app_step s Render = render_app s"
| "app_step s (SpeedInput v) = set_state (SetSpeed v) s"
| "app_step s (TokenInput v) = set_state (SetToken v) s"
| "app_step s (WsOpen i) = ws_onopen i s"
| "app_step s (WsMessage i m) = ws_onmessage i m s"
| "app_step s (WsError i) = ws_onerror i s"
| "app_step s (WsClosed i) = ws_onclose i s"
| "app_step s (MicGranted i) = mic_granted i s"
| "app_step s (MicDenied i) = mic_failed i s"
| "app_step s (ModuleLoaded i) = module_loaded i s"
| "app_step s (ModuleFailed i) = mic_failed i s"
| "app_step s (WorkletFrame k chans) = worklet_frame k chans s"
| "app_step s (Tick dt) = s\<lparr>pb := advance_clock dt (pb s)\<rparr>"
| "app_step s (SourceEnded k) = s\<lparr>pb := source_ended k (pb s)\<rparr>"
| "app_step s (RecEv e) = rec_event_app e s"
| "app_step s (TokenFetched res) = token_fetched res s"
| "app_step s CopyToken = copy_token s"

text \<open>
  poc2.jsx wires the same handlers to the same events (its \<open>startFlow\<close>, lines 66-150,
  differs from App.jsx only in the text branch of \<open>onmessage\<close>, lines 111-146), except
  that its Clear button runs its own \<open>clearAll\<close> (lines 163-165) and that it has no
  recording feature: the recording events do not occur and leave the state alone.
\<close>

definition ws_onmessage_poc2 :: "nat \<Rightarrow> inbound \<Rightarrow> app \<Rightarrow> app" where
  "ws_onmessage_poc2 i m s =
     (case m of
        TextMsg raw p \<Rightarrow> on_text_poc2 raw p s
      | BinaryMsg bs \<Rightarrow>
          (let s1 = set_state (PushMessage (LogBinary (take 16 bs))) s
           in s1\<lparr>pb := play_audio_chunk (ws_speed (conns s ! i)) bs (pb s1)\<rparr>))"

fun app_step_poc2 :: "app \<Rightarrow> app_event \<Rightarrow> app" where
  "app_step_poc2 s Start = start_flow s"
| "app_step_poc2 s Stop = stop_flow s"
| "app_step_poc2 s Clear = clear_all_poc2 s"
| "app_step_poc2 s Render = render_app s"
| "app_step_poc2 s (SpeedInput v) = set_state (SetSpeed v) s"
| "app_step_poc2 s (TokenInput v) = set_state (SetToken v) s"
| "app_step_poc2 s (WsOpen i) = ws_onopen i s"
| "app_step_poc2 s (WsMessage i m) = ws_onmessage_poc2 i m s"
| "app_step_poc2 s (WsError i) = ws_onerror i s"
| "app_step_poc2 s (WsClosed i) = ws_onclose i s"
| "app_step_poc2 s (MicGranted i) = mic_granted i s"
| "app_step_poc2 s (MicDenied i) = mic_failed i s"
| "app_step_poc2 s (ModuleLoaded i) = module_loaded i s"
| "app_step_poc2 s (ModuleFailed i) = mic_failed i s"
| "app_step_poc2 s (WorkletFrame k chans) = worklet_frame k chans s"
| "app_step_poc2 s (Tick dt) = s\<lparr>pb := advance_clock dt (pb s)\<rparr>"
| "app_step_poc2 s (SourceEnded k) = s\<lparr>pb := source_ended k (pb s)\<rparr>"
| "app_step_poc2 s (RecEv e) = s"
| "app_step_poc2 s (TokenFetched res) = token_fetched res s"
| "app_step_poc2 s CopyToken = copy_token s"

text \<open>
  The values the speed slider delivers (lines 344-351): \<open>min="0.5" max="2" step="0.1"\<close>,
  read by \<open>parseFloat\<close> from the input's value string, that is the tenths from 0.5 to 2.
\<close>

definition slider_values :: "rat list" where
  "slider_values = map (\<lambda>k. of_nat k / 10) [5..<21]"

text \<open>
  What the browser can deliver in a state: socket events in the order the WebSocket
  standard allows (messages only while OPEN), the continuations of \<open>onopen\<close> at the
  point where it awaits, frames from connected worklet nodes, slider values on
  the steps of its range, a clock that does not go back. An \<open>error\<close> event comes only from a CONNECTING or
  OPEN socket.
\<close>

fun enabled :: "app \<Rightarrow> app_event \<Rightarrow> bool" where
  "enabled s (WsOpen i) \<longleftrightarrow> i < length (conns s) \<and> ws_ready (conns s ! i) = Connecting"
| "enabled s (WsMessage i m) \<longleftrightarrow> i < length (conns s) \<and> ws_ready (conns s ! i) = Open"
| "enabled s (WsError i) \<longleftrightarrow>
     i < length (conns s) \<and> (ws_ready (conns s ! i) = Connecting \<or> ws_ready (conns s ! i) = Open)"
| "enabled s (WsClosed i) \<longleftrightarrow> i < length (conns s) \<and> ws_ready (conns s ! i) \<noteq> Closed_ws"
| "enabled s (MicGranted i) \<longleftrightarrow> i < length (conns s) \<and> ws_stage (conns s ! i) = Awaiting_mic"
| "enabled s (MicDenied i) \<longleftrightarrow> i < length (conns s) \<and> ws_stage (conns s ! i) = Awaiting_mic"
| "enabled s (ModuleLoaded i) \<longleftrightarrow> i < length (conns s) \<and> ws_stage (conns s ! i) = Awaiting_module"
| "enabled s (ModuleFailed i) \<longleftrightarrow> i < length (conns s) \<and> ws_stage (conns s ! i) = Awaiting_module"
| "enabled s (WorkletFrame k chans) \<longleftrightarrow> k < length (worklets s) \<and> wk_connected (worklets s ! k)"
| "enabled s (SpeedInput v) \<longleftrightarrow> v \<in> set slider_values"
| "enabled s (Tick dt) \<longleftrightarrow> 0 \<le> dt"
| "enabled s (RecEv e) \<longleftrightarrow> e \<noteq> RecClear \<and> rec_enabled (rec s) e"
| "enabled s _ \<longleftrightarrow> True"

inductive reachable :: "app \<Rightarrow> bool" where
  init: "reachable app_init"
| step: "reachable s \<Longrightarrow> enabled s e \<Longrightarrow> reachable (app_step s e)"

text \<open>The states of poc2.jsx: the same browser events, handled by \<open>app_step_poc2\<close>.\<close>

inductive reachable_poc2 :: "app \<Rightarrow> bool" where
  init: "reachable_poc2 app_init"
| step: "reachable_poc2 s \<Longrightarrow> enabled s e \<Longrightarrow> reachable_poc2 (app_step_poc2 s e)"

declare app_init_def [model_defs] blank_def [model_defs] update_conn_def [model_defs]
  start_flow_def [model_defs] ws_onopen_def [model_defs] mic_granted_def [model_defs]
  module_loaded_def [model_defs] mic_failed_def [model_defs] worklet_frame_def [model_defs]
  ws_onmessage_def [model_defs] close_ws_def [model_defs] stop_flow_def [model_defs]
  ws_onclose_def [model_defs] ws_onerror_def [model_defs] clear_all_app_def [model_defs] clear_all_poc2_def [model_defs]
  render_app_def [model_defs] rec_event_app_def [model_defs] token_fetched_def [model_defs]
  copy_token_def [model_defs]


subsection \<open>Invariant and runs\<close>

definition conn_ok :: "conn \<Rightarrow> bool" where
  "conn_ok c \<longleftrightarrow>
     (ws_ready c = Connecting \<longrightarrow> ws_sent c = []) \<and> (ws_ready c = Open \<longrightarrow> ws_sent c \<noteq> []) \<and>
     (case ws_sent c of [] \<Rightarrow> True | m # ms \<Rightarrow> m = StartConversation \<and> StartConversation \<notin> set ms)"

fun speed_ok :: "hook_update \<Rightarrow> bool" where
  "speed_ok (SetSpeed v) \<longleftrightarrow> 0 < v"
| "speed_ok _ \<longleftrightarrow> True"

definition running :: "playback \<Rightarrow> bool" where
  "running p \<longleftrightarrow> (case audio_ctx p of Some c \<Rightarrow> actx_state c = Running | None \<Rightarrow> False)"

definition pb_ok :: "playback \<Rightarrow> bool" where
  "pb_ok p \<longleftrightarrow> pb_base p \<and> (running p \<longrightarrow> timeline_ok p)"

definition app_inv :: "app \<Rightarrow> bool" where
  "app_inv s \<longleftrightarrow>
     (\<forall>c \<in> set (conns s). conn_ok c \<and> 0 < ws_speed c) \<and> 0 < speed s \<and>
     (\<forall>u \<in> set (pending s). speed_ok u) \<and> pb_ok (pb s)"

definition run :: "app \<Rightarrow> app_event list \<Rightarrow> app" where
  "run s es = fold (\<lambda>e s. app_step s e) es s"

fun run_enabled :: "app \<Rightarrow> app_event list \<Rightarrow> bool" where
  "run_enabled s [] = True"
| "run_enabled s (e # es) = (enabled s e \<and> run_enabled (app_step s e) es)"

abbreviation session_run :: "app_event list" where
  "session_run \<equiv> [TokenInput ''t'', Render, Start, WsOpen 0, MicGranted 0, ModuleLoaded 0,
                  WorkletFrame 0 [[Num (1 / 2)]], WsMessage 0 (BinaryMsg [1, 0, 2, 0])]"

abbreviation opened_run :: "app_event list" where
  "opened_run \<equiv> [TokenInput ''t'', Render, Start, WsOpen 0]"

fun is_text_event :: "app_event \<Rightarrow> bool" where
  "is_text_event (WsMessage i (TextMsg raw p)) = True"
| "is_text_event _ = False"

abbreviation stop_during_prompt :: "app_event list" where
  "stop_during_prompt \<equiv> [TokenInput ''t'', Render, Start, WsOpen 0, Stop, WsClosed 0]"

abbreviation early_audio :: "app_event list" where
  "early_audio \<equiv> [TokenInput ''t'', Render, Start, WsOpen 0, WsMessage 0 (BinaryMsg [1, 0, 2, 0])]"

text \<open>
  Sockets only move forward: no socket is dropped from the list of sockets ever
  opened, and each one's \<open>readyState\<close> never decreases.
\<close>

definition conns_mono :: "conn list \<Rightarrow> conn list \<Rightarrow> bool" where
  "conns_mono xs ys \<longleftrightarrow>
     length xs \<le> length ys \<and> list_all2 (\<lambda>c d. ws_ready c \<le> ws_ready d) xs (take (length xs) ys)"

text \<open>The events that take a session from Start to the first audio frame sent.\<close>

abbreviation capture_events :: "app \<Rightarrow> jsnum list \<Rightarrow> app_event list" where
  "capture_events s input \<equiv>
     [Start, WsOpen (length (conns s)), MicGranted (length (conns s)),
      ModuleLoaded (length (conns s)), WorkletFrame (length (worklets s)) [input]]"

subsection \<open>Lemmas\<close>

lemma pb_ok_play: "pb_ok p \<Longrightarrow> 0 < v \<Longrightarrow> pb_ok (play_audio_chunk v bs p)"
proof -
  assume ok: "pb_ok p" and v: "0 < v"
  then have base: "pb_base p" by (simp add: pb_ok_def)
  show ?thesis
  proof (cases "audio_ctx p")
    case None
    with base have "pb_inv p" by (rule pb_inv_no_ctx)
    then have "pb_inv (play_audio_chunk v bs p)" using v by (rule pb_inv_play)
    then show ?thesis by (simp add: pb_ok_def pb_inv_def)
  next
    case (Some c)
    then have ctx: "audio_ctx (play_audio_chunk v bs p) = Some c"
      by (simp add: play_audio_chunk_def Let_def split: option.split)
    show ?thesis
    proof (cases "actx_state c = Running")
      case True
      with ok Some have "pb_inv p" by (simp add: pb_ok_def pb_inv_def running_def)
      then have "pb_inv (play_audio_chunk v bs p)" using v by (rule pb_inv_play)
      then show ?thesis by (simp add: pb_ok_def pb_inv_def)
    next
      case False
      with ctx base v show ?thesis by (simp add: pb_ok_def running_def pb_base_play)
    qed
  qed
qed

lemma pb_ok_advance: "pb_ok p \<Longrightarrow> 0 \<le> dt \<Longrightarrow> pb_ok (advance_clock dt p)"
proof (cases "running p")
  case True
  assume "pb_ok p" "0 \<le> dt"
  with True have "pb_inv (advance_clock dt p)"
    by (intro pb_inv_advance) (simp_all add: pb_ok_def pb_inv_def)
  then show ?thesis by (simp add: pb_ok_def pb_inv_def)
next
  case False
  assume "pb_ok p" "0 \<le> dt"
  moreover from False have "advance_clock dt p = p"
    by (auto simp: running_def advance_clock_def split: option.splits)
  ultimately show ?thesis by simp
qed

lemma running_ended [simp]: "running (source_ended i p) = running p"
  by (simp add: running_def source_ended_def)

lemma timeline_ok_ended: "pb_base p \<Longrightarrow> timeline_ok p \<Longrightarrow> timeline_ok (source_ended i p)"
  using pb_inv_ended [of p i] by (simp add: pb_inv_def)

lemma pb_ok_ended: "pb_ok p \<Longrightarrow> pb_ok (source_ended i p)"
  by (simp add: pb_ok_def pb_base_ended timeline_ok_ended)

lemma pb_ok_open: "pb_ok p \<Longrightarrow> pb_ok (open_ctx p)"
  using pb_inv_open_ctx [of p] by (simp add: pb_ok_def pb_inv_def)

lemma pb_ok_stop: "pb_ok p \<Longrightarrow> pb_ok ((close_ctx p)\<lparr>next_play_time := 0\<rparr>)"
  by (auto simp: pb_ok_def pb_base_def close_ctx_def running_def split: option.splits)

lemma stop_flow_fields [simp]:
  "pb (stop_flow s) = (close_ctx (pb s))\<lparr>next_play_time := 0\<rparr>"
  "conns (stop_flow s) =
     (case ws_ref s of None \<Rightarrow> conns s | Some j \<Rightarrow> (conns s)[j := close_ws (conns s ! j)])"
  "speed (stop_flow s) = speed s" "pending (stop_flow s) = pending s"
  "last_prompt (stop_flow s) = last_prompt s" "prompt_pairs (stop_flow s) = prompt_pairs s"
  "messages (stop_flow s) = messages s" "token (stop_flow s) = token s"
  "ws_ref (stop_flow s) = ws_ref s" "alerts (stop_flow s) = alerts s" "rec (stop_flow s) = rec s"
  by (simp_all add: stop_flow_def update_conn_def Let_def split: option.split)

lemma conn_ok_close_ws: "conn_ok c \<Longrightarrow> conn_ok (close_ws c)"
  by (simp add: conn_ok_def close_ws_def)

lemma ws_speed_close_ws [simp]: "ws_speed (close_ws c) = ws_speed c"
  by (simp add: close_ws_def)

lemma app_inv_stop: "app_inv s \<Longrightarrow> app_inv (stop_flow s)"
proof -
  assume inv: "app_inv s"
  have "\<forall>c \<in> set (conns (stop_flow s)). conn_ok c \<and> 0 < ws_speed c"
  proof (cases "ws_ref s")
    case None
    with inv show ?thesis by (simp add: app_inv_def)
  next
    case (Some j)
    have "\<forall>c \<in> set ((conns s)[j := close_ws (conns s ! j)]). conn_ok c \<and> 0 < ws_speed c"
      by (rule ball_update_nth) (use inv in \<open>auto simp: app_inv_def conn_ok_close_ws\<close>)
    with Some show ?thesis by simp
  qed
  with inv show ?thesis by (simp add: app_inv_def pb_ok_stop)
qed

lemma speed_ok_eager [simp]: "speed_ok (eager_update t u) = speed_ok u"
  by (cases u) simp_all

lemma app_inv_set_state: "app_inv s \<Longrightarrow> speed_ok u \<Longrightarrow> app_inv (set_state u s)"
  by (auto simp: app_inv_def set_state_def)

lemma speed_commit: "\<forall>u \<in> set us. speed_ok u \<Longrightarrow> 0 < speed s \<Longrightarrow> 0 < speed (fold commit_hook us s)"
proof (induction us arbitrary: s)
  case Nil then show ?case by simp
next
  case (Cons u us)
  then show ?case by (cases u) simp_all
qed

lemma commit_hook_fields [simp]:
  "conns (commit_hook u s) = conns s" "pb (commit_hook u s) = pb s"
  "pending (commit_hook u s) = pending s" "last_prompt (commit_hook u s) = last_prompt s"
  "messages (commit_hook u s) = messages s" "prompt_pairs (commit_hook u s) = prompt_pairs s"
  "rec (commit_hook u s) = rec s"
  "ws_ref (commit_hook u s) = ws_ref s" "mics (commit_hook u s) = mics s"
  "mic_ref (commit_hook u s) = mic_ref s" "worklets (commit_hook u s) = worklets s"
  "worklet_ref (commit_hook u s) = worklet_ref s" "msources (commit_hook u s) = msources s"
  "msource_ref (commit_hook u s) = msource_ref s" "alerts (commit_hook u s) = alerts s"
  by (cases u; simp)+

lemma fold_commit_hook_fields [simp]:
  "conns (fold commit_hook us s) = conns s" "pb (fold commit_hook us s) = pb s"
  "pending (fold commit_hook us s) = pending s" "last_prompt (fold commit_hook us s) = last_prompt s"
  "messages (fold commit_hook us s) = messages s" "prompt_pairs (fold commit_hook us s) = prompt_pairs s"
  "rec (fold commit_hook us s) = rec s"
  "ws_ref (fold commit_hook us s) = ws_ref s" "mics (fold commit_hook us s) = mics s"
  "mic_ref (fold commit_hook us s) = mic_ref s" "worklets (fold commit_hook us s) = worklets s"
  "worklet_ref (fold commit_hook us s) = worklet_ref s" "msources (fold commit_hook us s) = msources s"
  "msource_ref (fold commit_hook us s) = msource_ref s" "alerts (fold commit_hook us s) = alerts s"
  by (induction us arbitrary: s) simp_all

lemma apply_update_app [simp]:
  "conns (apply_update u s) = conns s" "pb (apply_update u s) = pb s"
  "speed (apply_update u s) = speed s" "rec (apply_update u s) = rec s"
  "token (apply_update u s) = token s"
  "ws_ref (apply_update u s) = ws_ref s" "mics (apply_update u s) = mics s"
  "mic_ref (apply_update u s) = mic_ref s" "worklets (apply_update u s) = worklets s"
  "worklet_ref (apply_update u s) = worklet_ref s" "msources (apply_update u s) = msources s"
  "msource_ref (apply_update u s) = msource_ref s" "alerts (apply_update u s) = alerts s"
  by (cases u; simp)+

lemma fold_apply_update_app [simp]:
  "conns (fold apply_update us s) = conns s" "pb (fold apply_update us s) = pb s"
  "speed (fold apply_update us s) = speed s" "rec (fold apply_update us s) = rec s"
  "token (fold apply_update us s) = token s"
  "ws_ref (fold apply_update us s) = ws_ref s" "mics (fold apply_update us s) = mics s"
  "mic_ref (fold apply_update us s) = mic_ref s" "worklets (fold apply_update us s) = worklets s"
  "worklet_ref (fold apply_update us s) = worklet_ref s" "msources (fold apply_update us s) = msources s"
  "msource_ref (fold apply_update us s) = msource_ref s" "alerts (fold apply_update us s) = alerts s"
  by (induction us arbitrary: s) simp_all

lemma render_transcript_fields [simp]:
  "conns (render_transcript s) = conns s" "pb (render_transcript s) = pb s"
  "speed (render_transcript s) = speed s" "pending (render_transcript s) = []"
  "rec (render_transcript s) = rec s"
  by (simp_all add: render_transcript_def)

lemma set_state_app_fields [simp]:
  "conns (set_state u s) = conns s" "pb (set_state u s) = pb s" "speed (set_state u s) = speed s"
  "rec (set_state u s) = rec s"
  by (simp_all add: set_state_def)

lemma app_inv_render: "app_inv s \<Longrightarrow> app_inv (render_app s)"
  unfolding app_inv_def render_app_def
  by (auto simp: render_transcript_def speed_commit)

lemma on_text_app_fields [simp]:
  "conns (on_text_app raw p s) = conns s" "pb (on_text_app raw p s) = pb s"
  "speed (on_text_app raw p s) = speed s"
  by (simp_all add: on_text_app_def set_state_def Let_def split: parsed.split)

lemma app_inv_on_text: "app_inv s \<Longrightarrow> app_inv (on_text_app raw p s)"
proof -
  assume inv: "app_inv s"
  have "set (pending (on_text_app raw p s)) \<subseteq> set (pending s) \<union> {u. speed_ok u}"
    by (auto simp: on_text_app_def set_state_def Let_def split: parsed.splits if_splits)
  with inv show ?thesis by (auto simp: app_inv_def)
qed

lemma app_inv_message:
  "app_inv s \<Longrightarrow> i < length (conns s) \<Longrightarrow> app_inv (ws_onmessage i m s)"
proof (cases m)
  case (TextMsg raw p)
  assume "app_inv s"
  with TextMsg show ?thesis by (simp add: ws_onmessage_def app_inv_on_text)
next
  case (BinaryMsg bs)
  assume inv: "app_inv s" and i: "i < length (conns s)"
  let ?s1 = "set_state (PushMessage (LogBinary (take 16 bs))) s"
  have inv1: "app_inv ?s1" using inv by (simp add: app_inv_set_state)
  have "0 < ws_speed (conns s ! i)" using inv i by (simp add: app_inv_def)
  with inv1 have "pb_ok (play_audio_chunk (ws_speed (conns s ! i)) bs (pb ?s1))"
    by (simp add: app_inv_def pb_ok_play)
  with inv1 BinaryMsg show ?thesis
    by (simp add: ws_onmessage_def app_inv_def Let_def)
qed

lemma update_conn_fields [simp]:
  "pb (update_conn i f s) = pb s" "speed (update_conn i f s) = speed s"
  "pending (update_conn i f s) = pending s"
  "conns (update_conn i f s) = (conns s)[i := f (conns s ! i)]"
  by (simp_all add: update_conn_def)

lemma app_inv_update_conn:
  assumes "app_inv s"
    and "i < length (conns s) \<Longrightarrow> conn_ok (f (conns s ! i)) \<and> 0 < ws_speed (f (conns s ! i))"
  shows "app_inv (update_conn i f s)"
proof -
  have "\<forall>c \<in> set ((conns s)[i := f (conns s ! i)]). conn_ok c \<and> 0 < ws_speed c"
    by (rule ball_update_nth) (use assms in \<open>auto simp: app_inv_def\<close>)
  with assms(1) show ?thesis by (simp add: app_inv_def)
qed

lemma conn_inv_nth: "app_inv s \<Longrightarrow> i < length (conns s) \<Longrightarrow> conn_ok (conns s ! i) \<and> 0 < ws_speed (conns s ! i)"
  by (simp add: app_inv_def)

lemma app_inv_start: "app_inv s \<Longrightarrow> app_inv (start_flow s)"
  by (simp add: app_inv_def start_flow_def conn_ok_def)

lemma app_inv_onopen:
  "app_inv s \<Longrightarrow> enabled s (WsOpen i) \<Longrightarrow> app_inv (ws_onopen i s)"
  unfolding ws_onopen_def
  by (rule app_inv_update_conn) (auto dest: conn_inv_nth simp: conn_ok_def)

lemma conn_ok_stage [simp]: "conn_ok (c\<lparr>ws_stage := x\<rparr>) = conn_ok c"
  by (simp add: conn_ok_def)

lemma app_inv_stage:
  "app_inv s \<Longrightarrow> app_inv (update_conn i (\<lambda>c. c\<lparr>ws_stage := x\<rparr>) s)"
  by (rule app_inv_update_conn) (auto dest: conn_inv_nth)

lemma app_inv_mic_granted: "app_inv s \<Longrightarrow> app_inv (mic_granted i s)"
  using app_inv_stage [of s i Awaiting_module]
  by (simp add: mic_granted_def app_inv_def pb_ok_open)

lemma app_inv_module_loaded: "app_inv s \<Longrightarrow> app_inv (module_loaded i s)"
  using app_inv_stage [of s i Open_done]
  by (simp add: module_loaded_def app_inv_def)

lemma app_inv_mic_failed: "app_inv s \<Longrightarrow> app_inv (mic_failed i s)"
  using app_inv_stage [of s i Open_done]
  by (simp add: mic_failed_def app_inv_def)

lemma app_inv_frame: "app_inv s \<Longrightarrow> app_inv (worklet_frame k chans s)"
proof -
  assume inv: "app_inv s"
  let ?i = "wk_conn (worklets s ! k)"
  have "app_inv (update_conn ?i (\<lambda>c. c\<lparr>ws_sent := ws_sent c @ [AudioOut b]\<rparr>) s)"
    if "ws_ready (conns s ! ?i) = Open" for b
    by (rule app_inv_update_conn)
       (use inv that in \<open>auto dest: conn_inv_nth simp: conn_ok_def split: list.splits\<close>)
  with inv show ?thesis
    by (simp add: worklet_frame_def Let_def split: option.split)
qed

lemma app_inv_onclose: "app_inv s \<Longrightarrow> app_inv (ws_onclose i s)"
  unfolding ws_onclose_def
  by (intro app_inv_stop app_inv_update_conn) (auto dest: conn_inv_nth simp: conn_ok_def)

lemma app_inv_onerror: "app_inv s \<Longrightarrow> app_inv (ws_onerror i s)"
  unfolding ws_onerror_def
  by (intro app_inv_stop app_inv_update_conn) (auto dest: conn_inv_nth simp: conn_ok_def)

lemma app_inv_rec_update [simp]: "app_inv (s\<lparr>rec := q\<rparr>) = app_inv s"
  by (simp add: app_inv_def)

lemma app_inv_clear: "app_inv s \<Longrightarrow> app_inv (clear_all_app s)"
  by (simp add: clear_all_app_def Let_def app_inv_set_state)

lemma app_inv_rec_event: "app_inv s \<Longrightarrow> app_inv (rec_event_app e s)"
  by (simp add: rec_event_app_def app_inv_set_state)

lemma app_inv_token_fetched: "app_inv s \<Longrightarrow> app_inv (token_fetched res s)"
  by (auto simp: token_fetched_def app_inv_set_state split: option.split) (simp add: app_inv_def)

lemma app_inv_copy_token: "app_inv s \<Longrightarrow> app_inv (copy_token s)"
  by (simp add: copy_token_def app_inv_def)

declare app_inv_start [inv_rules] app_inv_stop [inv_rules] app_inv_clear [inv_rules]
  app_inv_render [inv_rules] app_inv_set_state [inv_rules] app_inv_onopen [inv_rules]
  app_inv_mic_granted [inv_rules] app_inv_module_loaded [inv_rules] app_inv_mic_failed [inv_rules]
  app_inv_frame [inv_rules] app_inv_onclose [inv_rules] app_inv_onerror [inv_rules]
  app_inv_rec_event [inv_rules] app_inv_token_fetched [inv_rules] app_inv_copy_token [inv_rules]

lemma app_inv_step: "app_inv s \<Longrightarrow> enabled s e \<Longrightarrow> app_inv (app_step s e)"
proof (cases e)
  case (WsMessage i m)
  assume "app_inv s" "enabled s e"
  with WsMessage show ?thesis by (simp add: app_inv_message)
next
  case (SpeedInput v)
  assume "app_inv s" "enabled s e"
  with SpeedInput show ?thesis by (auto simp: app_inv_set_state slider_values_def)
next
  case (Tick dt)
  assume "app_inv s" "enabled s e"
  with Tick show ?thesis by (simp add: app_inv_def pb_ok_advance)
next
  case (SourceEnded k)
  assume "app_inv s"
  with SourceEnded show ?thesis by (simp add: app_inv_def pb_ok_ended)
qed (simp_all add: inv_rules)

lemma app_step_poc2_eq:
  "e \<noteq> Clear \<Longrightarrow> \<forall>r. e \<noteq> RecEv r \<Longrightarrow> app_step_poc2 s e = app_step s e"
  by (cases e) (simp_all add: ws_onmessage_poc2_def ws_onmessage_def on_text_versions_agree
                         split: inbound.split)

lemma app_inv_init: "app_inv app_init"
  by (simp add: app_inv_def app_init_def pb_ok_def pb_base_def playback_init_def running_def)

lemma reachable_app_inv: "reachable s \<Longrightarrow> app_inv s"
proof (induction rule: reachable.induct)
  case init
  show ?case by (rule app_inv_init)
next
  case (step s e)
  from step.IH step.hyps(2) show ?case by (rule app_inv_step)
qed

lemma reachable_run: "reachable s \<Longrightarrow> run_enabled s es \<Longrightarrow> reachable (run s es)"
proof (induction es arbitrary: s)
  case Nil then show ?case by (simp add: run_def)
next
  case (Cons e es)
  then have "reachable (app_step s e)" by (auto intro: reachable.step)
  with Cons show ?case by (simp add: run_def)
qed

lemma session_run_reachable: "reachable (run app_init session_run)"
  by (rule reachable_run [OF reachable.init]) (simp add: model_defs decode_pcm_eq)

lemma run_session_run:
  "conns (run app_init session_run) =
     [\<lparr>ws_ready = Open, ws_sent = [StartConversation, AudioOut [255, 63]], ws_speed = 1,
        ws_stage = Open_done\<rparr>]"
  "audio_ctx (pb (run app_init session_run)) = Some \<lparr>actx_id = 0, actx_time = 0, actx_state = Running\<rparr>"
  by (simp_all add: run_def model_defs decode_pcm_eq)

lemma play_appends:
  assumes "pb_base p" and "2 \<le> length bs"
  shows "\<exists>x. sources (play_audio_chunk v bs p) = sources p @ [x] \<and> src_rate x = v"
proof -
  obtain xs where dec: "decode_pcm bs = Some xs" and ne: "xs \<noteq> []"
    using assms(2) by (simp add: decode_pcm_eq)
  have nn: "0 \<le> next_play_time p" using assms(1) by (simp add: pb_base_def)
  show ?thesis
  proof (cases "audio_ctx p")
    case None
    with dec ne show ?thesis by (simp add: play_audio_chunk_def open_ctx_def)
  next
    case (Some c)
    with dec ne nn show ?thesis by (simp add: play_audio_chunk_def Let_def)
  qed
qed

lemma opened_run_reachable: "reachable (run app_init opened_run)"
  by (rule reachable_run [OF reachable.init]) (simp add: model_defs)

lemma opened_run_state:
  "conns (run app_init opened_run) =
     [\<lparr>ws_ready = Open, ws_sent = [StartConversation], ws_speed = 1, ws_stage = Awaiting_mic\<rparr>]"
  "pb (run app_init opened_run) = playback_init"
  "speed (run app_init opened_run) = 1"
  by (simp_all add: run_def model_defs)

lemma stop_flow_resources [simp]:
  "worklets (stop_flow s) =
     (case worklet_ref s of None \<Rightarrow> worklets s
      | Some k \<Rightarrow> (worklets s)[k := (worklets s ! k)\<lparr>wk_connected := False\<rparr>])"
  "msources (stop_flow s) = (case msource_ref s of None \<Rightarrow> msources s | Some k \<Rightarrow> (msources s)[k := False])"
  "mics (stop_flow s) = (case mic_ref s of None \<Rightarrow> mics s | Some k \<Rightarrow> (mics s)[k := False])"
  "worklet_ref (stop_flow s) = worklet_ref s" "msource_ref (stop_flow s) = msource_ref s"
  "mic_ref (stop_flow s) = mic_ref s"
  by (simp_all add: stop_flow_def update_conn_def Let_def split: option.split)

text \<open>The handlers, unfolded together to follow a field through any step.\<close>

lemmas handler_defs = start_flow_def ws_onopen_def mic_granted_def module_loaded_def mic_failed_def
  worklet_frame_def ws_onclose_def ws_onerror_def clear_all_app_def render_app_def
  rec_event_app_def token_fetched_def copy_token_def update_conn_def

lemma last_prompt_step:
  "\<not> is_text_event e \<Longrightarrow> last_prompt (app_step s e) = last_prompt s"
proof (cases e)
  case (WsMessage i m)
  assume "\<not> is_text_event e"
  with WsMessage show ?thesis
    by (cases m) (simp_all add: ws_onmessage_def set_state_def Let_def)
qed (simp_all add: handler_defs render_transcript_def set_state_def Let_def split: option.split)

lemma render_app_fields:
  "messages (render_app s) = fold msg_effect (pending s) (messages s)"
  "prompt_pairs (render_app s) = fold (pair_effect (last_prompt s)) (pending s) (prompt_pairs s)"
  by (simp_all add: render_app_def render_transcript_def)

lemma rec_clear_all_app [simp]: "rec (clear_all_app s) = clear_all_rec (rec s)"
  by (simp add: clear_all_app_def Let_def)

lemma rec_rec_event_app [simp]: "rec (rec_event_app e s) = rec_step (rec s) e"
  by (simp add: rec_event_app_def)

lemma rec_app_step:
  "rec (app_step s e) =
     (case e of RecEv r \<Rightarrow> rec_step (rec s) r | Clear \<Rightarrow> rec_step (rec s) RecClear | _ \<Rightarrow> rec s)"
proof (cases e)
  case (WsMessage i m)
  then show ?thesis by (cases m) (simp_all add: ws_onmessage_def Let_def on_text_app_def set_state_def
       split: parsed.split)
qed (simp_all add: handler_defs Let_def split: option.split)

lemma reachable_rec: "reachable s \<Longrightarrow> rec_reachable (rec s)"
proof (induction rule: reachable.induct)
  case init
  show ?case by (simp add: app_init_def rec_reachable.init)
next
  case (step s e)
  have r: "rec (app_step s e) =
     (case e of RecEv r \<Rightarrow> rec_step (rec s) r | Clear \<Rightarrow> rec_step (rec s) RecClear | _ \<Rightarrow> rec s)"
    by (rule rec_app_step)
  show ?case
  proof (cases "\<exists>r. e = RecEv r")
    case True
    then obtain q where e: "e = RecEv q" by blast
    with step.hyps(2) have "rec_enabled (rec s) q" by simp
    with step.IH r e show ?thesis by (simp add: rec_reachable.step)
  next
    case False
    have "rec_reachable (clear_all_rec (rec s))"
      using rec_reachable.step [OF step.IH, of RecClear] by simp
    with False step.IH r show ?thesis by (cases e) simp_all
  qed
qed

lemma token_render_transcript [simp]: "token (render_transcript s) = token s"
  by (simp add: render_transcript_def)

lemma token_fold_commit_hook: "token (fold commit_hook (us @ [SetToken v]) s) = v"
  by simp

subsection \<open>Sockets move forward\<close>

lemma conns_mono_iff:
  "conns_mono xs ys \<longleftrightarrow>
     length xs \<le> length ys \<and> (\<forall>i < length xs. ws_ready (xs ! i) \<le> ws_ready (ys ! i))"
  by (auto simp: conns_mono_def list_all2_conv_all_nth min_def)

lemma conns_mono_refl [simp]: "conns_mono xs xs"
  by (simp add: conns_mono_iff)

lemma conns_mono_trans: "conns_mono xs ys \<Longrightarrow> conns_mono ys zs \<Longrightarrow> conns_mono xs zs"
  unfolding conns_mono_iff by (meson dual_order.trans less_le_trans)

lemma conns_mono_append [simp]: "conns_mono xs (xs @ ys)"
  by (simp add: conns_mono_iff nth_append)

lemma conns_mono_update:
  assumes "\<And>c. ws_ready c \<le> ws_ready (f c)"
  shows "conns_mono xs (xs[i := f (xs ! i)])"
proof -
  have "ws_ready (xs ! j) \<le> ws_ready (xs[i := f (xs ! i)] ! j)" if "j < length xs" for j
    using that assms [of "xs ! j"] by (cases "i = j") simp_all
  then show ?thesis by (simp add: conns_mono_iff)
qed

lemma conns_mono_update_le [simp]:
  assumes "ws_ready (xs ! i) \<le> ws_ready c"
  shows "conns_mono xs (xs[i := c])"
proof -
  have "ws_ready (xs ! j) \<le> ws_ready (xs[i := c] ! j)" if "j < length xs" for j
    using that assms by (cases "i = j") simp_all
  then show ?thesis by (simp add: conns_mono_iff)
qed

lemma ready_le_closed [simp]: "x \<le> Closed_ws"
  by (cases x) (simp_all add: less_eq_ready_state_def)

lemma close_ws_ready: "ws_ready c \<le> ws_ready (close_ws c)"
  by (simp add: close_ws_def less_eq_ready_state_def)

lemma conns_mono_stop: "conns_mono (conns s) (conns (stop_flow s))"
  by (simp add: conns_mono_update close_ws_ready split: option.split)

lemma conns_mono_update_conn:
  "(\<And>c. ws_ready c \<le> ws_ready (f c)) \<Longrightarrow> conns_mono (conns s) (conns (update_conn i f s))"
  by (simp add: conns_mono_update)

lemma app_step_conns_mono: "enabled s e \<Longrightarrow> conns_mono (conns s) (conns (app_step s e))"
proof (cases e)
  case Start
  then show ?thesis by (simp add: start_flow_def)
next
  case (WsOpen i)
  assume "enabled s e"
  with WsOpen show ?thesis
    by (simp add: ws_onopen_def conns_mono_iff nth_list_update less_eq_ready_state_def)
next
  case (WsClosed i)
  have "conns_mono (conns s) (conns (update_conn i (\<lambda>c. c\<lparr>ws_ready := Closed_ws\<rparr>) s))"
    by (rule conns_mono_update_conn) simp
  then have "conns_mono (conns s) (conns (ws_onclose i s))"
    unfolding ws_onclose_def by (rule conns_mono_trans [OF _ conns_mono_stop])
  with WsClosed show ?thesis by simp
next
  case (WsError i)
  assume "enabled s e"
  with WsError have "conns_mono (conns s) (conns (update_conn i (\<lambda>c. c\<lparr>ws_ready := Closing\<rparr>) s))"
    by (auto simp: conns_mono_iff nth_list_update less_eq_ready_state_def)
  then have "conns_mono (conns s) (conns (ws_onerror i s))"
    unfolding ws_onerror_def by (rule conns_mono_trans [OF _ conns_mono_stop])
  with WsError show ?thesis by simp
next
  case (WsMessage i m)
  then show ?thesis
    by (cases m) (simp_all add: ws_onmessage_def on_text_app_def set_state_def Let_def
                    split: parsed.split)
qed (simp_all add: close_ws_ready handler_defs render_transcript_def set_state_def Let_def
       split: option.split)

lemma run_conns_mono: "run_enabled s es \<Longrightarrow> conns_mono (conns s) (conns (run s es))"
proof (induction es arbitrary: s)
  case Nil
  then show ?case by (simp add: run_def)
next
  case (Cons e es)
  then have "conns_mono (conns s) (conns (app_step s e))" "conns_mono (conns (app_step s e)) (conns (run (app_step s e) es))"
    by (simp_all add: app_step_conns_mono)
  then show ?case by (simp add: run_def conns_mono_trans [of "conns s"])
qed

end
