(* ===== verification/SessionProps.thy ===== *)
theory SessionProps
  imports Session
begin

text \<open>
  The properties of the whole component (src/src/App.jsx, and src/poc2.jsx where it
  differs), over the step function \<open>app_step\<close> and the reachable states of
  \<open>Session\<close>: the protocol order on every socket, gapless playback, what the
  teardown releases and what it leaves running, the stale closures, the composition with
  the recording feature, the token controls, and progress to streaming.
\<close>

text \<open>(C19) In every reachable state, on every socket the client ever opened, the first message sent is \<open>StartConversation\<close>, it is never sent again, and a socket that is open has sent it: \<open>onopen\<close> sends it before any audio frame, and frames are forwarded only on an open socket. Along any run of deliverable events no
  socket leaves the list and none returns to an earlier \<open>readyState\<close>: a closed
  socket is never reopened.\<close>

theorem reachable_start_first:
  assumes "reachable s" and "c \<in> set (conns s)"
  shows "(ws_sent c = [] \<or> hd (ws_sent c) = StartConversation) \<and>
         StartConversation \<notin> set (tl (ws_sent c)) \<and>
         (ws_ready c = Open \<longrightarrow> ws_sent c \<noteq> []) \<and>
         (\<forall>es. run_enabled s es \<longrightarrow> conns_mono (conns s) (conns (run s es)))"
proof -
  have "conn_ok c" using reachable_app_inv [OF assms(1)] assms(2) by (simp add: app_inv_def)
  then show ?thesis by (auto simp: conn_ok_def run_conns_mono split: list.splits)
qed

theorem reachable_start_first_witness:
  "reachable (run app_init session_run) \<and>
   hd (conns (run app_init session_run)) \<in> set (conns (run app_init session_run)) \<and>
   hd (ws_sent (hd (conns (run app_init session_run)))) = StartConversation \<and>
   StartConversation \<notin> set (tl (ws_sent (hd (conns (run app_init session_run)))))"
proof -
  have mem: "hd (conns (run app_init session_run)) \<in> set (conns (run app_init session_run))"
    by (simp add: run_session_run)
  have "hd (ws_sent (hd (conns (run app_init session_run)))) = StartConversation \<and>
        StartConversation \<notin> set (tl (ws_sent (hd (conns (run app_init session_run)))))"
    using reachable_start_first [OF session_run_reachable mem] by (simp add: run_session_run)
  then show ?thesis by (intro conjI session_run_reachable mem) simp_all
qed

text \<open>(C20) In every reachable state, while the current audio context runs, the sources scheduled on it are back to back (each starts no earlier than the previous one ends) and all end by the playback cursor: received chunks never overlap in the output.\<close>

theorem reachable_no_overlap:
  assumes "reachable s" and "audio_ctx (pb s) = Some c" and "actx_state c = Running"
  shows "back_to_back (on_ctx (actx_id c) (sources (pb s))) \<and>
         (\<forall>x \<in> set (on_ctx (actx_id c) (sources (pb s))). src_end x \<le> next_play_time (pb s))"
  using reachable_app_inv [OF assms(1)] assms(2,3)
  by (simp add: app_inv_def pb_ok_def running_def timeline_ok_def)

theorem reachable_no_overlap_witness:
  "reachable (run app_init session_run) \<and>
   audio_ctx (pb (run app_init session_run)) = Some \<lparr>actx_id = 0, actx_time = 0, actx_state = Running\<rparr> \<and>
   back_to_back (on_ctx 0 (sources (pb (run app_init session_run))))"
proof -
  have running: "actx_state \<lparr>actx_id = 0, actx_time = 0, actx_state = Running\<rparr> = Running"
    by simp
  have "back_to_back (on_ctx (actx_id \<lparr>actx_id = 0, actx_time = 0, actx_state = Running\<rparr>)
          (sources (pb (run app_init session_run))))"
    using reachable_no_overlap [OF session_run_reachable run_session_run(2) running] by simp
  then show ?thesis
    by (intro conjI session_run_reachable run_session_run(2)) simp
qed

text \<open>(C21) The playback rate of a received chunk is the speed value the socket handler captured when the session started (\<open>ws.onmessage\<close> closes over \<open>playbackSpeed\<close> of the render that ran \<open>startFlow\<close>), not the slider's current value.\<close>

theorem stale_playback_speed:
  assumes "reachable s" and "i < length (conns s)" and "2 \<le> length bs"
  shows "speed (render_app (app_step s (SpeedInput v))) = v \<and>
         (\<exists>x. sources (pb (app_step (render_app (app_step s (SpeedInput v))) (WsMessage i (BinaryMsg bs))))
                = sources (pb s) @ [x] \<and> src_rate x = ws_speed (conns s ! i))"
proof -
  let ?s1 = "render_app (app_step s (SpeedInput v))"
  have sp: "speed ?s1 = v"
    by (simp add: render_app_def set_state_def)
  have same: "conns ?s1 = conns s" "pb ?s1 = pb s"
    by (simp_all add: render_app_def)
  have base: "pb_base (pb s)"
    using reachable_app_inv [OF assms(1)] by (simp add: app_inv_def pb_ok_def)
  obtain x where "sources (play_audio_chunk (ws_speed (conns s ! i)) bs (pb s)) = sources (pb s) @ [x]"
    and "src_rate x = ws_speed (conns s ! i)"
    using play_appends [OF base assms(3)] by blast
  then show ?thesis
    using sp same by (auto simp: ws_onmessage_def Let_def)
qed

theorem stale_playback_speed_witness:
  "reachable (run app_init opened_run) \<and> 0 < length (conns (run app_init opened_run)) \<and>
   2 \<le> length [1, 0, 2, 0 :: byte] \<and>
   speed (render_app (app_step (run app_init opened_run) (SpeedInput 2))) = 2 \<and>
   (\<exists>x. sources (pb (app_step (render_app (app_step (run app_init opened_run) (SpeedInput 2)))
                       (WsMessage 0 (BinaryMsg [1, 0, 2, 0]))))
          = sources (pb (run app_init opened_run)) @ [x] \<and> src_rate x = 1)"
proof -
  have len: "0 < length (conns (run app_init opened_run))" by (simp add: opened_run_state)
  have "2 \<le> length [1, 0, 2, 0 :: byte]" by simp
  from stale_playback_speed [OF opened_run_reachable len this, of 2]
  show ?thesis by (simp add: opened_run_reachable opened_run_state)
qed

text \<open>(C22) \<open>stopFlow\<close> closes the current socket and the current audio context, stops the current microphone, disconnects the current worklet node and resets the playback cursor to 0.\<close>

theorem stop_flow_releases:
  "(\<forall>k. worklet_ref s = Some k \<longrightarrow> k < length (worklets s) \<longrightarrow>
          \<not> wk_connected (worklets (stop_flow s) ! k)) \<and>
   (\<forall>k. msource_ref s = Some k \<longrightarrow> k < length (msources s) \<longrightarrow> \<not> msources (stop_flow s) ! k) \<and>
   (\<forall>k. mic_ref s = Some k \<longrightarrow> k < length (mics s) \<longrightarrow> \<not> mics (stop_flow s) ! k) \<and>
   (\<forall>c. audio_ctx (pb s) = Some c \<longrightarrow> audio_ctx (pb (stop_flow s)) = Some (c\<lparr>actx_state := Closed\<rparr>)) \<and>
   (\<forall>j. ws_ref s = Some j \<longrightarrow> j < length (conns s) \<longrightarrow>
          ws_ready (conns (stop_flow s) ! j) \<noteq> Connecting \<and> ws_ready (conns (stop_flow s) ! j) \<noteq> Open) \<and>
   next_play_time (pb (stop_flow s)) = 0"
  by (auto simp: close_ctx_def close_ws_def)

theorem stop_flow_releases_witness:
  "mic_ref (run app_init session_run) = Some 0 \<and> 0 < length (mics (run app_init session_run)) \<and>
   \<not> mics (stop_flow (run app_init session_run)) ! 0 \<and>
   next_play_time (pb (stop_flow (run app_init session_run))) = 0"
proof -
  have ref: "mic_ref (run app_init session_run) = Some 0" "0 < length (mics (run app_init session_run))"
    by (simp_all add: run_def model_defs decode_pcm_eq)
  with stop_flow_releases [of "run app_init session_run"] show ?thesis by simp
qed

text \<open>(C23) Clicking Stop runs \<open>stopFlow\<close>, and the socket's close event runs it a second time; the second \<open>audioCtx.close()\<close> on the already closed context rejects with \<open>InvalidStateError\<close>, which nothing catches.\<close>

theorem stop_then_close_raises:
  assumes "ws_ref s = Some i" and "audio_ctx (pb s) = Some c" and "actx_state c = Running"
  shows "uncaught (pb (app_step (app_step s Stop) (WsClosed i))) = uncaught (pb s) @ [InvalidStateError] \<and>
         stop_flow app_init = app_init"
proof -
  have init: "stop_flow app_init = app_init"
    by (simp add: stop_flow_def app_init_def playback_init_def close_ctx_def)
  show ?thesis
    using assms by (simp add: ws_onclose_def close_ctx_def init)
qed

theorem stop_then_close_raises_witness:
  "ws_ref (run app_init session_run) = Some 0 \<and>
   uncaught (pb (app_step (app_step (run app_init session_run) Stop) (WsClosed 0))) = [InvalidStateError]"
proof -
  have ref: "ws_ref (run app_init session_run) = Some 0" and u: "uncaught (pb (run app_init session_run)) = []"
    by (simp_all add: run_def model_defs decode_pcm_eq)
  show ?thesis
    using stop_then_close_raises [OF ref run_session_run(2)] ref u by simp
qed

text \<open>(C24) \<open>startFlow\<close> does not tear down a running session: the previous socket stays open and is no longer referenced by \<open>wsRef\<close>.\<close>

theorem restart_leaves_old_socket:
  assumes "\<not> blank (token s)" and "ws_ref s = Some i" and "i < length (conns s)"
    and "ws_ready (conns s ! i) = Open"
  shows "ws_ready (conns (app_step s Start) ! i) = Open \<and>
         ws_ref (app_step s Start) = Some (length (conns s)) \<and>
         ws_ready (conns (app_step (app_step s Start) (WsClosed i)) ! length (conns s)) = Closing"
  using assms by (simp add: start_flow_def ws_onclose_def nth_append close_ws_def update_conn_def)

theorem restart_leaves_old_socket_witness:
  "\<not> blank (token (run app_init opened_run)) \<and> ws_ref (run app_init opened_run) = Some 0 \<and>
   0 < length (conns (run app_init opened_run)) \<and> ws_ready (conns (run app_init opened_run) ! 0) = Open \<and>
   ws_ready (conns (app_step (app_step (run app_init opened_run) Start) (WsClosed 0)) ! 1) = Closing"
proof -
  have h: "\<not> blank (token (run app_init opened_run))" "ws_ref (run app_init opened_run) = Some 0"
    "0 < length (conns (run app_init opened_run))" "ws_ready (conns (run app_init opened_run) ! 0) = Open"
    by (simp_all add: run_def model_defs)
  from restart_leaves_old_socket [OF h] h show ?thesis by (simp add: opened_run_state)
qed

text \<open>(C25) Events other than text messages never change \<open>lastPromptRef\<close>: a prompt that is waiting for its response survives Stop and a new session, and is paired with the first response of the next one.\<close>

theorem pending_prompt_survives:
  assumes "\<forall>e \<in> set es. \<not> is_text_event e"
  shows "last_prompt (run s es) = last_prompt s"
  using assms
  by (induction es arbitrary: s) (simp_all add: run_def last_prompt_step)

theorem pending_prompt_survives_witness:
  "list_all (\<lambda>e. \<not> is_text_event e) [Stop, WsClosed 0, Start, WsOpen 1] \<and>
   last_prompt (run (run app_init (opened_run @ [WsMessage 0 (TextMsg ''p'' (prompt_msg ''A''))]))
                   [Stop, WsClosed 0, Start, WsOpen 1]) = Some ''A''"
proof -
  let ?s = "run app_init (opened_run @ [WsMessage 0 (TextMsg ''p'' (prompt_msg ''A''))])"
  have "last_prompt ?s = Some ''A''"
    by (simp add: run_def model_defs)
  with pending_prompt_survives [of "[Stop, WsClosed 0, Start, WsOpen 1]" ?s] show ?thesis by simp
qed

text \<open>(C26) A captured frame is sent only on the socket its worklet belongs to and only while that socket is open; otherwise it is dropped, and no other socket is touched.\<close>

theorem worklet_frame_guard:
  assumes "conns (worklet_frame k chans s) ! j \<noteq> conns s ! j"
  shows "j = wk_conn (worklets s ! k) \<and> ws_ready (conns s ! j) = Open \<and> j < length (conns s) \<and>
         (\<exists>ch chs. chans = ch # chs \<and>
            conns (worklet_frame k chans s) ! j =
              (conns s ! j)\<lparr>ws_sent := ws_sent (conns s ! j) @ [AudioOut (int16_buffer (map pcm_sample ch))]\<rparr>)"
proof -
  let ?i = "wk_conn (worklets s ! k)"
  obtain ch chs where chans: "chans = ch # chs"
    using assms by (cases chans) (auto simp: worklet_frame_def pcm_process_def)
  let ?x = "(conns s ! ?i)\<lparr>ws_sent := ws_sent (conns s ! ?i) @ [AudioOut (int16_buffer (map pcm_sample ch))]\<rparr>"
  have open_: "ws_ready (conns s ! ?i) = Open"
    and upd: "conns (worklet_frame k chans s) = (conns s)[?i := ?x]"
    using assms by (auto simp: worklet_frame_def pcm_process_def pcm_frame_map chans Let_def split: if_splits)
  have ij: "?i = j"
    using assms by (metis upd nth_list_update_neq)
  have jl: "j < length (conns s)"
    using assms upd ij by (metis list_update_beyond not_less)
  show ?thesis
    using open_ upd ij jl chans by simp
qed

theorem worklet_frame_guard_witness:
  "conns (worklet_frame 0 [[Num 1]] (run app_init session_run)) ! 0 \<noteq> conns (run app_init session_run) ! 0 \<and>
   ws_ready (conns (run app_init session_run) ! 0) = Open"
proof -
  let ?s = "run app_init session_run"
  have ne: "conns (worklet_frame 0 [[Num 1]] ?s) ! 0 \<noteq> conns ?s ! 0"
    by (simp add: run_def model_defs decode_pcm_eq)
  from worklet_frame_guard [OF ne] ne show ?thesis by simp
qed

text \<open>(C27) The continuation of \<open>onopen\<close> after \<open>getUserMedia\<close> does not check that
  the session is still active: a microphone permission granted after Stop (the socket is
  already closed) starts capture anyway. The stream becomes \<open>micStreamRef\<close>, a running
  context \<open>audioCtxRef\<close>, and once the module loads a connected worklet node
  \<open>workletNodeRef\<close>, whose frames go nowhere because its socket is closed. They run
  until the next \<open>stopFlow\<close>, which releases them.\<close>

theorem mic_live_after_stop:
  assumes "enabled s (MicGranted i)" and "ws_ready (conns s ! i) = Closed_ws"
  shows "mic_ref (module_loaded i (mic_granted i s)) = Some (length (mics s)) \<and>
         mics (module_loaded i (mic_granted i s)) ! length (mics s) \<and>
         running (pb (module_loaded i (mic_granted i s))) \<and>
         worklet_ref (module_loaded i (mic_granted i s)) = Some (length (worklets s)) \<and>
         wk_connected (worklets (module_loaded i (mic_granted i s)) ! length (worklets s)) \<and>
         conns (worklet_frame (length (worklets s)) chans (module_loaded i (mic_granted i s))) =
           conns (module_loaded i (mic_granted i s)) \<and>
         \<not> mics (stop_flow (module_loaded i (mic_granted i s))) ! length (mics s) \<and>
         \<not> running (pb (stop_flow (module_loaded i (mic_granted i s))))"
  using assms
  by (simp add: mic_granted_def module_loaded_def worklet_frame_def update_conn_def open_ctx_def
                running_def close_ctx_def Let_def split: option.split)

theorem mic_live_after_stop_witness:
  "enabled (run app_init stop_during_prompt) (MicGranted 0) \<and>
   ws_ready (conns (run app_init stop_during_prompt) ! 0) = Closed_ws \<and>
   running (pb (module_loaded 0 (mic_granted 0 (run app_init stop_during_prompt)))) \<and>
   \<not> running (pb (stop_flow (module_loaded 0 (mic_granted 0 (run app_init stop_during_prompt)))))"
proof -
  have e: "enabled (run app_init stop_during_prompt) (MicGranted 0)"
    and c: "ws_ready (conns (run app_init stop_during_prompt) ! 0) = Closed_ws"
    by (simp_all add: run_def model_defs)
  show ?thesis using mic_live_after_stop [OF e c] e c by simp
qed

text \<open>(C29) The Clear button of App.jsx leaves the message log and the prompt/response pairs unchanged (it only calls two unrelated setters), while the one of poc2.jsx empties the message log.\<close>

theorem clear_all_versions:
  "messages (render_app (clear_all_app s)) = messages (render_app s) \<and>
   prompt_pairs (render_app (clear_all_app s)) = prompt_pairs (render_app s) \<and>
   messages (render_app (clear_all_poc2 s)) = []"
  by (simp add: render_app_fields clear_all_app_def clear_all_poc2_def set_state_def)



text \<open>(C12) The two versions of the component react identically to every event except
  Clear and the recording events, which poc2.jsx lacks: its combined test of the response tag and the ref computes the same
  update as App.jsx's two nested tests. So every state poc2.jsx reaches satisfies the
  invariant \<open>app_inv\<close> of App.jsx (the protocol order on every socket, positive speeds,
  gapless playback on the running context): its own Clear only empties the log.\<close>

theorem poc2_step_agrees:
  "(e \<noteq> Clear \<and> (\<forall>r. e \<noteq> RecEv r) \<longrightarrow> app_step_poc2 s e = app_step s e) \<and>
   (reachable_poc2 s \<longrightarrow> app_inv s)"
proof
  show "e \<noteq> Clear \<and> (\<forall>r. e \<noteq> RecEv r) \<longrightarrow> app_step_poc2 s e = app_step s e"
    by (auto simp: app_step_poc2_eq)
  show "reachable_poc2 s \<longrightarrow> app_inv s"
  proof
    assume "reachable_poc2 s"
    then show "app_inv s"
    proof (induction rule: reachable_poc2.induct)
      case init
      show ?case by (rule app_inv_init)
    next
      case (step s e)
      show ?case
      proof (cases "e = Clear \<or> (\<exists>r. e = RecEv r)")
        case True
        with step.IH show ?thesis
          by (auto simp: clear_all_poc2_def app_inv_set_state)
      next
        case False
        with step.IH step.hyps(2) show ?thesis
          by (simp add: app_step_poc2_eq app_inv_step)
      qed
    qed
  qed
qed

theorem poc2_step_agrees_witness:
  "app_step_poc2 app_init Start = app_step app_init Start \<and>
   reachable_poc2 (app_step_poc2 app_init (TokenInput ''t'')) \<and>
   0 < speed (app_step_poc2 app_init (TokenInput ''t''))"
proof -
  have r: "reachable_poc2 (app_step_poc2 app_init (TokenInput ''t''))"
    by (rule reachable_poc2.step [OF reachable_poc2.init]) simp
  have "app_inv (app_step_poc2 app_init (TokenInput ''t''))"
    using poc2_step_agrees [of _ "app_step_poc2 app_init (TokenInput ''t'')"] r by blast
  then have "0 < speed (app_step_poc2 app_init (TokenInput ''t''))"
    by (simp add: app_inv_def)
  moreover have "app_step_poc2 app_init Start = app_step app_init Start"
    using poc2_step_agrees [of Start app_init] by simp
  ultimately show ?thesis using r by blast
qed

text \<open>(C31) \<open>stopFlow\<close> closes the playback context but leaves it in
  \<open>audioCtxRef\<close>, and \<open>startFlow\<close> does not replace it, so \<open>playAudioChunk\<close>
  never creates a new one: until a new microphone grant (none comes if the request is
  denied), every chunk of the next session is scheduled on the closed context, whose
  clock no longer runs, and is never heard.\<close>

theorem restart_plays_on_closed_ctx:
  assumes "reachable s" and "audio_ctx (pb s) = Some c"
    and "decode_pcm bs = Some xs" and "xs \<noteq> []"
  shows "audio_ctx (pb (start_flow (stop_flow s))) = Some (c\<lparr>actx_state := Closed\<rparr>) \<and>
         map src_ctx (sources (play_audio_chunk v bs (pb (start_flow (stop_flow s))))) =
           map src_ctx (sources (pb s)) @ [actx_id c] \<and>
         audio_ctx (play_audio_chunk v bs (pb (start_flow (stop_flow s)))) =
           Some (c\<lparr>actx_state := Closed\<rparr>) \<and>
         advance_clock dt (play_audio_chunk v bs (pb (start_flow (stop_flow s)))) =
           play_audio_chunk v bs (pb (start_flow (stop_flow s)))"
proof -
  have "pb_base (pb s)"
    using reachable_app_inv [OF assms(1)] by (simp add: app_inv_def pb_ok_def)
  then have t: "0 \<le> actx_time c"
    using assms(2) by (simp add: pb_base_def)
  have closed: "audio_ctx (pb (start_flow (stop_flow s))) = Some (c\<lparr>actx_state := Closed\<rparr>)"
    using assms(2) by (cases "actx_state c") (simp_all add: start_flow_def close_ctx_def)
  have "sources (pb (start_flow (stop_flow s))) = sources (pb s)"
    by (simp add: start_flow_def close_ctx_def split: option.split)
  with closed t assms(3,4) show ?thesis
    by (simp add: play_audio_chunk_def advance_clock_def Let_def max_def)
qed

theorem restart_plays_on_closed_ctx_witness:
  "reachable (run app_init session_run) \<and>
   audio_ctx (pb (run app_init session_run)) = Some \<lparr>actx_id = 0, actx_time = 0, actx_state = Running\<rparr> \<and>
   decode_pcm [1, 0, 2, 0] = Some [1 / 32768, 2 / 32768] \<and>
   audio_ctx (play_audio_chunk 1 [1, 0, 2, 0] (pb (start_flow (stop_flow (run app_init session_run))))) =
     Some \<lparr>actx_id = 0, actx_time = 0, actx_state = Closed\<rparr>"
proof -
  have d: "decode_pcm [1, 0, 2, 0] = Some [1 / 32768, 2 / 32768]"
    by (simp add: decode_pcm_eq pcm_value_def le_word_def upt_rec)
  show ?thesis
    using restart_plays_on_closed_ctx [OF session_run_reachable run_session_run(2) d, of 1]
          session_run_reachable run_session_run(2) d by simp
qed

text \<open>(C34) The token controls. Start with an empty or blank token raises the alert and
  opens nothing; a non-blank token opens one new socket and leaves the others as they
  were. \<open>fetchToken\<close>: a rejected request or an unreadable body raises the alert and
  changes nothing else; a body without a usable \<open>key_value\<close> (absent, or the empty
  string) changes nothing and raises nothing; a non-empty key becomes the token at the
  next render.\<close>

theorem token_fetched_outcomes:
  "length (conns (app_step s Start)) = length (conns s) + (if blank (token s) then 0 else 1) \<and>
   alerts (app_step s Start) = alerts s @ (if blank (token s) then [TokenAlert] else []) \<and>
   take (length (conns s)) (conns (app_step s Start)) = conns s \<and>
   token_fetched None s = s\<lparr>alerts := alerts s @ [FetchAlert]\<rparr> \<and>
   token_fetched (Some None) s = s \<and> token_fetched (Some (Some [])) s = s \<and>
   (v \<noteq> [] \<longrightarrow> token (render_app (token_fetched (Some (Some v)) s)) = v \<and>
                alerts (token_fetched (Some (Some v)) s) = alerts s)"
  by (simp add: start_flow_def token_fetched_def render_app_def set_state_def)

theorem token_fetched_outcomes_witness:
  "token (render_app (token_fetched (Some (Some ''k'')) app_init)) = ''k'' \<and>
   alerts (token_fetched None app_init) = [FetchAlert]"
  using token_fetched_outcomes [of app_init "''k''"] by (simp add: app_init_def)

text \<open>(C32) Progress: from any state whose rendered token is not blank, Start, the socket's
  \<open>open\<close> event, the microphone grant, the worklet module and one captured frame are
  each deliverable in turn, and they leave a new socket, referenced by \<open>wsRef\<close>, OPEN,
  with \<open>StartConversation\<close> and the encoded frame sent, in that order.\<close>

theorem start_progress_streaming:
  assumes "\<not> blank (token s)" and "input \<noteq> []"
  shows "run_enabled s (capture_events s input) \<and>
         ws_ref (run s (capture_events s input)) = Some (length (conns s)) \<and>
         ws_sent (conns (run s (capture_events s input)) ! length (conns s)) =
           [StartConversation, AudioOut (int16_buffer (map pcm_sample input))] \<and>
         ws_ready (conns (run s (capture_events s input)) ! length (conns s)) = Open"
  using assms
  by (simp add: run_def start_flow_def ws_onopen_def mic_granted_def module_loaded_def
                worklet_frame_def update_conn_def nth_append pcm_process_def pcm_frame_map
                open_ctx_def Let_def)

theorem start_progress_streaming_witness:
  "\<not> blank (token (run app_init opened_run)) \<and> [Num 1] \<noteq> [] \<and>
   run_enabled (run app_init opened_run) (capture_events (run app_init opened_run) [Num 1]) \<and>
   ws_ready (conns (run (run app_init opened_run) (capture_events (run app_init opened_run) [Num 1])) ! 1)
     = Open"
proof -
  have t: "\<not> blank (token (run app_init opened_run))" and n: "length (conns (run app_init opened_run)) = 1"
    by (simp_all add: run_def model_defs)
  show ?thesis using start_progress_streaming [OF t, of "[Num 1]"] t n by simp
qed

text \<open>(C33) Composition with the recording feature: the Clear button, pressed while
  recording, empties the conversation audio, but the recorder it stops then delivers its
  final data and its \<open>stop\<close> event, which put the user clip back into the cleared list.\<close>

theorem clear_button_during_recording:
  assumes "reachable s" and "recording (rec s)" and "media_ref (rec s) = Some k"
  shows "conv_audio (rec (app_step s Clear)) = [] \<and>
         enabled (app_step s Clear) (RecEv (RecStopEvent k c)) \<and>
         conv_audio (rec (app_step (app_step s Clear) (RecEv (RecStopEvent k c)))) =
           [\<lparr>clip_speaker = User, clip_audio = ChunkBlob [c]\<rparr>]"
proof -
  have "rec_reachable (rec s)" using assms(1) by (rule reachable_rec)
  then have "conv_audio (rec_step (rec s) RecClear) = [] \<and>
             rec_enabled (rec_step (rec s) RecClear) (RecStopEvent k c) \<and>
             conv_audio (rec_step (rec_step (rec s) RecClear) (RecStopEvent k c)) =
               [\<lparr>clip_speaker = User, clip_audio = ChunkBlob [c]\<rparr>]"
    using assms(2,3) by (blast dest: clear_during_recording_refills)
  then show ?thesis by simp
qed

theorem clear_button_during_recording_witness:
  "reachable (run app_init [RecEv RecToggle, RecEv RecMicGranted]) \<and>
   recording (rec (run app_init [RecEv RecToggle, RecEv RecMicGranted])) \<and>
   media_ref (rec (run app_init [RecEv RecToggle, RecEv RecMicGranted])) = Some 0 \<and>
   conv_audio (rec (app_step (app_step (run app_init [RecEv RecToggle, RecEv RecMicGranted]) Clear)
                       (RecEv (RecStopEvent 0 4)))) = [\<lparr>clip_speaker = User, clip_audio = ChunkBlob [4]\<rparr>]"
proof -
  have r: "reachable (run app_init [RecEv RecToggle, RecEv RecMicGranted])"
    by (rule reachable_run [OF reachable.init]) (simp add: model_defs)
  have h: "recording (rec (run app_init [RecEv RecToggle, RecEv RecMicGranted]))"
    "media_ref (rec (run app_init [RecEv RecToggle, RecEv RecMicGranted])) = Some 0"
    by (simp_all add: run_def model_defs)
  show ?thesis using clear_button_during_recording [OF r h, of 4] r h by simp
qed

end
