(* ===== verification/Controls.thy ===== *)
theory Controls
  imports Session Rendering
begin

text \<open>
  The control row of the page and what it shows (src/src/App.jsx lines 303-362,
  src/poc2.jsx lines 207-257): the token field, the playback-speed slider and its
  label \<open>playbackSpeed.toFixed(1)\<close>, the recording toggle's label and whether the
  download button is enabled.
\<close>

text \<open>
  \<open>Number.prototype.toFixed(1)\<close> for the values the slider produces (below
  \<open>10^21\<close>): the integer \<open>n\<close> with \<open>n / 10\<close> nearest to the value, the larger on a tie,
  printed with one decimal.
\<close>

definition to_fixed1 :: "rat \<Rightarrow> string" where
  "to_fixed1 x =
     (let n = nat \<lfloor>\<bar>x\<bar> * 10 + 1 / 2\<rfloor>
      in (if x < 0 then ''-'' else []) @ dec_string (n div 10) @ ''.'' @ [''0123456789'' ! (n mod 10)])"

definition speed_label :: "rat \<Rightarrow> string" where
  "speed_label v = to_fixed1 v @ ''x''"

record controls =
  token_field :: string
  slider :: rat
  slider_label :: string
  record_button :: string
  download_enabled :: bool

definition controls_view :: "app \<Rightarrow> controls" where
  "controls_view s =
     \<lparr>token_field = token s, slider = speed s, slider_label = speed_label (speed s),
      record_button = (if recording (rec s) then ''Stop Recording (User)'' else ''Start Recording (User)''),
      download_enabled = (conv_audio (rec s) \<noteq> [])\<rparr>"

text \<open>
  poc2.jsx has the same token field, slider and label (lines 208-258) and no recording
  row: its controls are the token, the slider value and the label.
\<close>

definition controls_view_poc2 :: "app \<Rightarrow> string \<times> rat \<times> string" where
  "controls_view_poc2 s = (token s, speed s, speed_label (speed s))"

subsection \<open>Worklet registration\<close>

text \<open>
  The mount effect (App.jsx lines 44-66, poc2.jsx lines 42-64) runs once per mount,
  guarded by the global flag \<open>window.AudioWorkletNodeRegistered\<close>: the first run sets
  the flag, wraps the \<open>PCMProcessor\<close> source (\<open>Codec.pcm_process\<close>) in a Blob and
  stores a new object URL for it in \<open>window.pcmProcessorUrl\<close>, which \<open>onopen\<close> later
  passes to \<open>addModule\<close>. Object URLs are numbered in the order they are created.
\<close>

record page_window =
  worklet_registered :: bool
  processor_url :: "nat option"
  object_urls :: nat

definition window_init :: page_window where
  "window_init = \<lparr>worklet_registered = False, processor_url = None, object_urls = 0\<rparr>"

definition mount_effect :: "page_window \<Rightarrow> page_window" where
  "mount_effect w =
     (if worklet_registered w then w
      else w\<lparr>worklet_registered := True, processor_url := Some (object_urls w),
             object_urls := Suc (object_urls w)\<rparr>)"

subsection \<open>Reading a label back\<close>

text \<open>Reading a printed decimal back, to state the round trip.\<close>

definition digit_value :: "char \<Rightarrow> nat" where
  "digit_value c = of_char c - 48"

definition dec_value :: "string \<Rightarrow> nat" where
  "dec_value s = foldl (\<lambda>n c. 10 * n + digit_value c) 0 s"

definition label_value :: "string \<Rightarrow> rat" where
  "label_value s =
     (let i = takeWhile (\<lambda>c. c \<noteq> CHR ''.'') s; f = drop (Suc (length i)) s
      in of_nat (dec_value i) + of_nat (dec_value f) / 10)"

text \<open>
  However often the effect runs (a remount, or the double invocation of effects in
  React's development mode), only its first run creates a Blob URL, and
  \<open>window.pcmProcessorUrl\<close> keeps naming it.
\<close>

lemma mount_effect_runs:
  "(mount_effect ^^ Suc n) window_init =
     \<lparr>worklet_registered = True, processor_url = Some 0, object_urls = 1\<rparr>"
proof (induction n)
  case 0
  then show ?case by (simp add: mount_effect_def window_init_def)
next
  case (Suc n)
  then show ?case by (simp add: mount_effect_def)
qed

lemma digit_value_nth: "i < 10 \<Longrightarrow> digit_value (''0123456789'' ! i) = i"
  by (auto simp: digit_value_def less_Suc_eq numeral_eq_Suc)

lemma dec_value_snoc: "dec_value (xs @ [c]) = 10 * dec_value xs + digit_value c"
  by (simp add: dec_value_def)

lemma dec_value_dec_string: "dec_value (dec_string n) = n"
proof (induction n rule: dec_string.induct)
  case (1 n)
  show ?case
  proof (cases "n < 10")
    case True
    then show ?thesis by (subst dec_string.simps) (simp add: dec_value_def digit_value_nth)
  next
    case False
    with "1.IH" show ?thesis
      by (subst dec_string.simps) (simp add: dec_value_snoc digit_value_nth)
  qed
qed

lemma digit_not_dot: "i < 10 \<Longrightarrow> ''0123456789'' ! i \<noteq> CHR ''.''"
  by (auto simp: less_Suc_eq numeral_eq_Suc)

lemma dec_string_no_dot: "\<forall>c \<in> set (dec_string n). c \<noteq> CHR ''.''"
proof (induction n rule: dec_string.induct)
  case (1 n)
  show ?case
  proof (cases "n < 10")
    case True
    then show ?thesis by (subst dec_string.simps) (simp add: digit_not_dot)
  next
    case False
    with "1.IH" show ?thesis by (subst dec_string.simps) (simp add: digit_not_dot)
  qed
qed

lemma to_fixed1_tenths: "to_fixed1 (of_nat k / 10) = dec_string (k div 10) @ ''.'' @ [''0123456789'' ! (k mod 10)]"
proof -
  have "\<lfloor>\<bar>of_nat k / 10 :: rat\<bar> * 10 + 1 / 2\<rfloor> = int k"
    by (simp add: floor_eq_iff)
  then show ?thesis by (simp add: to_fixed1_def)
qed

text \<open>
  A value within half a tenth of a step prints as the step: the label does not depend on
  the rounding error of the browser's \<open>0.5 + k * 0.1\<close> and \<open>parseFloat\<close>.
\<close>

lemma to_fixed1_near:
  assumes "0 \<le> x" and "\<bar>x - of_nat k / 10\<bar> < 1 / 20"
  shows "to_fixed1 x = to_fixed1 (of_nat k / 10)"
proof -
  have "of_nat k < x * 10 + 1 / 2" "x * 10 + 1 / 2 < of_nat k + 1"
    using assms(2) unfolding abs_less_iff by linarith+
  then have "\<lfloor>\<bar>x\<bar> * 10 + 1 / 2\<rfloor> = int k"
    using assms(1) by (simp add: floor_eq_iff)
  then have n: "nat \<lfloor>\<bar>x\<bar> * 10 + 1 / 2\<rfloor> = k" by simp
  have "to_fixed1 x = dec_string (k div 10) @ ''.'' @ [''0123456789'' ! (k mod 10)]"
    using assms(1) unfolding to_fixed1_def Let_def n by simp
  then show ?thesis by (simp only: to_fixed1_tenths)
qed

lemma speed_label_roundtrip:
  "label_value (to_fixed1 (of_nat k / 10)) = of_nat k / 10"
proof -
  have "takeWhile (\<lambda>c. c \<noteq> CHR ''.'') (dec_string (k div 10) @ ''.'' @ [''0123456789'' ! (k mod 10)])
          = dec_string (k div 10)"
    by (simp add: takeWhile_append2 dec_string_no_dot)
  moreover have "of_nat (k div 10) + of_nat (k mod 10) / 10 = (of_nat k / 10 :: rat)"
  proof -
    have "k = k div 10 * 10 + k mod 10" by simp
    then have "(of_nat k :: rat) = of_nat (k div 10) * 10 + of_nat (k mod 10)"
      by (metis of_nat_add of_nat_mult of_nat_numeral)
    then show ?thesis by (simp add: field_simps)
  qed
  moreover have "dec_value [''0123456789'' ! (k mod 10)] = k mod 10"
    by (simp add: dec_value_def digit_value_nth)
  ultimately show ?thesis
    by (simp add: label_value_def to_fixed1_tenths dec_value_dec_string)
qed

lemma slider_values_tenths: "v \<in> set slider_values \<Longrightarrow> \<exists>k. v = of_nat k / 10"
  unfolding slider_values_def set_map image_iff by blast

text \<open>(C28) Moving the speed slider to any of its positions and re-rendering puts that
  value in the slider and prints it beside it with one decimal and an x (in both versions), and a value off the step by less than half a tenth, as the
  browser's floating-point step arithmetic yields, prints the same label; and the printed
  label reads back as exactly the value set: \<open>toFixed(1)\<close> loses nothing on the slider's steps.\<close>

theorem speed_slider_label:
  assumes "enabled s (SpeedInput v)"
  shows "slider (controls_view (render_app (app_step s (SpeedInput v)))) = v \<and>
         slider_label (controls_view (render_app (app_step s (SpeedInput v)))) = to_fixed1 v @ ''x'' \<and>
         label_value (to_fixed1 v) = v \<and>
         (\<forall>x. 0 \<le> x \<and> \<bar>x - v\<bar> < 1 / 20 \<longrightarrow> to_fixed1 x = to_fixed1 v) \<and>
         snd (snd (controls_view_poc2 (render_app (app_step_poc2 s (SpeedInput v))))) = to_fixed1 v @ ''x''"
proof -
  have sp: "speed (render_app (app_step s (SpeedInput v))) = v"
    "speed (render_app (app_step_poc2 s (SpeedInput v))) = v"
    by (simp_all add: render_app_def set_state_def)
  obtain k where k: "v = of_nat k / 10"
    using assms slider_values_tenths by auto
  have "label_value (to_fixed1 v) = v"
    unfolding k by (rule speed_label_roundtrip)
  moreover have "\<forall>x. 0 \<le> x \<and> \<bar>x - v\<bar> < 1 / 20 \<longrightarrow> to_fixed1 x = to_fixed1 v"
    unfolding k using to_fixed1_near by blast
  ultimately show ?thesis using sp
    by (simp add: controls_view_def controls_view_poc2_def speed_label_def)
qed

theorem speed_slider_label_witness:
  "enabled app_init (SpeedInput (3 / 2)) \<and>
   slider (controls_view (render_app (app_step app_init (SpeedInput (3 / 2))))) = 3 / 2 \<and>
   slider_label (controls_view (render_app (app_step app_init (SpeedInput (3 / 2))))) = ''1.5x'' \<and>
   label_value (to_fixed1 (3 / 2)) = 3 / 2 \<and>
   snd (snd (controls_view_poc2 (render_app (app_step_poc2 app_init (SpeedInput (3 / 2)))))) = ''1.5x''"
proof -
  have en: "enabled app_init (SpeedInput (3 / 2))"
    by (simp add: slider_values_def upt_rec)
  have "to_fixed1 (3 / 2) = ''1.5''"
    using to_fixed1_tenths [of 15] by (simp add: dec_string.simps)
  with speed_slider_label [OF en] en show ?thesis by simp
qed

end
