(* ===== verification/Page.thy ===== *)
theory Page
  imports Controls
begin

text \<open>
  The mounted page: the component's state of \<open>Session\<close> together with the window
  globals of \<open>Controls\<close> and what React does after each commit. The first commit (the
  mount) runs the effects of App.jsx in the order they are declared: the worklet
  registration (lines 44-66) and the scroll effect (lines 230-234). A later commit runs
  the scroll effect only when its dependency \<open>promptPairs\<close> is a new array, which is the
  case exactly when a \<open>setPromptPairs\<close> updater ran in that commit. The scroll target
  \<open>chatEndRef\<close> (line 184) is the empty \<open><div>\<close> rendered after the last entry of the
  pairs view (line 421), present in every commit, so the effect always scrolls. The page
  records, as \<open>scroll_target\<close>, how many entries the pairs view had when
  \<open>scrollIntoView\<close> last ran. No event reaches a handler before the mount commit has
  attached them.
\<close>

record page =
  comp :: app
  win :: page_window
  mounted :: bool
  scroll_target :: "nat option"

definition page_init :: page where
  "page_init = \<lparr>comp = app_init, win = window_init, mounted = False, scroll_target = None\<rparr>"

text \<open>The updates whose updater returns a new \<open>promptPairs\<close> array.\<close>

fun is_pair_update :: "hook_update \<Rightarrow> bool" where
  "is_pair_update (PushPair p) = True"
| "is_pair_update (PushPairFromRef r) = True"
| "is_pair_update _ = False"

text \<open>
  The dependency test of the scroll effect (line 234, \<open>[promptPairs]\<close>, compared with
  \<open>Object.is\<close>): some updater of the committed queue built a new array.
\<close>

definition pairs_dep_changed :: "hook_update list \<Rightarrow> bool" where
  "pairs_dep_changed us \<longleftrightarrow> list_ex is_pair_update us"

text \<open>The scroll effect (lines 230-234) after a commit that produced the state \<open>s\<close>.\<close>

definition scroll_effect :: "app \<Rightarrow> page \<Rightarrow> page" where
  "scroll_effect s p = p\<lparr>scroll_target := Some (length (chat_view (prompt_pairs s)))\<rparr>"

datatype page_event = Mount | CompEv app_event

fun page_step :: "page \<Rightarrow> page_event \<Rightarrow> page" where
  "page_step p Mount =
     scroll_effect (comp p) (p\<lparr>mounted := True, win := mount_effect (win p)\<rparr>)"
| "page_step p (CompEv Render) =
     (let s' = render_app (comp p)
      in if pairs_dep_changed (pending (comp p)) then scroll_effect s' (p\<lparr>comp := s'\<rparr>)
         else p\<lparr>comp := s'\<rparr>)"
| "page_step p (CompEv e) = p\<lparr>comp := app_step (comp p) e\<rparr>"

fun page_enabled :: "page \<Rightarrow> page_event \<Rightarrow> bool" where
  "page_enabled p Mount \<longleftrightarrow> \<not> mounted p"
| "page_enabled p (CompEv e) \<longleftrightarrow> mounted p \<and> enabled (comp p) e"

inductive page_reachable :: "page \<Rightarrow> bool" where
  init: "page_reachable page_init"
| step: "page_reachable p \<Longrightarrow> page_enabled p e \<Longrightarrow> page_reachable (page_step p e)"

text \<open>
  poc2.jsx has one effect, the worklet registration (lines 42-64), and no scroll
  effect: its mount commit only registers the worklet and its commits run no effect.
\<close>

fun page_step_poc2 :: "page \<Rightarrow> page_event \<Rightarrow> page" where
  "page_step_poc2 p Mount = p\<lparr>mounted := True, win := mount_effect (win p)\<rparr>"
| "page_step_poc2 p (CompEv e) = p\<lparr>comp := app_step_poc2 (comp p) e\<rparr>"

inductive page_reachable_poc2 :: "page \<Rightarrow> bool" where
  init: "page_reachable_poc2 page_init"
| step: "page_reachable_poc2 p \<Longrightarrow> page_enabled p e \<Longrightarrow> page_reachable_poc2 (page_step_poc2 p e)"

definition page_run :: "page \<Rightarrow> page_event list \<Rightarrow> page" where
  "page_run p es = fold (\<lambda>e p. page_step p e) es p"

fun page_run_enabled :: "page \<Rightarrow> page_event list \<Rightarrow> bool" where
  "page_run_enabled p [] = True"
| "page_run_enabled p (e # es) = (page_enabled p e \<and> page_run_enabled (page_step p e) es)"

abbreviation registered_window :: page_window where
  "registered_window \<equiv> \<lparr>worklet_registered = True, processor_url = Some 0, object_urls = 1\<rparr>"

text \<open>A session on the mounted page that adds one pair and commits it.\<close>

abbreviation pair_run :: "page_event list" where
  "pair_run \<equiv> [Mount, CompEv (TokenInput ''t''), CompEv Render, CompEv Start, CompEv (WsOpen 0),
               CompEv (WsMessage 0 (TextMsg ''p'' (prompt_msg ''A''))),
               CompEv (WsMessage 0 (TextMsg ''r'' (response_msg ''B''))), CompEv Render]"

subsection \<open>Lemmas\<close>

fun_cases page_enabled_MountE: "page_enabled p Mount"
  and page_enabled_CompE: "page_enabled p (CompEv e)"

lemma pairs_fold_length:
  "length (fold (pair_effect r) us ps) = length ps + length (filter is_pair_update us)"
proof (induction us arbitrary: ps)
  case Nil
  then show ?case by simp
next
  case (Cons u us)
  then show ?case by (cases u) simp_all
qed

lemma pairs_fold_same:
  "\<not> pairs_dep_changed us \<Longrightarrow> fold (pair_effect r) us ps = ps"
proof (induction us arbitrary: ps)
  case Nil
  then show ?case by simp
next
  case (Cons u us)
  then show ?case by (cases u) (simp_all add: pairs_dep_changed_def)
qed

text \<open>
  Comparing the array by identity and by value agree: a pair updater always appends,
  so the dependency changes exactly when the list of pairs does.
\<close>

lemma pairs_dep_changed_iff:
  "pairs_dep_changed (pending s) \<longleftrightarrow> prompt_pairs (render_app s) \<noteq> prompt_pairs s"
proof
  assume "pairs_dep_changed (pending s)"
  then have "filter is_pair_update (pending s) \<noteq> []"
    by (simp add: pairs_dep_changed_def list_ex_iff filter_empty_conv)
  then have "length (prompt_pairs (render_app s)) \<noteq> length (prompt_pairs s)"
    by (simp add: render_app_def render_transcript_def pairs_fold_length)
  then show "prompt_pairs (render_app s) \<noteq> prompt_pairs s" by auto
next
  assume "prompt_pairs (render_app s) \<noteq> prompt_pairs s"
  then show "pairs_dep_changed (pending s)"
    using pairs_fold_same [of "pending s" "last_prompt s" "prompt_pairs s"]
    by (auto simp: render_app_def render_transcript_def)
qed

lemma length_chat_view [simp]: "length (chat_view ps) = length ps"
  by (simp add: chat_view_def display_pairs_def dedup_pairs_nth)

lemma pairs_app_step: "e \<noteq> Render \<Longrightarrow> prompt_pairs (app_step s e) = prompt_pairs s"
proof (cases e)
  case (WsMessage i m)
  then show ?thesis
    by (cases m) (simp_all add: ws_onmessage_def on_text_app_def set_state_def Let_def
                    split: parsed.split)
qed (simp_all add: handler_defs render_transcript_def set_state_def Let_def split: option.split)

lemma page_step_comp: "a \<noteq> Render \<Longrightarrow> page_step p (CompEv a) = p\<lparr>comp := app_step (comp p) a\<rparr>"
  by (cases a) simp_all

lemma page_reachable_run:
  "page_reachable p \<Longrightarrow> page_run_enabled p es \<Longrightarrow> page_reachable (page_run p es)"
proof (induction es arbitrary: p)
  case Nil
  then show ?case by (simp add: page_run_def)
next
  case (Cons e es)
  then have "page_reachable (page_step p e)" by (auto intro: page_reachable.step)
  with Cons show ?case by (simp add: page_run_def)
qed


text \<open>(C17) The mounted page: in every reachable state after the mount commit, the pairs
  view has been scrolled to its newest entry (the scroll effect ran after every commit
  that added a pair), the window holds the one Blob URL of the worklet, created at mount
  and passed to every \<open>addModule\<close>, and the component's state is a reachable state of
  the component model: the page runs the component's handlers unchanged. The page of
  poc2.jsx, which has no scroll effect, likewise holds the one worklet URL and runs
  states that poc2.jsx's component reaches.\<close>

theorem page_scrolled_to_newest:
  assumes "page_reachable p" and "mounted p"
  shows "scroll_target p = Some (length (prompt_pairs (comp p))) \<and>
         win p = registered_window \<and> reachable (comp p) \<and>
         (\<forall>q. page_reachable_poc2 q \<and> mounted q \<longrightarrow>
              win q = registered_window \<and> reachable_poc2 (comp q))"
proof -
  have "if mounted p
        then scroll_target p = Some (length (prompt_pairs (comp p))) \<and>
             win p = registered_window \<and> reachable (comp p)
        else p = page_init"
    using assms(1)
  proof (induction rule: page_reachable.induct)
    case init
    show ?case by (simp add: page_init_def)
  next
    case (step p e)
    show ?case
    proof (cases e)
      case Mount
      with step.hyps(2) have "\<not> mounted p" by (auto elim: page_enabled_MountE)
      with step.IH have "p = page_init" by simp
      with Mount show ?thesis
        by (simp add: page_init_def scroll_effect_def mount_effect_def window_init_def
                      app_init_def transcript_init_def reachable.init [unfolded app_init_def transcript_init_def])
    next
      case (CompEv a)
      with step.hyps(2) have m: "mounted p" and en: "enabled (comp p) a"
        by (auto elim: page_enabled_CompE)
      with step.IH have ih: "scroll_target p = Some (length (prompt_pairs (comp p)))"
        "win p = registered_window" "reachable (comp p)" by simp_all
      have r: "reachable (app_step (comp p) a)" using ih(3) en by (rule reachable.step)
      show ?thesis
      proof (cases "a = Render")
        case True
        with r have "reachable (render_app (comp p))" by simp
        with True CompEv m ih show ?thesis
          by (auto simp: Let_def scroll_effect_def pairs_dep_changed_iff)
      next
        case False
        with CompEv m ih r show ?thesis by (simp add: page_step_comp pairs_app_step)
      qed
    qed
  qed
  moreover have "if mounted q then win q = registered_window \<and> reachable_poc2 (comp q)
                 else q = page_init" if "page_reachable_poc2 q" for q
    using that
  proof (induction rule: page_reachable_poc2.induct)
    case init
    show ?case by (simp add: page_init_def)
  next
    case (step q e)
    show ?case
    proof (cases e)
      case Mount
      with step.hyps(2) have "\<not> mounted q" by (auto elim: page_enabled_MountE)
      with step.IH have "q = page_init" by simp
      with Mount show ?thesis
        by (simp add: page_init_def mount_effect_def window_init_def reachable_poc2.init)
    next
      case (CompEv a)
      with step.hyps(2) have "mounted q" and "enabled (comp q) a"
        by (auto elim: page_enabled_CompE)
      with step.IH CompEv show ?thesis by (simp add: reachable_poc2.step)
    qed
  qed
  ultimately show ?thesis using assms(2) by auto
qed

theorem page_scrolled_to_newest_witness:
  "page_reachable (page_run page_init pair_run) \<and> mounted (page_run page_init pair_run) \<and>
   scroll_target (page_run page_init pair_run) = Some 1 \<and>
   processor_url (win (page_run page_init pair_run)) = Some 0 \<and>
   reachable (comp (page_run page_init pair_run))"
proof -
  have r: "page_reachable (page_run page_init pair_run)"
    by (rule page_reachable_run [OF page_reachable.init])
       (simp add: page_init_def window_init_def mount_effect_def scroll_effect_def
                  pairs_dep_changed_def model_defs)
  have m: "mounted (page_run page_init pair_run)"
    by (simp add: page_run_def page_init_def scroll_effect_def pairs_dep_changed_def model_defs)
  have n: "length (prompt_pairs (comp (page_run page_init pair_run))) = 1"
    by (simp add: page_run_def page_init_def scroll_effect_def pairs_dep_changed_def model_defs)
  show ?thesis
    using page_scrolled_to_newest [OF r m] r m n by simp
qed

end
