(* ===== verification/Spec2Isabelle.thy ===== *)
theory Spec2Isabelle
  imports Codec Transcript Rendering Playback Session SessionProps Controls Page
begin

text \<open>
  A verification development for the Speechmatics Flow demo client
  (src/src/App.jsx, and its earlier version src/poc2.jsx): a React component that
  streams microphone audio to a conversational-audio service over a WebSocket, plays
  the synthesised speech that comes back, and pairs the text events into
  prompt/response records.

  \<^bold>\<open>The program.\<close> Start (\<open>startFlow\<close>) checks the token and opens a socket. Its
  \<open>onopen\<close> handler sends \<open>StartConversation\<close>, asks for the microphone, creates an
  AudioContext, loads the inline \<open>PCMProcessor\<close> worklet and connects
  microphone, worklet and output; the worklet encodes every render quantum as 16-bit
  PCM and its port handler forwards it on the socket while the socket is open.
  \<open>onmessage\<close> sends text to the transcript logic (\<open>lastPromptRef\<close>,
  \<open>promptPairs\<close>, \<open>messages\<close>) and binary data to \<open>playAudioChunk\<close>, which decodes
  it and schedules it on the playback cursor \<open>nextPlayTimeRef\<close>. \<open>onclose\<close>,
  \<open>onerror\<close> and the Stop button run \<open>stopFlow\<close>. poc2.jsx differs only in the
  shape of the pairing test, in its Clear button and in having no recording feature.
  App.jsx also fetches a token (\<open>fetchToken\<close>), copies it, and records the user's
  voice with a MediaRecorder, appending a simulated bot reply to each recording, with a
  download of the whole conversation.

  \<^bold>\<open>Theories.\<close>
  \<^item> \<open>Prelude\<close>: machine types (\<open>byte\<close>, \<open>int16\<close>), the rule collections
    \<open>model_defs\<close> (definitions unfolded to evaluate runs) and \<open>inv_rules\<close>,
    truncation towards zero on rationals (\<open>js_trunc\<close>), signed 16-bit words,
    little-endian byte pairs (\<open>le_bytes\<close>, \<open>le_word\<close>), the white space of
    \<open>trim\<close> and \<open>\s\<close> (\<open>js_space\<close>) and list lemmas.
  \<^item> \<open>JsNumber\<close>: the ECMAScript Number operations of the capture loop
    (\<open>Math.min\<close>, \<open>Math.max\<close>, \<open>*\<close>, \<open>ToInt16\<close>) with NaN and the infinities.
  \<^item> \<open>Codec\<close> (FrameCodec): \<open>pcm_sample\<close>, \<open>pcm_frame\<close>, \<open>int16_buffer\<close> and
    \<open>pcm_process\<close> are \<open>PCMProcessor.process\<close> (App.jsx 48-59); \<open>dv_get_int16_le\<close>,
    \<open>pcm_value\<close> and \<open>decode_pcm\<close> are the decoding loop of \<open>playAudioChunk\<close>
    (App.jsx 193-198), a \<open>RangeError\<close> of \<open>getInt16\<close> being \<open>None\<close>;
    \<open>decode_loop\<close> keeps that loop in its source shape, a \<open>while_option\<close> over
    the counter, the array and a flag that \<open>getInt16\<close> threw.
  \<^item> \<open>Transcript\<close> (TranscriptCorrelator): \<open>on_text_app\<close> and \<open>on_text_poc2\<close> are
    the text branches of \<open>onmessage\<close> (App.jsx 116-142, poc2.jsx 114-134);
    \<open>set_state\<close>, \<open>apply_update\<close> and \<open>render_transcript\<close> are React's update queue;
    \<open>dedup_pairs\<close>/\<open>display_pairs\<close> the view \<open>result\<close> (App.jsx 220-228);
    \<open>correlate\<close> is the single-slot correlator the spec describes.
  \<^item> \<open>Rendering\<close> (Rendering and layout): what is displayed, \<open>chat_view\<close> (the
    \<open>result.map\<close> of App.jsx 383-420, each prompt and response passed through its
    tag-stripping \<open>replace\<close>, \<open>strip_tags\<close> with the matchers \<open>s1_tag\<close> and
    \<open>speaker_tag\<close>), \<open>chat_view_poc2\<close> (the raw table of poc2.jsx 283-288) and
    \<open>log_view\<close> (the message log, App.jsx 148-151, 441-443).
  \<^item> \<open>Playback\<close> (PlaybackScheduler): \<open>play_audio_chunk\<close> is \<open>playAudioChunk\<close>
    (App.jsx 186-218) over a record of \<open>audioCtxRef\<close>, \<open>nextPlayTimeRef\<close>, every
    scheduled source and the uncaught exceptions; \<open>source_ended\<close>, \<open>advance_clock\<close>
    and \<open>close_ctx\<close> are \<open>onended\<close>, the passing of time and \<open>audioCtx.close()\<close>.
    \<open>pb_step\<close> runs these as events.
  \<^item> \<open>Recording\<close> (Recording): \<open>rec_state\<close> holds \<open>recording\<close>,
    \<open>conversationAudio\<close>, \<open>mediaRecorderRef\<close>, \<open>userChunksRef\<close> and every recorder
    created; \<open>start_recording\<close>/\<open>rec_mic_granted\<close>/\<open>rec_mic_denied\<close> are
    \<open>startRecording\<close> around its \<open>await\<close> (App.jsx 241-260), \<open>stop_recording\<close>,
    \<open>rec_stop_event\<close> (\<open>ondataavailable\<close> and \<open>onstop\<close>),
    \<open>simulate_bot_audio\<close>, \<open>download_conversation\<close> and \<open>clear_all_rec\<close> the
    other handlers; \<open>rec_step\<close>, \<open>rec_enabled\<close> and \<open>rec_reachable\<close> its own
    event machine, with the invariant \<open>rec_inv\<close>.
  \<^item> \<open>Session\<close> (TransportSession, CaptureEngine, Teardown, AppState): the record
    \<open>app\<close> extends the transcript with every hook and ref of \<open>App\<close>; one definition
    per handler (\<open>start_flow\<close>, \<open>ws_onopen\<close>, \<open>mic_granted\<close>, \<open>module_loaded\<close>,
    \<open>mic_failed\<close>, \<open>worklet_frame\<close>, \<open>ws_onmessage\<close>, \<open>stop_flow\<close>,
    \<open>ws_onclose\<close>, \<open>clear_all_app\<close>, \<open>clear_all_poc2\<close>, \<open>render_app\<close>), the
    step function \<open>app_step\<close> over the datatype \<open>app_event\<close> (and
    \<open>app_step_poc2\<close>, with \<open>ws_onmessage_poc2\<close>, for poc2.jsx), the predicate
    \<open>enabled\<close> saying which events the browser can deliver (the slider delivers
    the values of its range in steps of 0.1, \<open>slider_values\<close>), and the inductive set of
    \<open>reachable\<close> states (\<open>reachable_poc2\<close> for poc2.jsx). The recording machine is a field of \<open>app\<close>, driven by the
    events \<open>RecEv\<close> (\<open>rec_event_app\<close>) and by Clear; \<open>reachable_rec\<close> shows that
    every reachable state of the component projects to a reachable recording state.
    \<open>token_fetched\<close> and \<open>copy_token\<close> are the token controls (App.jsx 23-41,
    318-334). The invariant \<open>app_inv\<close> is proved here, from the rule collection \<open>inv_rules\<close>; \<open>ready_state\<close> is ordered as the
    numeric \<open>readyState\<close> constants (a \<open>linorder\<close> instance), and
    \<open>conns_mono\<close> says that every step moves sockets forward in that order.
  \<^item> \<open>SessionProps\<close>: the properties of the whole component.
  \<^item> \<open>Page\<close> (Page lifecycle): the record \<open>page\<close> puts the component state beside
    the window globals, whether the mount commit has run and the entry the pairs view
    was last scrolled to (\<open>chatEndRef\<close>, App.jsx 184, 421). \<open>page_step\<close> runs the
    mount commit (the effects of lines 44-66 and 230-234 in declaration order), a
    commit (\<open>Render\<close>) followed by the scroll effect when its dependency changed
    (\<open>pairs_dep_changed\<close>, line 234, shown to agree with a change of the pairs), and
    every other event as \<open>app_step\<close>; \<open>page_reachable\<close> are its reachable states.
    \<open>page_step_poc2\<close> is the page of poc2.jsx, whose only effect is the worklet
    registration (poc2.jsx 42-64).
  \<^item> \<open>Controls\<close> (Rendering and layout, Worklet registration): the control row
    as rendered, \<open>controls_view\<close> (token field, slider, speed label, recording
    toggle label, download enabled; App.jsx 303-362) and \<open>controls_view_poc2\<close>
    (poc2.jsx 208-258); \<open>to_fixed1\<close> is \<open>Number.prototype.toFixed(1)\<close> and
    \<open>speed_label\<close> the label \<open>{playbackSpeed.toFixed(1)}x\<close>; \<open>label_value\<close> reads
    a printed decimal back. \<open>mount_effect\<close> is the \<open>useEffect\<close> that registers the
    worklet's Blob URL once per window (App.jsx 44-66) over the window globals
    \<open>page_window\<close>.

  \<^bold>\<open>Modelling choices.\<close> Samples and times are rationals. The codec's arithmetic
  is exact in the browser too: a float32 sample times 32767 needs at most 39 significant
  bits, and an int16 divided by 32768 is a float32 exactly, so the rational model is the
  double computation. The playback clock, the chunk duration \<open>n / 16000\<close> and its
  division by the speed are rounded in double precision by the browser; the model
  computes them exactly, so the scheduling theorems hold up to that rounding. React
  state: \<open>setX(f)\<close> queues \<open>f\<close> (\<open>pending\<close>), and a \<open>Render\<close> event applies the
  queue in order. React runs \<open>f\<close> at once (its eager path) only while neither copy of
  the fiber has pending lanes; a commit clears the lanes of one copy only, so this holds
  for the component's first update at most, which the flag \<open>scheduled\<close> records.
  Inbound JSON fields are modelled when they are strings or absent (a truthy field of
  another type is treated as absent).
  The handlers of a socket are closures of the render in which Start was clicked: each
  socket records the \<open>playbackSpeed\<close> it captured (\<open>ws_speed\<close>). Every socket,
  microphone stream, worklet node and media source ever created is kept in a list, the
  ref being an index into it, so that resources no ref reaches stay visible. Each
  \<open>await\<close> of \<open>onopen\<close> splits it into separate events. The loops of the program
  run over the elements of a buffer: they are maps or folds, or, for the decoding loop
  kept in its shape, a \<open>while_option\<close> whose termination is proved with the measure
  \<open>length / 2 - i\<close> (C38). The two recursive functions of \<open>Rendering\<close> terminate by
  the length of the string and the value of the number. No fuel is needed anywhere; runs
  are finite event lists (\<open>run\<close>, \<open>rec_run\<close>).

  \<^bold>\<open>What the lemmas show.\<close> Codec (C1-C5, C7): decoding inverts the byte
  encoding, encoding a decoded sample moves it one step towards zero, the quantisation
  error bound, the output range with the non-finite inputs, totality of decoding, and
  the frame posted by the worklet; C38, that the decoding loop terminates on every buffer and
  stores what \<open>decode_pcm\<close> computes. Transcript (C8-C11, C13): once the component has
  scheduled an update, the pairs of any run, even one with a render after every message,
  are the spec's correlator pairs with every prompt lost (C8); the pair that loses its
  prompt when the updater is deferred; a response after an empty prompt is dropped; the
  first-occurrence view; every parsed message is logged. C12, in \<open>SessionProps\<close>: the
  step function of poc2.jsx (\<open>app_step_poc2\<close>) equals that of App.jsx on every
  event but Clear and the recording events, and every state it reaches
  (\<open>reachable_poc2\<close>) satisfies the invariant \<open>app_inv\<close> of App.jsx.
  C6 (\<open>Playback\<close>): a refinement of the abstract gapless queue \<open>queue_starts\<close>
  (each chunk starts at the later of its arrival and the end of the previous one) by
  runs of \<open>playAudioChunk\<close> interleaved with the clock.
  Playback (C14-C16): every branch of \<open>playAudioChunk\<close> (the scheduling rule and the
  short-buffer error), the invariant \<open>pb_inv\<close> (back-to-back sources on the current
  context ending by the cursor) preserved by every event, its consequence for whole
  runs. C17 (\<open>Page\<close>): on the mounted page the pairs view is always scrolled to its
  newest entry, the window holds the one worklet URL, and the component's states are
  those of the component model. C18 (\<open>Rendering\<close>): the tag
  matchers accept exactly the languages of their regular expressions, written as string
  sets (\<open>speaker_tag_lang\<close>, \<open>s1_tag_lang\<close>). C28 (\<open>Controls\<close>): a slider step is shown
  beside the slider by a label that reads back as the value set. Session
  (C19-C27, C29-C34, in \<open>SessionProps\<close>): the invariant \<open>app_inv\<close>, proved for every
  reachable state by rule induction (\<open>reachable_app_inv\<close>), gives the protocol order on
  every socket (C19, with sockets that never go back to an earlier state) and gapless playback; C32 that a non-blank token leads, by deliverable events, to a socket
  streaming audio. The remaining theorems pin down the stale playback speed, what
  \<open>stopFlow\<close> releases, the second \<open>close()\<close> of the context, a restart leaking the
  old socket, the prompt surviving a restart, the send guard of the worklet, capture
  started by a microphone grant on a closed socket (C27), the two Clear buttons, the
  playback context leaked by any grant that finds one already open (C30), the closed
  context every later session plays into until a new grant (C31), Clear during a
  recording (C33) and the outcomes of Start's token check and \<open>fetchToken\<close> (C34);
  C27, C30 and C31 are stated over every state where their event is deliverable.
  Recording (C35-C37): the recording refs are valid, a recorder orphaned by a double
  click records for ever, and from any recording state Stop Recording and the bot timer
  lead to a download of the user clip followed by the bot WAV (whose header declares
  15872 Hz, \<open>bot_wav_sample_rate\<close>).

  \<^bold>\<open>Not modelled.\<close> Nothing of poc2.jsx is left out, but its handlers that are
  identical to App.jsx's (\<open>fetchToken\<close>, \<open>startFlow\<close> with \<open>onopen\<close>, \<open>stopFlow\<close>,
  \<open>playAudioChunk\<close>, the worklet source) are the same definitions, which the map
  attributes to their App.jsx lines. The network request of \<open>fetchToken\<close> (only its outcome is an
  event, \<open>TokenFetched\<close>); \<open>JSON.parse\<close> and \<open>JSON.stringify\<close> (inbound messages
  arrive parsed, as the datatype \<open>parsed\<close>; outbound ones as constructors); the JSX
  nesting, styles and \<open>console.log\<close> (the displayed content is modelled, not its
  layout; scrolling only as the entry the view was last scrolled to); the argument of
  \<open>addModule\<close> (the page shows the window holds the one URL from mount; the module
  load itself is an event of the environment); React's development-mode double
  invocation of effects (\<open>mount_effect_runs\<close> shows it would be harmless); the
  content of recorded audio (numbered chunks) and the audio signal itself (resampling,
  mixing and output); the microphone streams of the recording feature, which the code
  never stops.
\<close>

end
